(* ===== verification/Certos_Prelude.thy ===== *)
theory Certos_Prelude
  imports Complex_Main "HOL-Library.Word" "HOL-Library.AList" "HOL-Library.Sublist"
    "HOL-Library.Multiset"
begin

text \<open>
  Shared vocabulary of the development: the machine integer types, the \<open>std::string\<close>
  operations the sources use (\<open>find\<close>, \<open>substr\<close>, \<open>std::getline\<close> with a delimiter,
  \<open>std::to_string\<close>), and association lists as the model of \<open>std::unordered_map\<close>.

  An \<open>unordered_map\<close> has distinct keys and an unspecified iteration order.  The model
  keeps the entries in a list with distinct keys; the list order stands for one iteration
  order, and since every theorem quantifies over the stored lists it covers all orders.
\<close>

section \<open>Machine integers\<close>

type_synonym u16 = "16 word"
type_synonym u32 = "32 word"
type_synonym u64 = "64 word"
type_synonym i32 = "32 word" \<comment> \<open>read with \<open>sint\<close>\<close>

text \<open>Seconds since the epoch (\<open>int64_t\<close>); far from the 64-bit bounds, so kept in \<open>int\<close>.\<close>

type_synonym unix_time = int

named_theorems table_simps \<open>look-ups in updated and swept tables\<close>
named_theorems str_simps \<open>evaluation of the std::string operations\<close>

text \<open>Unsigned arithmetic that stays inside the width, read in \<open>nat\<close>.\<close>

lemma word_sub_nat: "(a :: 'a::len word) \<le> t \<Longrightarrow> unat (t - a) = unat t - unat a"
  by (rule unat_sub)

lemma word_room_iff:
  "(a :: 'a::len word) \<le> t \<Longrightarrow> r \<le> t - a \<longleftrightarrow> unat a + unat r \<le> unat t"
  by (auto simp: word_le_nat_alt word_sub_nat)

lemma word_take_room:
  fixes a r t :: "'a::len word"
  assumes "a \<le> t" "r \<le> t - a"
  shows "unat (a + r) = unat a + unat r" "a + r \<le> t"
proof -
  have r: "unat a + unat r \<le> unat t"
    using assms by (simp add: word_room_iff)
  also have "unat t < 2 ^ LENGTH('a)"
    by simp
  finally show "unat (a + r) = unat a + unat r"
    by (simp add: unat_word_ariths)
  with r show "a + r \<le> t" by (simp add: word_le_nat_alt)
qed

lemma word_clamped_sub:
  fixes a r :: "'a::len word"
  shows "unat (if r < a then a - r else 0) = unat a - unat r"
    and "a \<le> t \<Longrightarrow> (if r < a then a - r else 0) \<le> t"
  by (auto simp: word_less_nat_alt word_sub_nat word_le_nat_alt)

lemma give_back_taken:
  fixes a r t :: "'a::len word"
  assumes "a \<le> t" "r \<le> t - a"
  shows "(if r < a + r then a else 0) = a"
proof -
  have "unat (if r < a + r then a + r - r else 0) = unat a"
    unfolding word_clamped_sub(1) word_take_room(1) [OF assms] by simp
  then show ?thesis
    unfolding word_unat_eq_iff by (simp cong: if_cong split del: if_split)
qed

section \<open>std::string\<close>

text \<open>\<open>s.find(p)\<close>: the first position of \<open>p\<close> in \<open>s\<close>; \<open>None\<close> is \<open>npos\<close>.\<close>

fun str_find :: "string \<Rightarrow> string \<Rightarrow> nat option" where
  "str_find p [] = (if p = [] then Some 0 else None)"
| "str_find p (c # cs) =
     (if prefix p (c # cs) then Some 0 else map_option Suc (str_find p cs))"

text \<open>\<open>s.substr(pos)\<close> and \<open>s.substr(pos, n)\<close>; \<open>None\<close> is the \<open>std::out_of_range\<close> exception.\<close>

definition substr_from :: "string \<Rightarrow> nat \<Rightarrow> string option" where
  "substr_from s pos = (if length s < pos then None else Some (drop pos s))"

definition substr_len :: "string \<Rightarrow> nat \<Rightarrow> nat \<Rightarrow> string option" where
  "substr_len s pos n = (if length s < pos then None else Some (take n (drop pos s)))"

text \<open>The string a \<open>char*\<close> reads back as: it ends at the first NUL.\<close>

definition c_str :: "string \<Rightarrow> string" where
  "c_str s = takeWhile (\<lambda>c. c \<noteq> CHR 0x00) s"

lemma c_str_id: "CHR 0x00 \<notin> set s \<Longrightarrow> c_str s = s"
  by (auto simp: c_str_def takeWhile_eq_all_conv)

text \<open>\<open>while (std::getline(ss, u, d)) ...\<close>: the pieces read until the stream is exhausted.\<close>

function getline_all :: "char \<Rightarrow> string \<Rightarrow> string list" where
  "getline_all d [] = []"
| "getline_all d (c # cs) =
     takeWhile (\<lambda>x. x \<noteq> d) (c # cs)
       # getline_all d (drop 1 (dropWhile (\<lambda>x. x \<noteq> d) (c # cs)))"
  by pat_completeness auto
termination
  by (relation "measure (\<lambda>(d, s). length s)")
     (auto simp: less_Suc_eq_le intro: order_trans [OF diff_le_self] length_dropWhile_le)

text \<open>\<open>std::to_string\<close> of an unsigned number.\<close>

fun digit_char :: "nat \<Rightarrow> char" where
  "digit_char n = char_of (48 + n)"

fun to_string :: "nat \<Rightarrow> string" where
  "to_string n = (if n < 10 then [digit_char n] else to_string (n div 10) @ [digit_char (n mod 10)])"

declare to_string.simps [simp del]

lemma digit_char_code: "n < 10 \<Longrightarrow> of_char (digit_char n) = 48 + n"
  by simp

lemma to_string_digits: "c \<in> set (to_string n) \<Longrightarrow> of_char c \<in> {48..<58 :: nat}"
proof (induction n rule: to_string.induct)
  case (1 n)
  have "of_char (digit_char (n mod 10)) = 48 + n mod 10" "n mod 10 < 10"
    using digit_char_code [of "n mod 10"] by simp_all
  moreover have "c \<in> set (if n < 10 then [digit_char n] else to_string (n div 10) @ [digit_char (n mod 10)])"
    using 1(2) by (simp only: to_string.simps [of n])
  ultimately show ?case
    using 1(1) digit_char_code [of n] by (auto simp del: digit_char.simps split: if_splits)
qed

lemma to_string_chars: "CHR ''/'' \<notin> set (to_string n)" "CHR 0x00 \<notin> set (to_string n)"
  using to_string_digits [of "CHR ''/''" n] to_string_digits [of "CHR 0x00" n] by auto

lemma str_find_prefix: "str_find p s = Some 0 \<longleftrightarrow> prefix p s"
  by (cases s) auto

lemma str_find_Some_prefix: "str_find p s = Some i \<Longrightarrow> i \<le> length s \<and> prefix p (drop i s)"
proof (induction s arbitrary: i)
  case (Cons c cs)
  then show ?case by (cases i) (auto split: if_splits)
qed (auto split: if_splits)

lemma str_find_None: "str_find p s = None \<longleftrightarrow> \<not> sublist p s"
proof (induction s)
  case (Cons c cs)
  then show ?case by (auto simp: sublist_Cons_right)
qed simp

lemma str_find_first: "str_find p s = Some i \<Longrightarrow> j < i \<Longrightarrow> \<not> prefix p (drop j s)"
proof (induction s arbitrary: i j)
  case (Cons c cs)
  then show ?case by (cases j) (auto split: if_splits)
qed (auto split: if_splits)

lemma substr_from_Some [str_simps]:
  "pos \<le> length s \<Longrightarrow> substr_from s pos = Some (drop pos s)"
  by (simp add: substr_from_def)

lemma substr_len_Some [str_simps]:
  "pos \<le> length s \<Longrightarrow> substr_len s pos n = Some (take n (drop pos s))"
  by (simp add: substr_len_def)

lemma getline_all_piece [str_simps]:
  "d \<notin> set xs \<Longrightarrow> xs \<noteq> [] \<Longrightarrow> getline_all d xs = [xs]"
proof -
  assume "d \<notin> set xs" "xs \<noteq> []"
  moreover from this have "dropWhile (\<lambda>x. x \<noteq> d) xs = []" "takeWhile (\<lambda>x. x \<noteq> d) xs = xs"
    by (auto simp: dropWhile_eq_Nil_conv takeWhile_eq_all_conv)
  ultimately show ?thesis by (cases xs) auto
qed

lemma getline_all_sep [str_simps]:
  "d \<notin> set xs \<Longrightarrow> getline_all d (xs @ d # ys) = xs # getline_all d ys"
  by (cases xs) (auto simp: takeWhile_append dropWhile_append takeWhile_eq_all_conv [THEN iffD2])

text \<open>Joining separator-free pieces with the separator and reading them back is the identity.\<close>

fun join_with :: "char \<Rightarrow> string list \<Rightarrow> string" where
  "join_with d [] = []"
| "join_with d [x] = x"
| "join_with d (x # y # xs) = x @ d # join_with d (y # xs)"

lemma getline_all_join:
  "\<forall>x\<in>set xs. d \<notin> set x \<and> x \<noteq> [] \<Longrightarrow> getline_all d (join_with d xs) = xs"
  by (induction xs rule: join_with.induct) (auto simp: str_simps)

lemma join_with_snoc: "xs \<noteq> [] \<Longrightarrow> join_with d (xs @ [y]) = join_with d xs @ d # y"
  by (induction xs rule: join_with.induct) auto

text \<open>Goals that are conjunctions of several statements, split into exactly those statements.\<close>

lemma conj_goals:
  "A \<Longrightarrow> B \<Longrightarrow> A \<and> B"
  "A \<Longrightarrow> B \<Longrightarrow> C \<Longrightarrow> A \<and> B \<and> C"
  "A \<Longrightarrow> B \<Longrightarrow> C \<Longrightarrow> D \<Longrightarrow> A \<and> B \<and> C \<and> D"
  "A \<Longrightarrow> B \<Longrightarrow> C \<Longrightarrow> D \<Longrightarrow> E \<Longrightarrow> A \<and> B \<and> C \<and> D \<and> E"
  "A \<Longrightarrow> B \<Longrightarrow> C \<Longrightarrow> D \<Longrightarrow> E \<Longrightarrow> F \<Longrightarrow> A \<and> B \<and> C \<and> D \<and> E \<and> F"
  "A \<Longrightarrow> B \<Longrightarrow> C \<Longrightarrow> D \<Longrightarrow> E \<Longrightarrow> F \<Longrightarrow> G \<Longrightarrow> A \<and> B \<and> C \<and> D \<and> E \<and> F \<and> G"
  "A \<Longrightarrow> B \<Longrightarrow> C \<Longrightarrow> D \<Longrightarrow> E \<Longrightarrow> F \<Longrightarrow> G \<Longrightarrow> H \<Longrightarrow> A \<and> B \<and> C \<and> D \<and> E \<and> F \<and> G \<and> H"
  by blast+

section \<open>Lists related element by element\<close>

lemma list_all2_right: "list_all2 R xs ys \<Longrightarrow> y \<in> set ys \<Longrightarrow> \<exists>x\<in>set xs. R x y"
  by (induction rule: list_all2_induct) auto

lemma list_all2_left: "list_all2 R xs ys \<Longrightarrow> x \<in> set xs \<Longrightarrow> \<exists>y\<in>set ys. R x y"
  by (induction rule: list_all2_induct) auto

lemma subseq_distinct_map: "subseq xs ys \<Longrightarrow> distinct (map f ys) \<Longrightarrow> distinct (map f xs)"
  by (induction rule: list_emb.induct) (auto dest: list_emb_set)

section \<open>std::unordered_map\<close>

type_synonym 'v table = "(string \<times> 'v) list"

text \<open>A loop \<open>for (auto& pair : m)\<close> that updates each entry in place.\<close>

definition sweep :: "('v \<Rightarrow> 'v) \<Rightarrow> 'v table \<Rightarrow> 'v table" where
  "sweep f t = map (\<lambda>(k, v). (k, f v)) t"

text \<open>Every entry is stored under its own key, and keys are distinct.\<close>

definition keyed :: "('v \<Rightarrow> string) \<Rightarrow> 'v table \<Rightarrow> bool" where
  "keyed key t \<longleftrightarrow> distinct (map fst t) \<and> (\<forall>(k, v) \<in> set t. key v = k)"

lemma map_of_sweep [table_simps]: "map_of (sweep f t) k = map_option f (map_of t k)"
  by (induction t) (auto simp: sweep_def)

lemma fst_sweep [simp]: "map fst (sweep f t) = map fst t"
  by (induction t) (auto simp: sweep_def)

lemma snd_sweep [simp]: "map snd (sweep f t) = map f (map snd t)"
  by (induction t) (auto simp: sweep_def)

lemma sweep_id [simp]: "(\<And>v. v \<in> snd ` set t \<Longrightarrow> f v = v) \<Longrightarrow> sweep f t = t"
  by (induction t) (auto simp: sweep_def)

lemma map_of_update [table_simps]: "map_of (AList.update k v t) k' = (if k' = k then Some v else map_of t k')"
  by (simp add: update_conv')

lemma map_of_delete [table_simps]: "map_of (AList.delete k t) k' = (if k' = k then None else map_of t k')"
  by (simp add: delete_conv')

lemma keyed_iff:
  "keyed key t \<longleftrightarrow> distinct (map fst t) \<and> (\<forall>k v. map_of t k = Some v \<longrightarrow> key v = k)"
  by (auto simp: keyed_def dest: map_of_SomeD)

lemma keyed_Nil [simp]: "keyed key []"
  by (simp add: keyed_def)

lemma keyed_update [intro]: "keyed key t \<Longrightarrow> key v = k \<Longrightarrow> keyed key (AList.update k v t)"
  by (auto simp: keyed_iff distinct_update table_simps split: if_splits)

lemma keyed_delete [intro]: "keyed key t \<Longrightarrow> keyed key (AList.delete k t)"
  by (auto simp: keyed_iff distinct_delete table_simps split: if_splits)

lemma keyed_sweep [intro]: "keyed key t \<Longrightarrow> (\<And>v. key (f v) = key v) \<Longrightarrow> keyed key (sweep f t)"
  by (auto simp: keyed_iff table_simps)

lemma keyed_map_of: "keyed key t \<Longrightarrow> map_of t k = Some v \<Longrightarrow> key v = k"
  by (auto simp: keyed_def dest!: map_of_SomeD)

lemma keyed_in_set:
  "keyed key t \<Longrightarrow> v \<in> snd ` set t \<longleftrightarrow> map_of t (key v) = Some v"
  by (force simp: keyed_def image_iff dest: map_of_SomeD)

lemma table_values: "distinct (map fst t) \<Longrightarrow> v \<in> set (map snd t) \<longleftrightarrow> (\<exists>k. map_of t k = Some v)"
  by (force simp: image_iff dest: map_of_SomeD)

end
