(* ===== verification/Messages.thy ===== *)
theory Messages
  imports Certos_Prelude
begin

text \<open>
  The protobuf messages and enums that travel between the planes (\<open>proto/certosc/*.proto\<close>),
  with the fields, widths and enum numbers of the \<open>.proto\<close> files, the default instances the
  generated accessors return for unset fields, and the status values of a gRPC call.
\<close>

section \<open>Resources\<close>

record resource_spec =
  cpu_cores :: u32
  ram_mb :: u64
  gpu_count :: u32
  disk_mb :: u64

definition default_resource_spec :: resource_spec where
  "default_resource_spec = \<lparr>cpu_cores = 0, ram_mb = 0, gpu_count = 0, disk_mb = 0\<rparr>"

text \<open>The three amounts the schedulers compare, read in \<open>nat\<close>.\<close>

type_synonym amounts = "nat \<times> nat \<times> nat" \<comment> \<open>CPU cores, RAM in MB, GPUs\<close>

definition amounts_of :: "resource_spec \<Rightarrow> amounts" where
  "amounts_of r = (unat (cpu_cores r), unat (ram_mb r), unat (gpu_count r))"

fun plus_amounts :: "amounts \<Rightarrow> amounts \<Rightarrow> amounts" where
  "plus_amounts (a, b, c) (x, y, z) = (a + x, b + y, c + z)"

fun minus_amounts :: "amounts \<Rightarrow> amounts \<Rightarrow> amounts" where
  "minus_amounts (a, b, c) (x, y, z) = (a - x, b - y, c - z)"

fun le_amounts :: "amounts \<Rightarrow> amounts \<Rightarrow> bool" where
  "le_amounts (a, b, c) (x, y, z) \<longleftrightarrow> a \<le> x \<and> b \<le> y \<and> c \<le> z"

lemma plus_amounts_assoc: "plus_amounts (plus_amounts a b) c = plus_amounts a (plus_amounts b c)"
  by (cases a; cases b; cases c) simp

lemma plus_amounts_zero [simp]: "plus_amounts a (0, 0, 0) = a"
  by (cases a) simp

lemma le_amounts_plus [simp]: "le_amounts b (plus_amounts a b)"
  by (cases a; cases b) simp

lemma le_amounts_trans: "le_amounts a b \<Longrightarrow> le_amounts b c \<Longrightarrow> le_amounts a c"
  by (cases a; cases b; cases c) simp

section \<open>Jobs\<close>

datatype job_status =
    JOB_STATUS_UNSPECIFIED | JOB_STATUS_SUBMITTED | JOB_STATUS_QUEUED | JOB_STATUS_ASSIGNED
  | JOB_STATUS_RUNNING | JOB_STATUS_COMPLETED | JOB_STATUS_FAILED | JOB_STATUS_CANCELLED
  | JOB_STATUS_PREEMPTED

primrec job_status_number :: "job_status \<Rightarrow> nat" where
  "job_status_number JOB_STATUS_UNSPECIFIED = 0"
| "job_status_number JOB_STATUS_SUBMITTED = 1"
| "job_status_number JOB_STATUS_QUEUED = 2"
| "job_status_number JOB_STATUS_ASSIGNED = 3"
| "job_status_number JOB_STATUS_RUNNING = 4"
| "job_status_number JOB_STATUS_COMPLETED = 5"
| "job_status_number JOB_STATUS_FAILED = 6"
| "job_status_number JOB_STATUS_CANCELLED = 7"
| "job_status_number JOB_STATUS_PREEMPTED = 8"

lemma job_status_number_inj: "job_status_number a = job_status_number b \<longleftrightarrow> a = b"
  by (cases a; cases b) simp_all

text \<open>The numeric order of the enum, which a C++ comparison of two statuses would use.\<close>

instantiation job_status :: linorder
begin

definition less_eq_job_status :: "job_status \<Rightarrow> job_status \<Rightarrow> bool" where
  "a \<le> b \<longleftrightarrow> job_status_number a \<le> job_status_number b"

definition less_job_status :: "job_status \<Rightarrow> job_status \<Rightarrow> bool" where
  "a < b \<longleftrightarrow> job_status_number a < job_status_number b"

instance
  by standard (auto simp: less_eq_job_status_def less_job_status_def job_status_number_inj)

end

record job_spec =
  spec_name :: string
  spec_command :: string
  spec_args :: "string list"
  spec_env_vars :: "(string \<times> string) list"
  spec_working_dir :: string
  spec_resources :: resource_spec
  spec_time_limit_seconds :: u32
  spec_priority :: i32
  spec_preemptable :: bool
  spec_stdin_data :: string
  spec_archive_path :: string
  spec_is_interactive :: bool
  spec_container_image :: string

definition default_job_spec :: job_spec where
  "default_job_spec =
     \<lparr>spec_name = '''', spec_command = '''', spec_args = [], spec_env_vars = [],
      spec_working_dir = '''', spec_resources = default_resource_spec,
      spec_time_limit_seconds = 0, spec_priority = 0, spec_preemptable = False,
      spec_stdin_data = '''', spec_archive_path = '''', spec_is_interactive = False,
      spec_container_image = ''''\<rparr>"

record job_info =
  ji_job_id :: string
  ji_user_id :: string
  ji_username :: string
  ji_spec :: job_spec
  ji_status :: job_status
  ji_assigned_node_id :: string
  ji_assigned_node_hostname :: string
  ji_exit_code :: i32
  ji_error_message :: string
  ji_submitted_at :: unix_time
  ji_started_at :: unix_time
  ji_completed_at :: unix_time
  ji_effective_priority :: i32
  ji_allocated_resources :: resource_spec

definition default_job_info :: job_info where
  "default_job_info =
     \<lparr>ji_job_id = '''', ji_user_id = '''', ji_username = '''', ji_spec = default_job_spec,
      ji_status = JOB_STATUS_UNSPECIFIED, ji_assigned_node_id = '''',
      ji_assigned_node_hostname = '''', ji_exit_code = 0, ji_error_message = '''',
      ji_submitted_at = 0, ji_started_at = 0, ji_completed_at = 0,
      ji_effective_priority = 0, ji_allocated_resources = default_resource_spec\<rparr>"

section \<open>Public job requests\<close>

datatype job_request_status = JOB_REQUEST_PENDING | JOB_REQUEST_APPROVED | JOB_REQUEST_REJECTED

primrec job_request_status_number :: "job_request_status \<Rightarrow> int" where
  "job_request_status_number JOB_REQUEST_PENDING = 0"
| "job_request_status_number JOB_REQUEST_APPROVED = 1"
| "job_request_status_number JOB_REQUEST_REJECTED = 2"

record job_request =
  jr_request_id :: string
  jr_applicant_name :: string
  jr_applicant_email :: string
  jr_project_goal :: string
  jr_requested_spec :: job_spec
  jr_status :: job_request_status
  jr_reviewer_id :: string
  jr_review_comment :: string
  jr_submitted_at :: unix_time
  jr_reviewed_at :: unix_time

definition default_job_request :: job_request where
  "default_job_request =
     \<lparr>jr_request_id = '''', jr_applicant_name = '''', jr_applicant_email = '''',
      jr_project_goal = '''', jr_requested_spec = default_job_spec,
      jr_status = JOB_REQUEST_PENDING, jr_reviewer_id = '''', jr_review_comment = '''',
      jr_submitted_at = 0, jr_reviewed_at = 0\<rparr>"

section \<open>Nodes\<close>

datatype node_status =
    NODE_STATUS_UNSPECIFIED | NODE_STATUS_ONLINE | NODE_STATUS_OFFLINE | NODE_STATUS_DRAINING
  | NODE_STATUS_MAINTENANCE

record node_info =
  ni_node_id :: string
  ni_hostname :: string
  ni_ip_address :: string
  ni_port :: u32
  ni_status :: node_status
  ni_total_resources :: resource_spec
  ni_available_resources :: resource_spec
  ni_used_resources :: resource_spec
  ni_registered_at :: unix_time
  ni_last_heartbeat :: unix_time
  ni_os_info :: string
  ni_running_jobs :: u32
  ni_running_job_ids :: "string list"

definition default_node_info :: node_info where
  "default_node_info =
     \<lparr>ni_node_id = '''', ni_hostname = '''', ni_ip_address = '''', ni_port = 0,
      ni_status = NODE_STATUS_UNSPECIFIED, ni_total_resources = default_resource_spec,
      ni_available_resources = default_resource_spec, ni_used_resources = default_resource_spec,
      ni_registered_at = 0, ni_last_heartbeat = 0, ni_os_info = '''', ni_running_jobs = 0,
      ni_running_job_ids = []\<rparr>"

section \<open>Users\<close>

datatype user_role = USER_ROLE_UNSPECIFIED | USER_ROLE_USER | USER_ROLE_ADMIN | USER_ROLE_NODE

record user_info =
  ui_user_id :: string
  ui_username :: string
  ui_role :: user_role
  ui_quota :: resource_spec
  ui_fair_share_score :: real
  ui_created_at :: unix_time

definition default_user_info :: user_info where
  "default_user_info =
     \<lparr>ui_user_id = '''', ui_username = '''', ui_role = USER_ROLE_UNSPECIFIED,
      ui_quota = default_resource_spec, ui_fair_share_score = 0, ui_created_at = 0\<rparr>"

record auth_token =
  at_access_token :: string
  at_token_type :: string
  at_expires_at :: unix_time
  at_user :: user_info

definition default_auth_token :: auth_token where
  "default_auth_token =
     \<lparr>at_access_token = '''', at_token_type = '''', at_expires_at = 0,
      at_user = default_user_info\<rparr>"

section \<open>Common responses and gRPC status\<close>

record status_response =
  sr_success :: bool
  sr_message :: string
  sr_error_code :: string

definition default_status_response :: status_response where
  "default_status_response = \<lparr>sr_success = False, sr_message = '''', sr_error_code = ''''\<rparr>"

datatype status_code =
    OK | NOT_FOUND | ALREADY_EXISTS | PERMISSION_DENIED | INTERNAL | UNAUTHENTICATED
  | UNIMPLEMENTED | UNAVAILABLE

record grpc_status =
  status_code :: status_code
  error_message :: string

definition Status_OK :: grpc_status where
  "Status_OK = \<lparr>status_code = OK, error_message = ''''\<rparr>"

definition Status_error :: "status_code \<Rightarrow> string \<Rightarrow> grpc_status" where
  "Status_error c msg = \<lparr>status_code = c, error_message = msg\<rparr>"

definition status_ok :: "grpc_status \<Rightarrow> bool" where
  "status_ok s \<longleftrightarrow> status_code s = OK"

lemma status_ok_simps [simp]:
  "status_ok Status_OK" "status_ok (Status_error c m) \<longleftrightarrow> c = OK"
  "error_message (Status_error c m) = m" "status_code (Status_error c m) = c"
  by (simp_all add: status_ok_def Status_OK_def Status_error_def)

section \<open>Clock and constants of \<open>common/types.h\<close>\<close>

text \<open>\<open>Clock\<close> counts nanoseconds; \<open>duration_cast\<close> truncates towards zero.\<close>

definition now_unix :: "int \<Rightarrow> unix_time" where
  "now_unix clock_ns = sgn clock_ns * (\<bar>clock_ns\<bar> div 1000000000)"

definition now_unix_ms :: "int \<Rightarrow> int" where
  "now_unix_ms clock_ns = sgn clock_ns * (\<bar>clock_ns\<bar> div 1000000)"

lemma now_unix_from_ms: "0 \<le> t \<Longrightarrow> now_unix t = now_unix_ms t div 1000"
  by (cases "t = 0") (simp_all add: now_unix_def now_unix_ms_def zdiv_zmult2_eq [symmetric])

definition MASTER_GRPC_PORT :: "u16" where
  "MASTER_GRPC_PORT = 50051"

definition GATEWAY_HTTP_PORT :: "u16" where
  "GATEWAY_HTTP_PORT = 8080"

definition GATEWAY_WS_PORT :: "u16" where
  "GATEWAY_WS_PORT = 8081"

definition HEARTBEAT_INTERVAL_SEC :: "u32" where
  "HEARTBEAT_INTERVAL_SEC = 5"

definition HEARTBEAT_TIMEOUT_SEC :: "u32" where
  "HEARTBEAT_TIMEOUT_SEC = 15"

definition METRICS_INTERVAL_SEC :: "u32" where
  "METRICS_INTERVAL_SEC = 5"

definition SCHEDULER_INTERVAL_MS :: "u32" where
  "SCHEDULER_INTERVAL_MS = 1000"

definition MAX_JOBS_PER_USER :: "u32" where
  "MAX_JOBS_PER_USER = 100"

definition DEFAULT_TIME_LIMIT_SEC :: "u32" where
  "DEFAULT_TIME_LIMIT_SEC = 3600"

definition JWT_EXPIRY_SEC :: "u32" where
  "JWT_EXPIRY_SEC = 3600"

definition FAIR_SHARE_DECAY_HALFLIFE_HOURS :: "real" where
  "FAIR_SHARE_DECAY_HALFLIFE_HOURS = 24"

definition BACKFILL_WINDOW_SEC :: "u32" where
  "BACKFILL_WINDOW_SEC = 3600"

definition MAX_BACKFILL_JOBS :: "u32" where
  "MAX_BACKFILL_JOBS = 50"

definition DEFAULT_DB_PATH :: "string" where
  "DEFAULT_DB_PATH = ''certosc.db''"

definition DEFAULT_LOG_DIR :: "string" where
  "DEFAULT_LOG_DIR = ''/var/log/certosc''"

definition JWT_SECRET :: "string" where
  "JWT_SECRET = ''certosc-dev-secret-change-in-production''"

end
