(* ===== verification/Resource_Manager.thy ===== *)
theory Resource_Manager
  imports Messages
begin

text \<open>
  \<open>ResourceManager\<close> (\<open>master/src/resource_manager.cpp\<close>): per node, the total and the
  allocated resources, kept as unsigned words whose subtraction wraps.  The abstract ledger at
  the end keeps the same books in \<open>nat\<close>; the operations refine it as long as no node is
  over-allocated, which every operation but a shrinking \<open>set_node_capacity\<close> preserves.
\<close>

record node_capacity =
  cap_total :: resource_spec
  cap_allocated :: resource_spec

definition default_node_capacity :: node_capacity where
  "default_node_capacity =
     \<lparr>cap_total = default_resource_spec, cap_allocated = default_resource_spec\<rparr>"

type_synonym capacities = "node_capacity table"

definition set_node_capacity :: "capacities \<Rightarrow> string \<Rightarrow> resource_spec \<Rightarrow> capacities" where
  "set_node_capacity m node_id new_total =
     (let cap = (case map_of m node_id of Some c \<Rightarrow> c | None \<Rightarrow> default_node_capacity)
      in AList.update node_id (cap\<lparr>cap_total := new_total\<rparr>) m)"

text \<open>The unsigned differences \<open>avail_cpu\<close>, \<open>avail_ram\<close>, \<open>avail_gpu\<close>.\<close>

definition avail_cpu :: "node_capacity \<Rightarrow> u32" where
  "avail_cpu cap = cpu_cores (cap_total cap) - cpu_cores (cap_allocated cap)"

definition avail_ram :: "node_capacity \<Rightarrow> u64" where
  "avail_ram cap = ram_mb (cap_total cap) - ram_mb (cap_allocated cap)"

definition avail_gpu :: "node_capacity \<Rightarrow> u32" where
  "avail_gpu cap = gpu_count (cap_total cap) - gpu_count (cap_allocated cap)"

text \<open>The additions of \<open>allocate\<close> and the guarded subtractions of \<open>deallocate\<close>.\<close>

definition book :: "node_capacity \<Rightarrow> resource_spec \<Rightarrow> node_capacity" where
  "book cap req = cap\<lparr>cap_allocated := cap_allocated cap
     \<lparr>cpu_cores := cpu_cores (cap_allocated cap) + cpu_cores req,
      ram_mb := ram_mb (cap_allocated cap) + ram_mb req,
      gpu_count := gpu_count (cap_allocated cap) + gpu_count req\<rparr>\<rparr>"

definition unbook :: "node_capacity \<Rightarrow> resource_spec \<Rightarrow> node_capacity" where
  "unbook cap req =
     (let al = cap_allocated cap;
          new_cpu = (if cpu_cores req < cpu_cores al then cpu_cores al - cpu_cores req else 0);
          new_ram = (if ram_mb req < ram_mb al then ram_mb al - ram_mb req else 0);
          new_gpu = (if gpu_count req < gpu_count al then gpu_count al - gpu_count req else 0)
      in cap\<lparr>cap_allocated := al\<lparr>cpu_cores := new_cpu, ram_mb := new_ram, gpu_count := new_gpu\<rparr>\<rparr>)"

definition allocate :: "capacities \<Rightarrow> string \<Rightarrow> resource_spec \<Rightarrow> bool \<times> capacities" where
  "allocate m node_id req =
     (case map_of m node_id of
        None \<Rightarrow> (False, m)
      | Some cap \<Rightarrow>
          if cpu_cores req \<le> avail_cpu cap \<and> ram_mb req \<le> avail_ram cap
             \<and> gpu_count req \<le> avail_gpu cap
          then (True, AList.update node_id (book cap req) m)
          else (False, m))"

definition deallocate :: "capacities \<Rightarrow> string \<Rightarrow> resource_spec \<Rightarrow> capacities" where
  "deallocate m node_id req =
     (case map_of m node_id of
        None \<Rightarrow> m
      | Some cap \<Rightarrow> AList.update node_id (unbook cap req) m)"

definition get_available :: "capacities \<Rightarrow> string \<Rightarrow> resource_spec" where
  "get_available m node_id =
     (case map_of m node_id of
        None \<Rightarrow> default_resource_spec
      | Some cap \<Rightarrow> default_resource_spec
          \<lparr>cpu_cores := cpu_cores (cap_total cap) - cpu_cores (cap_allocated cap),
           ram_mb := ram_mb (cap_total cap) - ram_mb (cap_allocated cap),
           gpu_count := gpu_count (cap_total cap) - gpu_count (cap_allocated cap)\<rparr>)"

definition can_accommodate :: "capacities \<Rightarrow> string \<Rightarrow> resource_spec \<Rightarrow> bool" where
  "can_accommodate m node_id req =
     (case map_of m node_id of
        None \<Rightarrow> False
      | Some cap \<Rightarrow>
          cpu_cores req \<le> avail_cpu cap \<and> ram_mb req \<le> avail_ram cap
          \<and> gpu_count req \<le> avail_gpu cap)"

definition has_room :: "node_capacity \<Rightarrow> resource_spec \<Rightarrow> bool" where
  "has_room cap req \<longleftrightarrow>
     cpu_cores req \<le> avail_cpu cap \<and> ram_mb req \<le> avail_ram cap \<and> gpu_count req \<le> avail_gpu cap"

lemmas avail_defs = avail_cpu_def avail_ram_def avail_gpu_def

section \<open>The invariant: nothing is over-allocated\<close>

definition within_total :: "node_capacity \<Rightarrow> bool" where
  "within_total cap \<longleftrightarrow>
     cpu_cores (cap_allocated cap) \<le> cpu_cores (cap_total cap)
     \<and> ram_mb (cap_allocated cap) \<le> ram_mb (cap_total cap)
     \<and> gpu_count (cap_allocated cap) \<le> gpu_count (cap_total cap)"

definition ledger_ok :: "capacities \<Rightarrow> bool" where
  "ledger_ok m \<longleftrightarrow> (\<forall>node_id cap. map_of m node_id = Some cap \<longrightarrow> within_total cap)"

lemma ledger_ok_update:
  "ledger_ok m \<Longrightarrow> within_total cap \<Longrightarrow> ledger_ok (AList.update node_id cap m)"
  by (simp add: ledger_ok_def table_simps)

lemma ledger_okD: "ledger_ok m \<Longrightarrow> map_of m node_id = Some cap \<Longrightarrow> within_total cap"
  by (simp add: ledger_ok_def)

lemma ledger_ok_Nil: "ledger_ok []"
  by (simp add: ledger_ok_def)

lemma within_total_book: "within_total cap \<Longrightarrow> has_room cap req \<Longrightarrow> within_total (book cap req)"
  by (simp add: book_def has_room_def avail_defs within_total_def word_take_room)

lemma within_total_unbook: "within_total cap \<Longrightarrow> within_total (unbook cap req)"
  by (simp add: unbook_def Let_def within_total_def word_clamped_sub(2) split del: if_split)

lemma unbook_book:
  assumes "within_total cap" "has_room cap req"
  shows "unbook (book cap req) req = cap"
proof -
  have t: "cpu_cores (cap_allocated cap) \<le> cpu_cores (cap_total cap)"
    "ram_mb (cap_allocated cap) \<le> ram_mb (cap_total cap)"
    "gpu_count (cap_allocated cap) \<le> gpu_count (cap_total cap)"
    using assms(1) by (simp_all add: within_total_def)
  have r: "cpu_cores req \<le> cpu_cores (cap_total cap) - cpu_cores (cap_allocated cap)"
    "ram_mb req \<le> ram_mb (cap_total cap) - ram_mb (cap_allocated cap)"
    "gpu_count req \<le> gpu_count (cap_total cap) - gpu_count (cap_allocated cap)"
    using assms(2) by (simp_all add: has_room_def avail_defs)
  show ?thesis
    by (simp add: unbook_def book_def Let_def give_back_taken [OF t(1) r(1)]
        give_back_taken [OF t(2) r(2)] give_back_taken [OF t(3) r(3)]
        cong: if_cong split del: if_split)
qed

lemma allocate_ledger_ok: "ledger_ok m \<Longrightarrow> ledger_ok (snd (allocate m node_id req))"
  by (auto simp: allocate_def simp flip: has_room_def split: option.split
      intro!: ledger_ok_update within_total_book intro: ledger_okD)

lemma deallocate_ledger_ok: "ledger_ok m \<Longrightarrow> ledger_ok (deallocate m node_id req)"
  by (auto simp: deallocate_def split: option.split
      intro!: ledger_ok_update within_total_unbook intro: ledger_okD)

lemma set_node_capacity_ledger_ok:
  assumes "ledger_ok m"
    and "\<And>cap. map_of m node_id = Some cap \<Longrightarrow> within_total (cap\<lparr>cap_total := new_total\<rparr>)"
  shows "ledger_ok (set_node_capacity m node_id new_total)"
  using assms by (auto simp: set_node_capacity_def default_node_capacity_def Let_def
      default_resource_spec_def within_total_def split: option.split intro!: ledger_ok_update)

section \<open>The ledger in natural numbers, and the refinement\<close>

type_synonym books = "string \<rightharpoonup> amounts \<times> amounts" \<comment> \<open>total and used\<close>

definition books_of :: "capacities \<Rightarrow> books" where
  "books_of m = (\<lambda>node_id. map_option
     (\<lambda>cap. (amounts_of (cap_total cap), amounts_of (cap_allocated cap))) (map_of m node_id))"

definition spec_allocate :: "books \<Rightarrow> string \<Rightarrow> amounts \<Rightarrow> bool \<times> books" where
  "spec_allocate b node_id r =
     (case b node_id of
        None \<Rightarrow> (False, b)
      | Some (t, u) \<Rightarrow> if le_amounts (plus_amounts u r) t
                       then (True, b(node_id \<mapsto> (t, plus_amounts u r))) else (False, b))"

definition spec_deallocate :: "books \<Rightarrow> string \<Rightarrow> amounts \<Rightarrow> books" where
  "spec_deallocate b node_id r =
     (case b node_id of
        None \<Rightarrow> b
      | Some (t, u) \<Rightarrow> b(node_id \<mapsto> (t, minus_amounts u r)))"

lemma books_of_update:
  "books_of (AList.update node_id cap m) =
     (books_of m)(node_id \<mapsto> (amounts_of (cap_total cap), amounts_of (cap_allocated cap)))"
  by (rule ext) (simp add: books_of_def table_simps)

lemma room_iff:
  "within_total cap \<Longrightarrow> has_room cap req \<longleftrightarrow>
     le_amounts (plus_amounts (amounts_of (cap_allocated cap)) (amounts_of req))
       (amounts_of (cap_total cap))"
  by (simp add: has_room_def avail_defs within_total_def amounts_of_def word_room_iff)

lemma books_of_book:
  assumes "within_total cap" "has_room cap req"
  shows "amounts_of (cap_total (book cap req)) = amounts_of (cap_total cap)"
    and "amounts_of (cap_allocated (book cap req)) =
      plus_amounts (amounts_of (cap_allocated cap)) (amounts_of req)"
  using assms by (simp_all add: has_room_def avail_defs within_total_def amounts_of_def book_def
      word_take_room(1) [of _ "cpu_cores (cap_total cap)"]
      word_take_room(1) [of _ "ram_mb (cap_total cap)"]
      word_take_room(1) [of _ "gpu_count (cap_total cap)"])

lemma books_of_unbook:
  "amounts_of (cap_total (unbook cap req)) = amounts_of (cap_total cap)"
  "amounts_of (cap_allocated (unbook cap req)) =
     minus_amounts (amounts_of (cap_allocated cap)) (amounts_of req)"
  by (simp_all add: amounts_of_def unbook_def Let_def word_clamped_sub(1) split del: if_split)

lemma allocate_cases:
  obtains (absent) "map_of m node_id = None" "allocate m node_id req = (False, m)"
  | (full) cap where "map_of m node_id = Some cap" "\<not> has_room cap req"
      "allocate m node_id req = (False, m)"
  | (granted) cap where "map_of m node_id = Some cap" "has_room cap req"
      "allocate m node_id req = (True, AList.update node_id (book cap req) m)"
  by (cases "map_of m node_id"; cases "\<exists>cap. map_of m node_id = Some cap \<and> has_room cap req")
     (auto simp: allocate_def simp flip: has_room_def)

lemma allocate_refines_spec:
  assumes "ledger_ok m"
  shows "(fst (allocate m node_id req), books_of (snd (allocate m node_id req)))
      = spec_allocate (books_of m) node_id (amounts_of req)"
proof (cases rule: allocate_cases [of m node_id req])
  case absent
  then show ?thesis by (simp add: spec_allocate_def books_of_def)
next
  case (full cap)
  moreover have "within_total cap" using assms full(1) by (rule ledger_okD)
  ultimately show ?thesis
    by (simp add: spec_allocate_def room_iff) (simp add: books_of_def)
next
  case (granted cap)
  moreover have "within_total cap" using assms granted(1) by (rule ledger_okD)
  ultimately show ?thesis
    by (simp add: spec_allocate_def room_iff books_of_update books_of_book)
       (simp add: books_of_def)
qed

lemma deallocate_refines_spec:
  "books_of (deallocate m node_id req) = spec_deallocate (books_of m) node_id (amounts_of req)"
  by (simp add: deallocate_def spec_deallocate_def books_of_update books_of_unbook
      books_of_def [of m] split: option.split)

section \<open>Properties\<close>

lemma can_accommodate_allocate: "can_accommodate m node_id req = fst (allocate m node_id req)"
  by (auto simp: can_accommodate_def allocate_def split: option.split)

lemma allocate_deallocate:
  assumes "ledger_ok m" "fst (allocate m node_id req)"
  shows "map_of (deallocate (snd (allocate m node_id req)) node_id req) = map_of m"
proof (cases rule: allocate_cases [of m node_id req])
  case (granted cap)
  moreover have "within_total cap" using assms(1) granted(1) by (rule ledger_okD)
  ultimately show ?thesis
    by (auto simp: fun_eq_iff deallocate_def table_simps unbook_book)
qed (use assms in auto)

text \<open>A node of four cores, a job of three, and the same node after a shrink to two cores.\<close>

definition four_cores :: resource_spec where
  "four_cores = \<lparr>cpu_cores = 4, ram_mb = 8192, gpu_count = 1, disk_mb = 0\<rparr>"

definition three_core_job :: resource_spec where
  "three_core_job = \<lparr>cpu_cores = 3, ram_mb = 1024, gpu_count = 0, disk_mb = 0\<rparr>"

definition example_capacities :: capacities where
  "example_capacities = set_node_capacity [] ''node-1'' four_cores"

lemmas example_capacity_defs =
  example_capacities_def four_cores_def three_core_job_def set_node_capacity_def
  default_node_capacity_def default_resource_spec_def

lemma example_capacities_ok: "ledger_ok example_capacities"
  unfolding example_capacities_def
  by (rule set_node_capacity_ledger_ok) (simp_all add: ledger_ok_Nil)

lemma example_allocate: "fst (allocate example_capacities ''node-1'' three_core_job)"
  by (simp add: allocate_def example_capacity_defs avail_defs)

text \<open>
  C22: On a ledger where no node is over-allocated, \<open>allocate\<close> and \<open>deallocate\<close> on wrapping
  words do exactly what the ledger in natural numbers does (a request is granted iff used plus
  requested stays within the total, and a return subtracts down to zero), and no node becomes
  over-allocated.
\<close>

theorem capacity_ledger_refines:
  assumes "ledger_ok m"
  shows "(fst (allocate m node_id req), books_of (snd (allocate m node_id req)))
      = spec_allocate (books_of m) node_id (amounts_of req) \<and>
    books_of (deallocate m node_id req)
      = spec_deallocate (books_of m) node_id (amounts_of req) \<and>
    ledger_ok (snd (allocate m node_id req)) \<and>
    ledger_ok (deallocate m node_id req)"
  by (intro conjI allocate_refines_spec [OF assms] deallocate_refines_spec
      allocate_ledger_ok [OF assms] deallocate_ledger_ok [OF assms])

theorem capacity_ledger_refines_witness:
  "ledger_ok (snd (allocate example_capacities ''node-1'' three_core_job))
   \<and> books_of (deallocate example_capacities ''node-1'' three_core_job)
      = spec_deallocate (books_of example_capacities) ''node-1'' (amounts_of three_core_job)"
  using capacity_ledger_refines [OF example_capacities_ok, of "''node-1''" three_core_job] by blast

text \<open>
  Returning exactly what a successful \<open>allocate\<close> took restores every node's entry, and
  \<open>can_accommodate\<close> tells in advance whether \<open>allocate\<close> will succeed.
\<close>

theorem allocate_deallocate_roundtrip:
  assumes "ledger_ok m" "can_accommodate m node_id req"
  shows "fst (allocate m node_id req)
    \<and> map_of (deallocate (snd (allocate m node_id req)) node_id req) = map_of m"
  using assms allocate_deallocate by (simp add: can_accommodate_allocate)

theorem allocate_deallocate_roundtrip_witness:
  "map_of (deallocate (snd (allocate example_capacities ''node-1'' three_core_job)) ''node-1''
     three_core_job) = map_of example_capacities"
  using allocate_deallocate_roundtrip [OF example_capacities_ok, of "''node-1''" three_core_job]
    example_allocate by (simp add: can_accommodate_allocate)

text \<open>
  Shrinking a node's capacity below what is allocated makes the unsigned difference wrap:
  with three of four cores allocated and the capacity then set to two cores, a request for one
  hundred cores is granted.
\<close>

theorem shrunk_capacity_wraps:
  "let m = snd (allocate example_capacities ''node-1'' three_core_job);
       m' = set_node_capacity m ''node-1'' (four_cores\<lparr>cpu_cores := 2\<rparr>)
   in cpu_cores (get_available m' ''node-1'') = 2 ^ 32 - 1
      \<and> fst (allocate m' ''node-1'' (three_core_job\<lparr>cpu_cores := 100\<rparr>))"
  by (simp add: allocate_def book_def get_available_def example_capacity_defs avail_defs)

end
