(* ===== verification/State_Store.thy ===== *)
theory State_Store
  imports Messages "HOL-Library.List_Lexorder" "HOL-Library.Char_ord"
begin

text \<open>
  \<open>StateStore\<close> (\<open>master/src/state_store.cpp\<close>).  SQLite is not under \<open>src/\<close>: its calls are
  the parameter \<open>sqlite_api\<close>, and what the sources rely on is the locale \<open>sqlite_engine\<close>:
  the documented effect of the exact statements the class issues.  The statements with bound
  parameters are safe for every string; \<open>set_kv\<close> and \<open>get_kv\<close> build their text by
  concatenation, so their laws are limited to strings without a quote (and without NUL, at
  which \<open>c_str()\<close> ends).  The class then provides the contract \<open>kv_store\<close> its clients use.
\<close>

section \<open>The SQLite calls\<close>

datatype sql_value = SText string | SInt int

text \<open>
  \<open>sqlite_exec\<close>: \<open>sqlite3_exec\<close>, with whether it returned \<open>SQLITE_OK\<close>.  \<open>sqlite_write\<close>:
  prepare, bind, one step and finalize; \<open>None\<close> when prepare fails, otherwise whether the step
  returned \<open>SQLITE_DONE\<close>.  \<open>sqlite_rows\<close>: prepare and step while \<open>SQLITE_ROW\<close>, with the text
  columns of each row; \<open>None\<close> when prepare fails.
\<close>

record 'db sqlite_api =
  sqlite_exec :: "'db \<Rightarrow> string \<Rightarrow> bool \<times> 'db"
  sqlite_write :: "'db \<Rightarrow> string \<Rightarrow> sql_value list \<Rightarrow> (bool \<times> 'db) option"
  sqlite_rows :: "'db \<Rightarrow> string \<Rightarrow> string list list option"

section \<open>The operations\<close>

definition schema_sql :: string where
  "schema_sql = ''
        CREATE TABLE IF NOT EXISTS kv_store (
            key TEXT PRIMARY KEY,
            value TEXT NOT NULL
        );
        CREATE TABLE IF NOT EXISTS jobs (
            job_id TEXT PRIMARY KEY,
            user_id TEXT,
            status INTEGER,
            data TEXT -- JSON representation
        );
        CREATE TABLE IF NOT EXISTS job_requests (
            request_id TEXT PRIMARY KEY,
            applicant_email TEXT,
            status INTEGER,
            data TEXT -- JSON representation
        );
    ''"

definition insert_request_sql :: string where
  "insert_request_sql = ''INSERT INTO job_requests (request_id, applicant_email, status, data) VALUES (?, ?, ?, ?);''"

definition update_request_sql :: string where
  "update_request_sql = ''UPDATE job_requests SET status = ?, data = ? WHERE request_id = ?;''"

definition list_requests_sql :: string where
  "list_requests_sql = ''SELECT request_id, data FROM job_requests ORDER BY request_id DESC;''"

definition quote :: string where
  "quote = [CHR 0x27]"

definition set_kv_sql :: "string \<Rightarrow> string \<Rightarrow> string" where
  "set_kv_sql key val =
     ''INSERT OR REPLACE INTO kv_store (key, value) VALUES ('' @ quote @ key @ quote @ '', ''
       @ quote @ val @ quote @ '');''"

definition get_kv_sql :: "string \<Rightarrow> string" where
  "get_kv_sql key = ''SELECT value FROM kv_store WHERE key = '' @ quote @ key @ quote @ '';''"

definition execute :: "'db sqlite_api \<Rightarrow> 'db \<Rightarrow> string \<Rightarrow> bool \<times> 'db" where
  "execute api db sql = sqlite_exec api db (c_str sql)"

text \<open>\<open>opened\<close> is the result of \<open>sqlite3_open\<close>: the handle, or \<open>None\<close> on an error.\<close>

definition init_store :: "'db sqlite_api \<Rightarrow> 'db option \<Rightarrow> bool \<times> 'db option" where
  "init_store api opened =
     (case opened of
        None \<Rightarrow> (False, None)
      | Some db \<Rightarrow> (let (ok, db') = execute api db schema_sql in (ok, Some db')))"

definition set_kv :: "'db sqlite_api \<Rightarrow> 'db \<Rightarrow> string \<Rightarrow> string \<Rightarrow> bool \<times> 'db" where
  "set_kv api db key val = execute api db (set_kv_sql key val)"

text \<open>Only the first row is read.\<close>

definition get_kv :: "'db sqlite_api \<Rightarrow> 'db \<Rightarrow> string \<Rightarrow> string option" where
  "get_kv api db key =
     (case sqlite_rows api db (c_str (get_kv_sql key)) of
        Some ((v # _) # _) \<Rightarrow> Some v
      | _ \<Rightarrow> None)"

definition add_job_request ::
  "'db sqlite_api \<Rightarrow> 'db \<Rightarrow> string \<Rightarrow> string \<Rightarrow> int \<Rightarrow> string \<Rightarrow> bool \<times> 'db" where
  "add_job_request api db req_id email status data =
     (case sqlite_write api db insert_request_sql
             [SText (c_str req_id), SText (c_str email), SInt status, SText (c_str data)] of
        None \<Rightarrow> (False, db)
      | Some r \<Rightarrow> r)"

definition update_request_status ::
  "'db sqlite_api \<Rightarrow> 'db \<Rightarrow> string \<Rightarrow> int \<Rightarrow> string \<Rightarrow> bool \<times> 'db" where
  "update_request_status api db req_id status data =
     (case sqlite_write api db update_request_sql
             [SInt status, SText (c_str data), SText (c_str req_id)] of
        None \<Rightarrow> (False, db)
      | Some r \<Rightarrow> r)"

definition list_requests :: "'db sqlite_api \<Rightarrow> 'db \<Rightarrow> (string \<times> string) list" where
  "list_requests api db =
     (case sqlite_rows api db list_requests_sql of
        None \<Rightarrow> []
      | Some rows \<Rightarrow> map (\<lambda>row. (row ! 0, row ! 1)) rows)"

section \<open>The text of the key-value statements\<close>

definition plain :: "string \<Rightarrow> bool" where
  "plain s \<longleftrightarrow> CHR 0x27 \<notin> set s \<and> CHR 0x00 \<notin> set s"

lemma plain_append [simp]: "plain (a @ b) \<longleftrightarrow> plain a \<and> plain b"
  by (auto simp: plain_def)

lemma c_str_statements [simp]:
  "plain k \<Longrightarrow> plain v \<Longrightarrow> c_str (set_kv_sql k v) = set_kv_sql k v"
  "plain k \<Longrightarrow> c_str (get_kv_sql k) = get_kv_sql k"
  by (auto simp: plain_def set_kv_sql_def get_kv_sql_def quote_def intro!: c_str_id)

lemma quoted_split:
  "CHR 0x27 \<notin> set a \<Longrightarrow> CHR 0x27 \<notin> set b \<Longrightarrow>
     a @ CHR 0x27 # x = b @ CHR 0x27 # y \<longleftrightarrow> a = b \<and> x = y"
  by (induction a arbitrary: b; case_tac b) auto

lemma set_kv_sql_plain_inj:
  assumes "plain k" "plain v" "plain k'" "plain v'"
  shows "set_kv_sql k v = set_kv_sql k' v' \<longleftrightarrow> k = k' \<and> v = v'"
  using assms by (auto simp: set_kv_sql_def quote_def plain_def quoted_split)

section \<open>What the sources rely on in SQLite\<close>

type_synonym request_row = "string \<times> int \<times> string" \<comment> \<open>applicant_email, status, data\<close>

text \<open>
  \<open>kv\<close> and \<open>reqs\<close> read the two tables.  A statement either succeeds with its documented
  effect or fails and leaves the tables as they were; the primary key of \<open>job_requests\<close> refuses
  a second row; an update of no row succeeds; \<open>ORDER BY request_id DESC\<close> orders bytewise.
  A \<open>SELECT\<close> on \<open>kv_store\<close> is taken to be prepared and stepped without an error: where it fails, \<open>get_kv\<close>
  answers like for an unknown key (its branch for a failed \<open>prepare\<close> is in the definition), and what is
  proved from \<open>select_kv\<close> does not speak of it.  Writes may fail, and so may the other queries.
\<close>

locale sqlite_engine =
  fixes api :: "'db sqlite_api"
    and kv :: "'db \<Rightarrow> string \<Rightarrow> string option"
    and reqs :: "'db \<Rightarrow> string \<Rightarrow> request_row option"
  assumes insert_kv: "plain k \<Longrightarrow> plain v \<Longrightarrow> sqlite_exec api db (set_kv_sql k v) = (ok, db') \<Longrightarrow>
      kv db' = (if ok then (kv db)(k \<mapsto> v) else kv db) \<and> reqs db' = reqs db"
    and select_kv: "plain k \<Longrightarrow> sqlite_rows api db (get_kv_sql k)
      = Some (case kv db k of None \<Rightarrow> [] | Some v \<Rightarrow> [[v]])"
    and insert_request: "sqlite_write api db insert_request_sql
        [SText i, SText e, SInt s, SText d] = Some (ok, db') \<Longrightarrow>
      kv db' = kv db \<and> reqs db' = (if ok then (reqs db)(i \<mapsto> (e, s, d)) else reqs db)
      \<and> (ok \<longrightarrow> reqs db i = None)"
    and update_request: "sqlite_write api db update_request_sql
        [SInt s, SText d, SText i] = Some (ok, db') \<Longrightarrow>
      kv db' = kv db
      \<and> reqs db' = (if ok then (case reqs db i of None \<Rightarrow> reqs db
                      | Some (e, _, _) \<Rightarrow> (reqs db)(i \<mapsto> (e, s, d))) else reqs db)"
    and select_requests: "sqlite_rows api db list_requests_sql = Some rows \<Longrightarrow>
      (\<exists>ids. rows = map (\<lambda>i. [i, snd (snd (the (reqs db i)))]) ids
         \<and> set ids = dom (reqs db) \<and> sorted_wrt (>) ids)"
begin

lemma get_kv_eq: "plain k \<Longrightarrow> get_kv api db k = kv db k"
  by (simp add: get_kv_def select_kv split: option.split)

lemma set_kv_effect:
  assumes "plain k" "plain v" "set_kv api db k v = (ok, db')"
  shows "kv db' = (if ok then (kv db)(k \<mapsto> v) else kv db)" and "reqs db' = reqs db"
  using insert_kv [of k v db ok db'] assms by (simp_all add: set_kv_def execute_def)

lemma add_job_request_effect:
  assumes "add_job_request api db i e s d = (ok, db')"
  shows "kv db' = kv db"
    and "reqs db' = (if ok then (reqs db)(c_str i \<mapsto> (c_str e, s, c_str d)) else reqs db)"
    and "ok \<Longrightarrow> reqs db (c_str i) = None"
  using insert_request [of db "c_str i" "c_str e" s "c_str d" ok db'] assms
  by (auto simp: add_job_request_def split: option.splits if_splits)

lemma update_request_status_effect:
  assumes "update_request_status api db i s d = (ok, db')"
  shows "kv db' = kv db"
    and "reqs db' = (if ok then (case reqs db (c_str i) of None \<Rightarrow> reqs db
           | Some (e, _, _) \<Rightarrow> (reqs db)(c_str i \<mapsto> (e, s, c_str d))) else reqs db)"
  using update_request [of db s "c_str d" "c_str i" ok db'] assms
  by (auto simp: update_request_status_def split: option.splits if_splits prod.splits)

lemma list_requests_rows:
  obtains ids where
    "list_requests api db = map (\<lambda>i. (i, snd (snd (the (reqs db i))))) ids"
    "set ids \<subseteq> dom (reqs db)" "sorted_wrt (>) ids"
    "sqlite_rows api db list_requests_sql \<noteq> None \<Longrightarrow> set ids = dom (reqs db)"
proof (cases "sqlite_rows api db list_requests_sql")
  case None
  show ?thesis by (rule that [of "[]"]) (simp_all add: None list_requests_def)
next
  case (Some rows)
  obtain ids where "rows = map (\<lambda>i. [i, snd (snd (the (reqs db i)))]) ids"
    "set ids = dom (reqs db)" "sorted_wrt (>) ids"
    using select_requests [OF Some] by blast
  then show ?thesis by (intro that [of ids]) (simp_all add: Some list_requests_def)
qed

lemma list_requests_sound:
  assumes "(i, d) \<in> set (list_requests api db)"
  shows "\<exists>e s. reqs db i = Some (e, s, d)"
proof -
  obtain ids where ids: "list_requests api db = map (\<lambda>i. (i, snd (snd (the (reqs db i))))) ids"
    "set ids \<subseteq> dom (reqs db)"
    by (rule list_requests_rows)
  with assms have "i \<in> dom (reqs db)" "d = snd (snd (the (reqs db i)))" by auto
  then show ?thesis by auto
qed

lemma list_requests_complete:
  assumes "sqlite_rows api db list_requests_sql \<noteq> None" "reqs db i = Some (e, s, d)"
  shows "(i, d) \<in> set (list_requests api db)"
proof -
  obtain ids where ids: "list_requests api db = map (\<lambda>i. (i, snd (snd (the (reqs db i))))) ids"
    "sqlite_rows api db list_requests_sql \<noteq> None \<Longrightarrow> set ids = dom (reqs db)"
    by (rule list_requests_rows [of db]) blast
  then have "i \<in> set ids" using assms by auto
  then show ?thesis using ids(1) assms(2) by (auto simp: image_iff intro!: bexI [of _ i])
qed

lemma list_requests_sorted: "sorted_wrt (>) (map fst (list_requests api db))"
proof -
  obtain ids where "list_requests api db = map (\<lambda>i. (i, snd (snd (the (reqs db i))))) ids"
    "sorted_wrt (>) ids"
    by (rule list_requests_rows)
  then show ?thesis by (simp add: sorted_wrt_map)
qed

lemma list_requests_distinct: "distinct (map fst (list_requests api db))"
proof -
  have "sorted_wrt (<) (rev (map fst (list_requests api db)))"
    using list_requests_sorted [of db] by (simp add: sorted_wrt_rev)
  then show ?thesis by (simp add: strict_sorted_iff)
qed

lemma list_requests_map_of:
  assumes "sqlite_rows api db list_requests_sql \<noteq> None"
  shows "map_of (list_requests api db) i = map_option (\<lambda>(e, s, d). d) (reqs db i)"
proof (cases "reqs db i")
  case None
  have "i \<notin> fst ` set (list_requests api db)"
    using None list_requests_sound [of i _ db] by (auto simp: image_iff)
  then have "map_of (list_requests api db) i = None" by (simp add: map_of_eq_None_iff)
  then show ?thesis by (simp add: None)
next
  case (Some r)
  obtain e s d where r: "r = (e, s, d)" by (cases r) auto
  then show ?thesis
    using Some list_requests_complete [OF assms] list_requests_distinct by simp
qed

end

section \<open>The contract of the key-value part\<close>

text \<open>
  What the clients of the key-value store use: a write that reports success is read back under
  its key and changes no other key; a write that fails changes nothing.  \<open>ok_key\<close> delimits the
  strings for which this is promised.
\<close>

locale kv_store =
  fixes get :: "'db \<Rightarrow> string \<Rightarrow> string option"
    and put :: "'db \<Rightarrow> string \<Rightarrow> string \<Rightarrow> bool \<times> 'db"
    and ok_str :: "string \<Rightarrow> bool"
  assumes get_set: "ok_str k \<Longrightarrow> ok_str v \<Longrightarrow> ok_str k' \<Longrightarrow> put db k v = (ok, db') \<Longrightarrow>
      get db' k' = (if ok \<and> k' = k then Some v else get db k')"
begin

lemma get_after_success:
  "ok_str k \<Longrightarrow> ok_str v \<Longrightarrow> fst (put db k v) \<Longrightarrow> get (snd (put db k v)) k = Some v"
  using get_set [of k v k db] by (cases "put db k v") simp

lemma get_after_other:
  "ok_str k \<Longrightarrow> ok_str v \<Longrightarrow> ok_str k' \<Longrightarrow> k' \<noteq> k \<Longrightarrow> get (snd (put db k v)) k' = get db k'"
  using get_set [of k v k' db] by (cases "put db k v") simp

lemma get_after_any:
  "ok_str k \<Longrightarrow> ok_str v \<Longrightarrow> ok_str k' \<Longrightarrow>
     get (snd (put db k v)) k' = (if fst (put db k v) \<and> k' = k then Some v else get db k')"
  using get_set [of k v k' db] by (cases "put db k v") simp

end

sublocale sqlite_engine \<subseteq> store: kv_store "get_kv api" "set_kv api" plain
  by unfold_locales (simp add: get_kv_eq set_kv_effect)

section \<open>A reference engine\<close>

text \<open>
  An engine that keeps the two tables and understands exactly the statements of this class; it
  shows that the laws of \<open>sqlite_engine\<close> can hold together and instantiates the witnesses.
\<close>

record tables =
  t_kv :: "(string \<times> string) list"
  t_reqs :: "(string \<times> request_row) list"

definition no_tables :: tables where
  "no_tables = \<lparr>t_kv = [], t_reqs = []\<rparr>"

definition strip_prefix :: "string \<Rightarrow> string \<Rightarrow> string option" where
  "strip_prefix p s = (if take (length p) s = p then Some (drop (length p) s) else None)"

definition until_quote :: "string \<Rightarrow> string \<times> string" where
  "until_quote s = (takeWhile (\<lambda>c. c \<noteq> CHR 0x27) s, dropWhile (\<lambda>c. c \<noteq> CHR 0x27) s)"

definition parse_set_kv :: "string \<Rightarrow> (string \<times> string) option" where
  "parse_set_kv sql =
     (case strip_prefix (''INSERT OR REPLACE INTO kv_store (key, value) VALUES ('' @ quote) sql of
        None \<Rightarrow> None
      | Some r \<Rightarrow> (let (k, r1) = until_quote r in
          case strip_prefix (quote @ '', '' @ quote) r1 of
            None \<Rightarrow> None
          | Some r2 \<Rightarrow> (let (v, r3) = until_quote r2 in
              if r3 = quote @ '');'' then Some (k, v) else None)))"

definition parse_get_kv :: "string \<Rightarrow> string option" where
  "parse_get_kv sql =
     (case strip_prefix (''SELECT value FROM kv_store WHERE key = '' @ quote) sql of
        None \<Rightarrow> None
      | Some r \<Rightarrow> (let (k, r1) = until_quote r in if r1 = quote @ '';'' then Some k else None))"

definition ref_exec :: "tables \<Rightarrow> string \<Rightarrow> bool \<times> tables" where
  "ref_exec t sql =
     (if sql = schema_sql then (True, t)
      else case parse_set_kv sql of
             None \<Rightarrow> (False, t)
           | Some (k, v) \<Rightarrow> (True, t\<lparr>t_kv := AList.update k v (t_kv t)\<rparr>))"

fun ref_write :: "tables \<Rightarrow> string \<Rightarrow> sql_value list \<Rightarrow> (bool \<times> tables) option" where
  "ref_write t sql [SText i, SText e, SInt s, SText d] =
     (if sql \<noteq> insert_request_sql then None
      else case map_of (t_reqs t) i of
             Some _ \<Rightarrow> Some (False, t)
           | None \<Rightarrow> Some (True, t\<lparr>t_reqs := AList.update i (e, s, d) (t_reqs t)\<rparr>))"
| "ref_write t sql [SInt s, SText d, SText i] =
     (if sql \<noteq> update_request_sql then None
      else Some (True, case map_of (t_reqs t) i of
                         None \<Rightarrow> t
                       | Some (e, _, _) \<Rightarrow> t\<lparr>t_reqs := AList.update i (e, s, d) (t_reqs t)\<rparr>))"
| "ref_write t sql _ = None"

definition ref_rows :: "tables \<Rightarrow> string \<Rightarrow> string list list option" where
  "ref_rows t sql =
     (if sql = list_requests_sql
      then Some (map (\<lambda>i. [i, snd (snd (the (map_of (t_reqs t) i)))])
                  (rev (sort (remdups (map fst (t_reqs t))))))
      else case parse_get_kv sql of
             None \<Rightarrow> None
           | Some k \<Rightarrow> Some (case map_of (t_kv t) k of None \<Rightarrow> [] | Some v \<Rightarrow> [[v]]))"

definition ref_api :: "tables sqlite_api" where
  "ref_api = \<lparr>sqlite_exec = ref_exec, sqlite_write = ref_write, sqlite_rows = ref_rows\<rparr>"

lemma strip_prefix_append [simp]: "strip_prefix p (p @ s) = Some s"
  by (simp add: strip_prefix_def)

lemma until_quote_append: "CHR 0x27 \<notin> set a \<Longrightarrow> until_quote (a @ CHR 0x27 # r) = (a, CHR 0x27 # r)"
  by (auto simp: until_quote_def takeWhile_append dropWhile_append takeWhile_eq_all_conv
      dropWhile_eq_Nil_conv)

lemma parse_set_kv_sql:
  assumes "plain k" "plain v"
  shows "parse_set_kv (set_kv_sql k v) = Some (k, v)"
proof -
  have "set_kv_sql k v = (''INSERT OR REPLACE INTO kv_store (key, value) VALUES ('' @ quote)
      @ k @ CHR 0x27 # ('', '' @ quote) @ v @ CHR 0x27 # '');''"
    by (simp add: set_kv_sql_def quote_def)
  moreover have "strip_prefix (quote @ '', '' @ quote) (CHR 0x27 # ('', '' @ quote) @ r) = Some r" for r
    by (simp add: strip_prefix_def quote_def)
  ultimately show ?thesis
    using assms by (simp add: parse_set_kv_def plain_def until_quote_append del: append_assoc append.simps)
       (simp add: quote_def)
qed

lemma parse_get_kv_sql:
  assumes "plain k"
  shows "parse_get_kv (get_kv_sql k) = Some k"
proof -
  have "get_kv_sql k = (''SELECT value FROM kv_store WHERE key = '' @ quote) @ k @ CHR 0x27 # '';''"
    by (simp add: get_kv_sql_def quote_def)
  then show ?thesis
    using assms by (simp add: parse_get_kv_def plain_def until_quote_append del: append_assoc append.simps)
       (simp add: quote_def)
qed

lemma statement_texts [simp]:
  "set_kv_sql k v \<noteq> schema_sql" "get_kv_sql k \<noteq> list_requests_sql"
  "insert_request_sql \<noteq> update_request_sql" "update_request_sql \<noteq> insert_request_sql"
  by (simp_all add: set_kv_sql_def schema_sql_def get_kv_sql_def list_requests_sql_def
      insert_request_sql_def update_request_sql_def)

interpretation ref: sqlite_engine ref_api "\<lambda>t. map_of (t_kv t)" "\<lambda>t. map_of (t_reqs t)"
proof unfold_locales
  fix rows t
  assume "sqlite_rows ref_api t list_requests_sql = Some rows"
  then show "\<exists>ids. rows = map (\<lambda>i. [i, snd (snd (the (map_of (t_reqs t) i)))]) ids
      \<and> set ids = dom (map_of (t_reqs t)) \<and> sorted_wrt (>) ids"
    by (intro exI [of _ "rev (sort (remdups (map fst (t_reqs t))))"])
       (auto simp: ref_api_def ref_rows_def dom_map_of_conv_image_fst sorted_wrt_rev
         strict_sorted_iff)
qed (auto simp: ref_api_def ref_exec_def ref_rows_def parse_set_kv_sql parse_get_kv_sql update_conv'
      split: if_splits option.splits)

section \<open>Properties\<close>

text \<open>
  The key-value store over any engine that keeps the SQL laws: for strings without a quote or
  NUL, a write that reports success is what a read of its key returns next, replacing the old
  value, a read of any other key returns what it did before, and a failed write changes nothing.
\<close>

theorem kv_roundtrip:
  assumes "sqlite_engine api kv reqs" "plain k" "plain v" "plain k'"
    and "set_kv api db k v = (ok, db')"
  shows "get_kv api db' k' = (if ok \<and> k' = k then Some v else get_kv api db k')"
  using sqlite_engine.get_kv_eq [OF assms(1,4)] sqlite_engine.set_kv_effect(1) [OF assms(1-3,5)]
  by simp

theorem kv_roundtrip_witness:
  "get_kv ref_api (snd (set_kv ref_api no_tables ''users'' ''admin,'')) ''users'' = Some ''admin,''"
proof -
  have "fst (set_kv ref_api no_tables ''users'' ''admin,'')"
    by (simp add: set_kv_def execute_def plain_def ref_api_def ref_exec_def parse_set_kv_sql)
  then show ?thesis
    using kv_roundtrip [OF ref.sqlite_engine_axioms _ _ _ prod.collapse [symmetric],
        of "''users''" "''admin,''" "''users''" no_tables]
    by (simp add: plain_def)
qed

text \<open>
  The statements of the key-value store are built by concatenation, and the text determines
  key and value only for quote-free strings: then different pairs give different statements, but
  a value with a quote makes the statement of another pair.
\<close>

theorem kv_statement_ambiguity:
  "plain k \<and> plain v \<and> plain k' \<and> plain v' \<and> (k, v) \<noteq> (k', v') \<longrightarrow> set_kv_sql k v \<noteq> set_kv_sql k' v'"
  "set_kv_sql (''a'' @ quote @ '', '' @ quote @ ''b'') ''c'' = set_kv_sql ''a'' (''b'' @ quote @ '', '' @ quote @ ''c'')"
  by (simp add: set_kv_sql_plain_inj) (simp add: set_kv_sql_def quote_def)

theorem kv_statement_ambiguity_witness:
  "set_kv_sql ''a'' ''b'' \<noteq> set_kv_sql ''a'' ''c''"
  using kv_statement_ambiguity(1) [of "''a''" "''b''" "''a''" "''c''"] by (simp add: plain_def)

text \<open>
  C35: Job requests survive a round trip: a request that was added is listed with its data, one
  that is updated is listed with the new data, an id can be added only once, the listing has no
  request twice and is in descending order of ids.  NUL-free strings are kept as they are.
\<close>

theorem request_roundtrip:
  assumes "sqlite_engine api kv reqs" "CHR 0x00 \<notin> set i" "CHR 0x00 \<notin> set d" "CHR 0x00 \<notin> set d'"
    and "add_job_request api db i e s d = (True, db1)"
    and "update_request_status api db1 i s' d' = (True, db2)"
    and "sqlite_rows api db1 list_requests_sql \<noteq> None" "sqlite_rows api db2 list_requests_sql \<noteq> None"
  shows "(i, d) \<in> set (list_requests api db1) \<and>
    (i, d') \<in> set (list_requests api db2) \<and>
    map_of (list_requests api db2) i = Some d' \<and>
    \<not> fst (add_job_request api db1 i e'' s'' d'') \<and>
    sorted_wrt (>) (map fst (list_requests api db2))"
proof (rule conj_goals(4); (intro impI)?)
  have id: "c_str i = i" "c_str d = d" "c_str d' = d'" using assms(2-4) by (simp_all add: c_str_id)
  note add = sqlite_engine.add_job_request_effect [OF assms(1,5), unfolded id]
  note upd = sqlite_engine.update_request_status_effect [OF assms(1,6), unfolded id]
  have reqs: "reqs db1 i = Some (c_str e, s, d)" "reqs db2 i = Some (c_str e, s', d')"
    using add(2) upd(2) by simp_all
  show "(i, d) \<in> set (list_requests api db1)"
    by (rule sqlite_engine.list_requests_complete [OF assms(1,7) reqs(1)])
  show listed: "(i, d') \<in> set (list_requests api db2)"
    by (rule sqlite_engine.list_requests_complete [OF assms(1,8) reqs(2)])
  show order: "sorted_wrt (>) (map fst (list_requests api db2))"
    by (rule sqlite_engine.list_requests_sorted [OF assms(1)])
  show "map_of (list_requests api db2) i = Some d'"
    using listed sqlite_engine.list_requests_distinct [OF assms(1)] by simp
  show "\<not> fst (add_job_request api db1 i e'' s'' d'')"
  proof
    assume "fst (add_job_request api db1 i e'' s'' d'')"
    then obtain db' where "add_job_request api db1 i e'' s'' d'' = (True, db')"
      by (cases "add_job_request api db1 i e'' s'' d''") simp
    then show False
      using sqlite_engine.add_job_request_effect(3) [OF assms(1)] reqs(1) id(1) by fastforce
  qed
qed

theorem request_roundtrip_witness:
  "map_of (list_requests ref_api (snd (update_request_status ref_api
     (snd (add_job_request ref_api no_tables ''req-1'' ''a@b'' 0 ''{}'')) ''req-1'' 1 ''{1}''))) ''req-1''
   = Some ''{1}''"
proof -
  have c: "c_str ''req-1'' = ''req-1''" "c_str ''a@b'' = ''a@b''" "c_str ''{}'' = ''{}''" "c_str ''{1}'' = ''{1}''"
    by (simp_all add: c_str_def)
  have add: "fst (add_job_request ref_api no_tables ''req-1'' ''a@b'' 0 ''{}'')"
    by (simp add: add_job_request_def ref_api_def no_tables_def)
  have upd: "fst (update_request_status ref_api db ''req-1'' 1 ''{1}'')" for db
    by (simp add: update_request_status_def ref_api_def)
  have rows: "sqlite_rows ref_api db list_requests_sql \<noteq> None" for db
    by (simp add: ref_api_def ref_rows_def)
  show ?thesis
    by (rule request_roundtrip [where d = "''{}''", THEN conjunct2, THEN conjunct2, THEN conjunct1, OF ref.sqlite_engine_axioms])
       (use add upd rows in \<open>auto simp: prod_eq_iff\<close>)
qed

end
