(* ===== verification/Uuid.thy ===== *)
theory Uuid
  imports Certos_Prelude
begin

text \<open>
  \<open>generate_uuid\<close> (\<open>lib/common/src/uuid.cpp\<close>).  The values drawn from the two
  \<open>std::uniform_int_distribution\<close>s are arguments: \<open>draw i\<close> and \<open>draw2 i\<close> are the values
  drawn for position \<open>i\<close>; the library promises \<open>0..15\<close> and \<open>8..11\<close>.
\<close>

definition hex :: string where
  "hex = ''0123456789abcdef''"

definition uuid_char :: "(nat \<Rightarrow> nat) \<Rightarrow> (nat \<Rightarrow> nat) \<Rightarrow> nat \<Rightarrow> char" where
  "uuid_char draw draw2 i =
     (if i = 8 \<or> i = 13 \<or> i = 18 \<or> i = 23 then CHR ''-''
      else if i = 14 then CHR ''4''
      else if i = 19 then hex ! draw2 i
      else hex ! draw i)"

definition generate_uuid :: "(nat \<Rightarrow> nat) \<Rightarrow> (nat \<Rightarrow> nat) \<Rightarrow> string" where
  "generate_uuid draw draw2 = map (uuid_char draw draw2) [0..<36]"

lemma length_hex: "length hex = 16"
  by (simp add: hex_def)

lemma hex_in_range: "d \<le> 15 \<Longrightarrow> hex ! d \<in> set hex"
  by (simp add: length_hex)

lemma four_in_hex: "CHR ''4'' \<in> set hex"
  by (simp add: hex_def)

lemma hyphen_not_hex: "CHR ''-'' \<notin> set hex"
  by (simp add: hex_def)

lemma variant_chars: "8 \<le> d \<Longrightarrow> d \<le> 11 \<Longrightarrow> hex ! d \<in> set ''89ab''"
proof -
  assume "8 \<le> d" "d \<le> 11"
  then have "d = 8 \<or> d = 9 \<or> d = 10 \<or> d = 11" by arith
  then show ?thesis by (elim disjE) (simp_all add: hex_def)
qed

lemma nth_uuid: "i < 36 \<Longrightarrow> generate_uuid draw draw2 ! i = uuid_char draw draw2 i"
  by (simp add: generate_uuid_def del: upt_Suc)

text \<open>
  A generated UUID has the version 4 format: 36 characters, hyphens at exactly the
  positions 8, 13, 18 and 23, the version digit \<open>4\<close>, a variant digit among \<open>8 9 a b\<close> and
  hexadecimal digits elsewhere; so its first eight characters, which identify jobs and nodes,
  are hexadecimal digits.
\<close>

theorem uuid_v4_format:
  assumes "\<And>i. draw i \<le> 15" "\<And>i. 8 \<le> draw2 i \<and> draw2 i \<le> 11"
  shows "length (generate_uuid draw draw2) = 36"
    and "\<forall>i<36. generate_uuid draw draw2 ! i = CHR ''-'' \<longleftrightarrow> i \<in> {8, 13, 18, 23}"
    and "generate_uuid draw draw2 ! 14 = CHR ''4''"
    and "generate_uuid draw draw2 ! 19 \<in> set ''89ab''"
    and "\<forall>i<36. i \<notin> {8, 13, 18, 23} \<longrightarrow> generate_uuid draw draw2 ! i \<in> set hex"
    and "set (take 8 (generate_uuid draw draw2)) \<subseteq> set hex"
proof -
  have digit: "uuid_char draw draw2 i \<in> set hex" if "i \<notin> {8, 13, 18, 23}" for i
    using that assms(1) [of i] assms(2) [of i]
    by (auto simp: uuid_char_def four_in_hex intro!: hex_in_range)
  show "length (generate_uuid draw draw2) = 36"
    by (simp add: generate_uuid_def del: upt_Suc)
  show "\<forall>i<36. generate_uuid draw draw2 ! i = CHR ''-'' \<longleftrightarrow> i \<in> {8, 13, 18, 23}"
  proof (intro allI impI)
    fix i :: nat
    assume "i < 36"
    then show "generate_uuid draw draw2 ! i = CHR ''-'' \<longleftrightarrow> i \<in> {8, 13, 18, 23}"
      using digit [of i] hyphen_not_hex by (auto simp: nth_uuid) (auto simp: uuid_char_def)
  qed
  show "generate_uuid draw draw2 ! 14 = CHR ''4''"
    by (simp add: nth_uuid uuid_char_def)
  show "generate_uuid draw draw2 ! 19 \<in> set ''89ab''"
    using assms(2) [of 19] variant_chars [of "draw2 19"] by (simp add: nth_uuid uuid_char_def)
  show "\<forall>i<36. i \<notin> {8, 13, 18, 23} \<longrightarrow> generate_uuid draw draw2 ! i \<in> set hex"
    using digit by (simp add: nth_uuid)
  show "set (take 8 (generate_uuid draw draw2)) \<subseteq> set hex"
  proof
    fix c assume "c \<in> set (take 8 (generate_uuid draw draw2))"
    then obtain i where "i < 8" "c = generate_uuid draw draw2 ! i"
      by (auto simp: in_set_conv_nth generate_uuid_def simp del: upt_Suc)
    then show "c \<in> set hex" using digit [of i] by (simp add: nth_uuid)
  qed
qed

theorem uuid_v4_format_witness:
  "length (generate_uuid (\<lambda>_. 10) (\<lambda>_. 8)) = 36
   \<and> set (take 8 (generate_uuid (\<lambda>_. 10) (\<lambda>_. 8))) \<subseteq> set hex"
  using uuid_v4_format(1,6) [of "\<lambda>_. 10" "\<lambda>_. 8"] by simp

end
