(* ===== verification/Job_Manager.thy ===== *)
theory Job_Manager
  imports State_Store Uuid
begin

text \<open>
  \<open>JobManager\<close> (\<open>master/src/job_manager.cpp\<close>): the table of jobs behind one mutex, so each
  operation is one atomic step.  \<open>now_unix()\<close> and the UUID are arguments.  \<open>db_\<close> may be null;
  the only call on it is \<open>set_kv\<close>, an argument of the operation that makes it.
\<close>

record 'db job_manager =
  jm_jobs :: "job_info table"
  jm_db :: "'db option"

definition new_job_manager :: "'db option \<Rightarrow> 'db job_manager" where
  "new_job_manager db = \<lparr>jm_jobs = [], jm_db = db\<rparr>"

definition new_job_info :: "string \<Rightarrow> unix_time \<Rightarrow> job_spec \<Rightarrow> string \<Rightarrow> string \<Rightarrow> job_info" where
  "new_job_info job_id now spec user_id username = default_job_info
     \<lparr>ji_job_id := job_id, ji_user_id := user_id, ji_username := username, ji_spec := spec,
      ji_status := JOB_STATUS_QUEUED, ji_submitted_at := now,
      ji_effective_priority := spec_priority spec\<rparr>"

definition job_id_of_uuid :: "string \<Rightarrow> string" where
  "job_id_of_uuid uuid = ''job-'' @ take 8 uuid"

definition submit_job ::
  "('db \<Rightarrow> string \<Rightarrow> string \<Rightarrow> bool \<times> 'db) \<Rightarrow> 'db job_manager \<Rightarrow> string \<Rightarrow> unix_time
     \<Rightarrow> job_spec \<Rightarrow> string \<Rightarrow> string \<Rightarrow> string \<times> 'db job_manager" where
  "submit_job put jm uuid now spec user_id username =
     (let job_id = job_id_of_uuid uuid;
          info = new_job_info job_id now spec user_id username;
          jobs' = AList.update job_id info (jm_jobs jm);
          db' = (case jm_db jm of
                   None \<Rightarrow> None
                 | Some db \<Rightarrow> Some (snd (put db (''job:'' @ job_id) ''QUEUED'')))
      in (job_id, \<lparr>jm_jobs = jobs', jm_db = db'\<rparr>))"

text \<open>The body of \<open>update_job_status\<close> on the entry that was found.\<close>

definition status_update :: "unix_time \<Rightarrow> job_status \<Rightarrow> string \<Rightarrow> job_info \<Rightarrow> job_info" where
  "status_update now status node_id info0 =
     (let info = info0\<lparr>ji_status := status\<rparr>
      in if status = JOB_STATUS_ASSIGNED \<or> status = JOB_STATUS_RUNNING then
           (let info = (if node_id \<noteq> '''' then info\<lparr>ji_assigned_node_id := node_id\<rparr> else info)
            in if status = JOB_STATUS_RUNNING \<and> ji_started_at info = 0
               then info\<lparr>ji_started_at := now\<rparr> else info)
         else if status = JOB_STATUS_COMPLETED \<or> status = JOB_STATUS_FAILED
                 \<or> status = JOB_STATUS_CANCELLED
         then info\<lparr>ji_completed_at := now\<rparr>
         else info)"

definition update_job_status ::
  "'db job_manager \<Rightarrow> unix_time \<Rightarrow> string \<Rightarrow> job_status \<Rightarrow> string \<Rightarrow> bool \<times> 'db job_manager" where
  "update_job_status jm now job_id status node_id =
     (case map_of (jm_jobs jm) job_id of
        None \<Rightarrow> (False, jm)
      | Some info \<Rightarrow>
          (True, jm\<lparr>jm_jobs :=
             AList.update job_id (status_update now status node_id info) (jm_jobs jm)\<rparr>))"

definition get_job :: "'db job_manager \<Rightarrow> string \<Rightarrow> job_info option" where
  "get_job jm job_id = map_of (jm_jobs jm) job_id"

definition list_jobs :: "'db job_manager \<Rightarrow> job_status \<Rightarrow> job_info list" where
  "list_jobs jm filter_status =
     filter (\<lambda>info. filter_status = JOB_STATUS_UNSPECIFIED \<or> ji_status info = filter_status)
       (map snd (jm_jobs jm))"

definition get_pending_jobs :: "'db job_manager \<Rightarrow> job_info list" where
  "get_pending_jobs jm = list_jobs jm JOB_STATUS_QUEUED"

definition fail_on_node :: "unix_time \<Rightarrow> string \<Rightarrow> job_info \<Rightarrow> job_info" where
  "fail_on_node now node_id info =
     (if (ji_status info = JOB_STATUS_ASSIGNED \<or> ji_status info = JOB_STATUS_RUNNING)
         \<and> ji_assigned_node_id info = node_id
      then info\<lparr>ji_status := JOB_STATUS_FAILED, ji_error_message := ''Node went offline'',
                ji_completed_at := now\<rparr>
      else info)"

definition fail_jobs_on_node :: "'db job_manager \<Rightarrow> unix_time \<Rightarrow> string \<Rightarrow> 'db job_manager" where
  "fail_jobs_on_node jm now node_id =
     jm\<lparr>jm_jobs := sweep (fail_on_node now node_id) (jm_jobs jm)\<rparr>"

text \<open>Both branches of \<open>cancel_job\<close> (queued, or assigned and running) write the same fields.\<close>

definition cancel_job :: "'db job_manager \<Rightarrow> unix_time \<Rightarrow> string \<Rightarrow> bool \<times> 'db job_manager" where
  "cancel_job jm now job_id =
     (case map_of (jm_jobs jm) job_id of
        None \<Rightarrow> (False, jm)
      | Some info \<Rightarrow>
          let current = ji_status info
          in if current = JOB_STATUS_COMPLETED \<or> current = JOB_STATUS_FAILED
                \<or> current = JOB_STATUS_CANCELLED
             then (False, jm)
             else if current = JOB_STATUS_QUEUED
             then (True, jm\<lparr>jm_jobs := AList.update job_id
                    (info\<lparr>ji_status := JOB_STATUS_CANCELLED, ji_completed_at := now\<rparr>) (jm_jobs jm)\<rparr>)
             else (True, jm\<lparr>jm_jobs := AList.update job_id
                    (info\<lparr>ji_status := JOB_STATUS_CANCELLED, ji_completed_at := now\<rparr>) (jm_jobs jm)\<rparr>))"

definition get_jobs_to_cancel_for_node :: "'db job_manager \<Rightarrow> unix_time \<Rightarrow> string \<Rightarrow> string list" where
  "get_jobs_to_cancel_for_node jm now node_id =
     map ji_job_id (filter (\<lambda>info. ji_status info = JOB_STATUS_CANCELLED
         \<and> ji_assigned_node_id info = node_id \<and> now - ji_completed_at info < 60)
       (map snd (jm_jobs jm)))"

section \<open>Well-formedness\<close>

abbreviation jobs_keyed :: "'db job_manager \<Rightarrow> bool" where
  "jobs_keyed jm \<equiv> keyed ji_job_id (jm_jobs jm)"

named_theorems job_simps \<open>look-ups after the operations of the job manager\<close>

lemma status_update_id [simp]: "ji_job_id (status_update now st n info) = ji_job_id info"
  by (simp add: status_update_def Let_def)

lemma status_update_status [simp]: "ji_status (status_update now st n info) = st"
  by (simp add: status_update_def Let_def)

lemma status_update_node [simp]:
  "ji_assigned_node_id (status_update now st n info) =
     (if (st = JOB_STATUS_ASSIGNED \<or> st = JOB_STATUS_RUNNING) \<and> n \<noteq> '''' then n
      else ji_assigned_node_id info)"
  by (simp add: status_update_def Let_def)

lemma status_update_frame [simp]:
  "ji_user_id (status_update now st n info) = ji_user_id info"
  "ji_username (status_update now st n info) = ji_username info"
  "ji_spec (status_update now st n info) = ji_spec info"
  "ji_submitted_at (status_update now st n info) = ji_submitted_at info"
  by (simp_all add: status_update_def Let_def)

lemma fail_on_node_id [simp]: "ji_job_id (fail_on_node now n info) = ji_job_id info"
  by (simp add: fail_on_node_def)

lemma new_job_info_simps [simp]:
  "ji_job_id (new_job_info i now spec u un) = i"
  "ji_user_id (new_job_info i now spec u un) = u"
  "ji_username (new_job_info i now spec u un) = un"
  "ji_spec (new_job_info i now spec u un) = spec"
  "ji_status (new_job_info i now spec u un) = JOB_STATUS_QUEUED"
  "ji_submitted_at (new_job_info i now spec u un) = now"
  "ji_assigned_node_id (new_job_info i now spec u un) = ''''"
  "ji_started_at (new_job_info i now spec u un) = 0"
  "ji_completed_at (new_job_info i now spec u un) = 0"
  by (simp_all add: new_job_info_def default_job_info_def)

lemma submit_job_keyed: "jobs_keyed jm \<Longrightarrow> jobs_keyed (snd (submit_job put jm uuid now spec u un))"
  by (auto simp: submit_job_def Let_def)

lemma update_job_status_keyed: "jobs_keyed jm \<Longrightarrow> jobs_keyed (snd (update_job_status jm now i st n))"
  by (auto simp: update_job_status_def keyed_map_of split: option.split)

lemma fail_jobs_on_node_keyed: "jobs_keyed jm \<Longrightarrow> jobs_keyed (fail_jobs_on_node jm now n)"
  by (auto simp: fail_jobs_on_node_def)

lemma cancel_job_keyed: "jobs_keyed jm \<Longrightarrow> jobs_keyed (snd (cancel_job jm now i))"
  by (auto simp: cancel_job_def Let_def keyed_map_of split: option.split)

lemmas job_ops_keyed [intro] =
  submit_job_keyed update_job_status_keyed fail_jobs_on_node_keyed cancel_job_keyed

section \<open>Look-ups after each operation\<close>

lemma get_job_submit [job_simps]:
  "get_job (snd (submit_job put jm uuid now spec u un)) k =
     (if k = job_id_of_uuid uuid then Some (new_job_info k now spec u un) else get_job jm k)"
  by (simp add: get_job_def submit_job_def Let_def table_simps)

lemma fst_submit_job [job_simps]: "fst (submit_job put jm uuid now spec u un) = job_id_of_uuid uuid"
  by (simp add: submit_job_def Let_def)

lemma get_job_update [job_simps]:
  "get_job (snd (update_job_status jm now i st n)) k =
     (if k = i then map_option (status_update now st n) (get_job jm k) else get_job jm k)"
  by (simp add: get_job_def update_job_status_def table_simps split: option.split)

lemma fst_update_job_status [job_simps]:
  "fst (update_job_status jm now i st n) \<longleftrightarrow> get_job jm i \<noteq> None"
  by (simp add: get_job_def update_job_status_def split: option.split)

lemma get_job_fail [job_simps]:
  "get_job (fail_jobs_on_node jm now n) k = map_option (fail_on_node now n) (get_job jm k)"
  by (simp add: get_job_def fail_jobs_on_node_def table_simps)

definition terminal :: "job_status \<Rightarrow> bool" where
  "terminal st \<longleftrightarrow> st = JOB_STATUS_COMPLETED \<or> st = JOB_STATUS_FAILED \<or> st = JOB_STATUS_CANCELLED"

lemma cancel_job_cases:
  obtains (unknown) "get_job jm i = None" "cancel_job jm now i = (False, jm)"
  | (done_already) info where "get_job jm i = Some info" "terminal (ji_status info)"
      "cancel_job jm now i = (False, jm)"
  | (cancelled) info where "get_job jm i = Some info" "\<not> terminal (ji_status info)"
      "cancel_job jm now i = (True, jm\<lparr>jm_jobs := AList.update i
         (info\<lparr>ji_status := JOB_STATUS_CANCELLED, ji_completed_at := now\<rparr>) (jm_jobs jm)\<rparr>)"
  by (cases "get_job jm i"; cases "\<exists>info. get_job jm i = Some info \<and> terminal (ji_status info)")
     (auto simp: get_job_def cancel_job_def terminal_def Let_def)

lemma get_job_cancel [job_simps]:
  "get_job (snd (cancel_job jm now i)) k =
     (if k = i then map_option (\<lambda>info. if terminal (ji_status info) then info
        else info\<lparr>ji_status := JOB_STATUS_CANCELLED, ji_completed_at := now\<rparr>) (get_job jm k)
      else get_job jm k)"
  by (cases rule: cancel_job_cases [of jm i now]) (auto simp: get_job_def table_simps)

lemma fst_cancel_job [job_simps]:
  "fst (cancel_job jm now i) \<longleftrightarrow> (\<exists>info. get_job jm i = Some info \<and> \<not> terminal (ji_status info))"
  by (cases rule: cancel_job_cases [of jm i now]) auto

lemma in_list_jobs:
  "jobs_keyed jm \<Longrightarrow> info \<in> set (list_jobs jm st) \<longleftrightarrow>
     get_job jm (ji_job_id info) = Some info \<and> (st = JOB_STATUS_UNSPECIFIED \<or> ji_status info = st)"
  by (auto simp: list_jobs_def get_job_def keyed_in_set [symmetric])

lemma distinct_list_jobs: "jobs_keyed jm \<Longrightarrow> distinct (map ji_job_id (list_jobs jm st))"
proof -
  assume keyed: "jobs_keyed jm"
  then have "map ji_job_id (map snd (jm_jobs jm)) = map fst (jm_jobs jm)"
    by (auto simp: keyed_def)
  with keyed have "distinct (map ji_job_id (map snd (jm_jobs jm)))"
    by (simp add: keyed_def del: map_map)
  then show ?thesis by (simp add: list_jobs_def distinct_map_filter del: map_map)
qed

lemma in_jobs_to_cancel:
  assumes "jobs_keyed jm"
  shows "k \<in> set (get_jobs_to_cancel_for_node jm t n) \<longleftrightarrow>
    (\<exists>info. get_job jm k = Some info \<and> ji_status info = JOB_STATUS_CANCELLED
       \<and> ji_assigned_node_id info = n \<and> t < ji_completed_at info + 60)"
proof -
  let ?P = "\<lambda>info. ji_status info = JOB_STATUS_CANCELLED \<and> ji_assigned_node_id info = n
    \<and> t < ji_completed_at info + 60"
  have "k \<in> set (get_jobs_to_cancel_for_node jm t n) \<longleftrightarrow>
      (\<exists>info. info \<in> snd ` set (jm_jobs jm) \<and> ji_job_id info = k \<and> ?P info)"
    by (auto simp: get_jobs_to_cancel_for_node_def)
  also have "\<dots> \<longleftrightarrow> (\<exists>info. get_job jm (ji_job_id info) = Some info \<and> ji_job_id info = k \<and> ?P info)"
    by (simp only: keyed_in_set [OF assms] get_job_def)
  also have "\<dots> \<longleftrightarrow> (\<exists>info. get_job jm k = Some info \<and> ?P info)"
    using keyed_map_of [OF assms, of k] unfolding get_job_def by blast
  finally show ?thesis .
qed

section \<open>The interface the scheduler and the agent service use\<close>

text \<open>
  The clients of the job table set statuses and read listings.  The laws: \<open>set_status\<close> reports
  whether the job is known and rewrites that entry only; a listing has exactly the stored jobs
  of the status, once each.
\<close>

locale job_store =
  fixes lookup :: "'s \<Rightarrow> string \<Rightarrow> job_info option"
    and set_status :: "'s \<Rightarrow> unix_time \<Rightarrow> string \<Rightarrow> job_status \<Rightarrow> string \<Rightarrow> bool \<times> 's"
  assumes set_known: "fst (set_status s now i st n) \<longleftrightarrow> lookup s i \<noteq> None"
    and lookup_set: "lookup (snd (set_status s now i st n)) k =
      (if k = i then map_option (status_update now st n) (lookup s k) else lookup s k)"

locale job_board = job_store lookup set_status
  for lookup :: "'s \<Rightarrow> string \<Rightarrow> job_info option"
    and set_status :: "'s \<Rightarrow> unix_time \<Rightarrow> string \<Rightarrow> job_status \<Rightarrow> string \<Rightarrow> bool \<times> 's" +
  fixes listing :: "'s \<Rightarrow> job_status \<Rightarrow> job_info list"
    and wf :: "'s \<Rightarrow> bool"
  assumes in_listing: "wf s \<Longrightarrow> info \<in> set (listing s st) \<longleftrightarrow>
      lookup s (ji_job_id info) = Some info \<and> (st = JOB_STATUS_UNSPECIFIED \<or> ji_status info = st)"
    and distinct_listing: "wf s \<Longrightarrow> distinct (map ji_job_id (listing s st))"
    and wf_set: "wf s \<Longrightarrow> wf (snd (set_status s now i st n))"

interpretation jobs: job_store get_job update_job_status
  by unfold_locales (simp_all add: job_simps)

interpretation board: job_board get_job update_job_status list_jobs jobs_keyed
  by unfold_locales (simp_all add: in_list_jobs distinct_list_jobs update_job_status_keyed)

section \<open>Properties\<close>

text \<open>A board of three jobs: queued, running on a node, and finished.\<close>

definition demo_job :: "string \<Rightarrow> job_info" where
  "demo_job i = new_job_info i 5 default_job_spec ''u'' ''u''"

definition demo_jobs :: "unit job_manager" where
  "demo_jobs = \<lparr>jm_jobs =
     [(''job-q'', demo_job ''job-q''),
      (''job-r'', status_update 7 JOB_STATUS_RUNNING ''node-1'' (demo_job ''job-r'')),
      (''job-d'', status_update 9 JOB_STATUS_COMPLETED ''node-1'' (demo_job ''job-d''))],
     jm_db = None\<rparr>"

lemma demo_simps [simp]:
  "get_job demo_jobs ''job-q'' = Some (demo_job ''job-q'')"
  "get_job demo_jobs ''job-r'' = Some (status_update 7 JOB_STATUS_RUNNING ''node-1'' (demo_job ''job-r''))"
  "get_job demo_jobs ''job-d'' = Some (status_update 9 JOB_STATUS_COMPLETED ''node-1'' (demo_job ''job-d''))"
  "get_job demo_jobs ''job-01234567'' = None"
  "ji_job_id (demo_job i) = i" "ji_status (demo_job i) = JOB_STATUS_QUEUED"
  "ji_assigned_node_id (demo_job i) = ''''"
  by (simp_all add: demo_jobs_def get_job_def demo_job_def)

lemma demo_jobs_keyed: "jobs_keyed demo_jobs"
  by (auto simp: demo_jobs_def keyed_def)

text \<open>
  Submitting stores exactly one job: under the fresh id it is returned \<open>QUEUED\<close> with the
  submitter's identity, spec and the time of submission, it is in the pending list at once, every
  other job is as before, the table stays keyed by job id, and the database, if there is one, was
  told with one \<open>set_kv\<close>.
\<close>

theorem submit_job_stores:
  assumes "jobs_keyed jm" "get_job jm (job_id_of_uuid uuid) = None"
    and submit: "submit_job put jm uuid now spec u un = (i, jm')"
  shows "get_job jm' i = Some (new_job_info i now spec u un) \<and>
    i = ''job-'' @ take 8 uuid \<and>
    set (get_pending_jobs jm') = insert (new_job_info i now spec u un) (set (get_pending_jobs jm)) \<and>
    (k \<noteq> i \<longrightarrow> get_job jm' k = get_job jm k) \<and>
    jobs_keyed jm' \<and>
    (jm_db jm' = map_option (\<lambda>db. snd (put db (''job:'' @ i) ''QUEUED'')) (jm_db jm))"
proof (rule conj_goals(5); (intro impI)?)
  have jm': "jm' = snd (submit_job put jm uuid now spec u un)" and i: "i = job_id_of_uuid uuid"
    using submit fst_submit_job [of put jm uuid now spec u un] by simp_all
  show keyed: "jobs_keyed jm'"
    unfolding jm' using assms(1) by blast
  show "i = ''job-'' @ take 8 uuid" by (simp add: i job_id_of_uuid_def)
  show "get_job jm' i = Some (new_job_info i now spec u un)" by (simp add: jm' i job_simps)
  show "get_job jm' k = get_job jm k" if "k \<noteq> i" using that by (simp add: jm' i job_simps)
  show "set (get_pending_jobs jm') = insert (new_job_info i now spec u un) (set (get_pending_jobs jm))"
    using assms(2) unfolding get_pending_jobs_def set_eq_iff
    by (auto simp: in_list_jobs assms(1) keyed) (auto simp: jm' i job_simps split: if_splits)
  show "jm_db jm' = map_option (\<lambda>db. snd (put db (''job:'' @ i) ''QUEUED'')) (jm_db jm)"
    by (simp add: jm' i submit_job_def Let_def split: option.split)
qed

theorem submit_job_stores_witness:
  "get_job (snd (submit_job (\<lambda>db k v. (True, db)) demo_jobs ''0123456789'' 10 default_job_spec ''u'' ''n''))
     ''job-01234567'' = Some (new_job_info ''job-01234567'' 10 default_job_spec ''u'' ''n'')"
  using submit_job_stores [THEN conjunct1, OF demo_jobs_keyed _ prod.collapse [symmetric],
      of "''0123456789''" "\<lambda>db k v. (True, db)" 10 default_job_spec "''u''" "''n''"]
  by (simp add: job_simps job_id_of_uuid_def)

text \<open>
  C11: Cancelling succeeds exactly for a known job that has not ended; then the job is
  \<open>CANCELLED\<close> at this time with its other fields kept, and cancelling again is refused.  A refused
  cancel changes nothing, and no other job is ever touched.
\<close>

theorem cancel_job_exact:
  "(fst (cancel_job jm now i) \<longleftrightarrow>
     (\<exists>info. get_job jm i = Some info
        \<and> ji_status info \<notin> {JOB_STATUS_COMPLETED, JOB_STATUS_FAILED, JOB_STATUS_CANCELLED})) \<and>
    (fst (cancel_job jm now i) \<longrightarrow> (get_job (snd (cancel_job jm now i)) i =
     map_option (\<lambda>info. info\<lparr>ji_status := JOB_STATUS_CANCELLED, ji_completed_at := now\<rparr>) (get_job jm i))) \<and>
    (\<not> fst (cancel_job jm now i) \<longrightarrow> snd (cancel_job jm now i) = jm) \<and>
    \<not> fst (cancel_job (snd (cancel_job jm now i)) later i) \<and>
    (k \<noteq> i \<longrightarrow> get_job (snd (cancel_job jm now i)) k = get_job jm k)"
proof (rule conj_goals(4); (intro impI)?)
  show "fst (cancel_job jm now i) \<longleftrightarrow> (\<exists>info. get_job jm i = Some info
      \<and> ji_status info \<notin> {JOB_STATUS_COMPLETED, JOB_STATUS_FAILED, JOB_STATUS_CANCELLED})"
    by (auto simp: job_simps terminal_def)
  show "get_job (snd (cancel_job jm now i)) i =
     map_option (\<lambda>info. info\<lparr>ji_status := JOB_STATUS_CANCELLED, ji_completed_at := now\<rparr>) (get_job jm i)"
    if "fst (cancel_job jm now i)"
    using that by (auto simp: job_simps)
  show "snd (cancel_job jm now i) = jm" if "\<not> fst (cancel_job jm now i)"
    using that by (cases rule: cancel_job_cases [of jm i now]) auto
  show "\<not> fst (cancel_job (snd (cancel_job jm now i)) later i)"
    by (auto simp: job_simps terminal_def split: if_splits)
  show "get_job (snd (cancel_job jm now i)) k = get_job jm k" if "k \<noteq> i"
    using that by (simp add: job_simps)
qed

theorem cancel_job_exact_witness:
  "map_option ji_status (get_job (snd (cancel_job demo_jobs 20 ''job-r'')) ''job-r'') = Some JOB_STATUS_CANCELLED
   \<and> snd (cancel_job demo_jobs 20 ''job-d'') = demo_jobs
   \<and> get_job (snd (cancel_job demo_jobs 20 ''job-r'')) ''job-q'' = get_job demo_jobs ''job-q''"
  using cancel_job_exact [THEN conjunct2, THEN conjunct1, THEN mp, of demo_jobs 20 "''job-r''"] cancel_job_exact [THEN conjunct2, THEN conjunct2, THEN conjunct1, THEN mp, of demo_jobs 20 "''job-d''"]
    cancel_job_exact [THEN conjunct2, THEN conjunct2, THEN conjunct2, THEN conjunct2, THEN mp, of "''job-q''" "''job-r''" demo_jobs 20]
  by (simp add: fst_cancel_job terminal_def)

text \<open>
  The cancellations a heartbeat of a node carries are exactly the known jobs that are
  \<open>CANCELLED\<close>, assigned to that node and ended less than 60 seconds ago, each once.  In particular
  a job that was cancelled on the node is in every answer of the next minute and in none after.
\<close>

theorem cancel_delivery_window:
  assumes "jobs_keyed jm"
  shows "k \<in> set (get_jobs_to_cancel_for_node jm t n) \<longleftrightarrow>
      (\<exists>info. get_job jm k = Some info \<and> ji_status info = JOB_STATUS_CANCELLED
         \<and> ji_assigned_node_id info = n \<and> t < ji_completed_at info + 60)"
    and "distinct (get_jobs_to_cancel_for_node jm t n)"
    and "fst (cancel_job jm now k) \<Longrightarrow> map_option ji_assigned_node_id (get_job jm k) = Some n \<Longrightarrow>
      k \<in> set (get_jobs_to_cancel_for_node (snd (cancel_job jm now k)) t n) \<longleftrightarrow> t < now + 60"
proof -
  show "k \<in> set (get_jobs_to_cancel_for_node jm t n) \<longleftrightarrow>
      (\<exists>info. get_job jm k = Some info \<and> ji_status info = JOB_STATUS_CANCELLED
         \<and> ji_assigned_node_id info = n \<and> t < ji_completed_at info + 60)"
    by (rule in_jobs_to_cancel [OF assms])
  show "distinct (get_jobs_to_cancel_for_node jm t n)"
    using distinct_list_jobs [OF assms, of JOB_STATUS_UNSPECIFIED]
    by (simp add: get_jobs_to_cancel_for_node_def list_jobs_def distinct_map_filter del: map_map)
  show "k \<in> set (get_jobs_to_cancel_for_node (snd (cancel_job jm now k)) t n) \<longleftrightarrow> t < now + 60"
    if "fst (cancel_job jm now k)" "map_option ji_assigned_node_id (get_job jm k) = Some n"
  proof -
    from that obtain info where "get_job jm k = Some info" "\<not> terminal (ji_status info)"
      "ji_assigned_node_id info = n" by (auto simp: fst_cancel_job)
    then show ?thesis by (simp add: in_jobs_to_cancel [OF cancel_job_keyed [OF assms]] get_job_cancel)
  qed
qed

theorem cancel_delivery_window_witness:
  "''job-r'' \<in> set (get_jobs_to_cancel_for_node (snd (cancel_job demo_jobs 20 ''job-r'')) 79 ''node-1'')
   \<and> ''job-r'' \<notin> set (get_jobs_to_cancel_for_node (snd (cancel_job demo_jobs 20 ''job-r'')) 80 ''node-1'')"
  using cancel_delivery_window(3) [OF demo_jobs_keyed, of 20 "''job-r''" "''node-1''" 79]
    cancel_delivery_window(3) [OF demo_jobs_keyed, of 20 "''job-r''" "''node-1''" 80]
  by (simp add: fst_cancel_job terminal_def)

text \<open>
  Failing the jobs of a node ends exactly the jobs assigned to or running on it, with the
  reason and the time, leaves every other job alone, and afterwards no job is active there.
\<close>

theorem fail_jobs_on_node_exact:
  "(get_job (fail_jobs_on_node jm now n) k = (case get_job jm k of
     None \<Rightarrow> None
   | Some info \<Rightarrow>
       Some (if ji_assigned_node_id info = n \<and> ji_status info \<in> {JOB_STATUS_ASSIGNED, JOB_STATUS_RUNNING}
             then info\<lparr>ji_status := JOB_STATUS_FAILED, ji_error_message := ''Node went offline'',
                       ji_completed_at := now\<rparr>
             else info))) \<and>
    (get_job (fail_jobs_on_node jm now n) k = Some info \<longrightarrow> ji_assigned_node_id info = n \<longrightarrow> (ji_status info \<noteq> JOB_STATUS_ASSIGNED \<and> ji_status info \<noteq> JOB_STATUS_RUNNING))"
proof (rule conj_goals(1); (intro impI)?)
  show "get_job (fail_jobs_on_node jm now n) k = (case get_job jm k of
     None \<Rightarrow> None
   | Some info \<Rightarrow>
       Some (if ji_assigned_node_id info = n \<and> ji_status info \<in> {JOB_STATUS_ASSIGNED, JOB_STATUS_RUNNING}
             then info\<lparr>ji_status := JOB_STATUS_FAILED, ji_error_message := ''Node went offline'',
                       ji_completed_at := now\<rparr>
             else info))"
    by (cases "get_job jm k") (simp_all add: get_job_fail fail_on_node_def conj_commute)
  show "ji_status info \<noteq> JOB_STATUS_ASSIGNED \<and> ji_status info \<noteq> JOB_STATUS_RUNNING"
    if after: "get_job (fail_jobs_on_node jm now n) k = Some info" "ji_assigned_node_id info = n"
  proof -
    from after(1) obtain old where "info = fail_on_node now n old" by (auto simp: get_job_fail)
    then show ?thesis
      using after(2) by (cases "ji_assigned_node_id old = n") (simp_all add: fail_on_node_def)
  qed
qed

theorem fail_jobs_on_node_exact_witness:
  "map_option ji_status (get_job (fail_jobs_on_node demo_jobs 30 ''node-1'') ''job-r'') \<noteq> Some JOB_STATUS_RUNNING"
proof -
  obtain info where "get_job (fail_jobs_on_node demo_jobs 30 ''node-1'') ''job-r'' = Some info"
      "ji_assigned_node_id info = ''node-1''"
    by (simp add: get_job_fail fail_on_node_def status_update_def Let_def)
  then show ?thesis
    using fail_jobs_on_node_exact [THEN conjunct2, THEN mp, THEN mp, of demo_jobs 30 "''node-1''" "''job-r''" info]
    by simp
qed

text \<open>
  \<open>update_job_status\<close> does not look at the current status, so cancelling is not final: a job
  that was just cancelled becomes \<open>RUNNING\<close> again when a start report arrives, keeping the time
  it was "completed", and the node's next heartbeat is not told to cancel it.
\<close>

theorem cancelled_job_resurrected:
  assumes "fst (cancel_job jm now i)" "n \<noteq> ''''" "jobs_keyed jm"
    and "jm' = snd (update_job_status (snd (cancel_job jm now i)) later i JOB_STATUS_RUNNING n)"
  shows "map_option ji_status (get_job jm' i) = Some JOB_STATUS_RUNNING \<and>
    map_option ji_completed_at (get_job jm' i) = Some now \<and>
    i \<notin> set (get_jobs_to_cancel_for_node jm' t m)"
proof (rule conj_goals(2); (intro impI)?)
  obtain info where info: "get_job jm i = Some info" "\<not> terminal (ji_status info)"
    using assms(1) by (auto simp: job_simps)
  then show status: "map_option ji_status (get_job jm' i) = Some JOB_STATUS_RUNNING"
    by (simp add: assms(4) job_simps)
  show "map_option ji_completed_at (get_job jm' i) = Some now"
    using info by (simp add: assms(4) job_simps status_update_def Let_def)
  have "jobs_keyed jm'" unfolding assms(4) using assms(3) by blast
  then show "i \<notin> set (get_jobs_to_cancel_for_node jm' t m)"
    using status by (auto simp: in_jobs_to_cancel)
qed

theorem cancelled_job_resurrected_witness:
  "map_option ji_status (get_job (snd (update_job_status (snd (cancel_job demo_jobs 20 ''job-q'')) 21
     ''job-q'' JOB_STATUS_RUNNING ''node-1'')) ''job-q'') = Some JOB_STATUS_RUNNING"
  by (rule cancelled_job_resurrected [THEN conjunct1, OF _ _ demo_jobs_keyed refl])
     (simp_all add: fst_cancel_job terminal_def)

end
