(* ===== verification/Node_Registry.thy ===== *)
theory Node_Registry
  imports Messages Uuid
begin

text \<open>
  \<open>NodeRegistry\<close> (\<open>master/src/node_registry.cpp\<close>): the table of nodes behind one mutex.
  \<open>now_unix()\<close> and the UUID are arguments.
\<close>

type_synonym node_registry = "node_info table"

definition same_host :: "node_info \<Rightarrow> node_info \<Rightarrow> bool" where
  "same_host a b \<longleftrightarrow> ni_hostname a = ni_hostname b \<and> ni_ip_address a = ni_ip_address b"

definition re_register :: "unix_time \<Rightarrow> node_info \<Rightarrow> node_info \<Rightarrow> node_info" where
  "re_register now info existing = existing
     \<lparr>ni_status := NODE_STATUS_ONLINE, ni_last_heartbeat := now,
      ni_total_resources := ni_total_resources info,
      ni_available_resources := ni_total_resources info\<rparr>"

definition new_node :: "string \<Rightarrow> unix_time \<Rightarrow> node_info \<Rightarrow> node_info" where
  "new_node node_id now info = info
     \<lparr>ni_node_id := node_id, ni_status := NODE_STATUS_ONLINE, ni_registered_at := now,
      ni_last_heartbeat := now, ni_available_resources := ni_total_resources info\<rparr>"

definition node_id_of_uuid :: "string \<Rightarrow> string" where
  "node_id_of_uuid uuid = ''node-'' @ take 8 uuid"

definition register_node ::
  "node_registry \<Rightarrow> string \<Rightarrow> unix_time \<Rightarrow> node_info \<Rightarrow> string \<times> node_registry" where
  "register_node nodes uuid now info =
     (case find (\<lambda>(k, v). same_host v info) nodes of
        Some (k, existing) \<Rightarrow> (k, AList.update k (re_register now info existing) nodes)
      | None \<Rightarrow> (let node_id = node_id_of_uuid uuid
                in (node_id, AList.update node_id (new_node node_id now info) nodes)))"

definition unregister_node :: "node_registry \<Rightarrow> string \<Rightarrow> bool \<times> node_registry" where
  "unregister_node nodes node_id =
     (if map_of nodes node_id \<noteq> None then (True, AList.delete node_id nodes) else (False, nodes))"

definition beat :: "unix_time \<Rightarrow> resource_spec \<Rightarrow> u32 \<Rightarrow> node_info \<Rightarrow> node_info" where
  "beat now available_resources running_jobs node = node
     \<lparr>ni_last_heartbeat := now, ni_status := NODE_STATUS_ONLINE,
      ni_available_resources := available_resources, ni_running_jobs := running_jobs\<rparr>"

definition update_heartbeat ::
  "node_registry \<Rightarrow> unix_time \<Rightarrow> string \<Rightarrow> resource_spec \<Rightarrow> u32 \<Rightarrow> bool \<times> node_registry" where
  "update_heartbeat nodes now node_id available_resources running_jobs =
     (case map_of nodes node_id of
        Some node \<Rightarrow>
          (True, AList.update node_id (beat now available_resources running_jobs node) nodes)
      | None \<Rightarrow> (False, nodes))"

definition get_all_nodes :: "node_registry \<Rightarrow> node_info list" where
  "get_all_nodes nodes = map snd nodes"

definition get_node :: "node_registry \<Rightarrow> string \<Rightarrow> node_info option" where
  "get_node nodes node_id = map_of nodes node_id"

text \<open>The comparison is made in \<open>int64_t\<close>, to which the \<open>uint32_t\<close> is converted.\<close>

definition expire :: "unix_time \<Rightarrow> u32 \<Rightarrow> node_info \<Rightarrow> node_info" where
  "expire now timeout_sec node =
     (if ni_status node = NODE_STATUS_ONLINE \<and> now - ni_last_heartbeat node > uint timeout_sec
      then node\<lparr>ni_status := NODE_STATUS_OFFLINE\<rparr> else node)"

definition check_timeouts :: "node_registry \<Rightarrow> unix_time \<Rightarrow> u32 \<Rightarrow> node_registry" where
  "check_timeouts nodes now timeout_sec = sweep (expire now timeout_sec) nodes"

section \<open>Well-formedness: keyed by id, one entry per host\<close>

definition registry_ok :: "node_registry \<Rightarrow> bool" where
  "registry_ok nodes \<longleftrightarrow> keyed ni_node_id nodes \<and>
     (\<forall>k v k' v'. map_of nodes k = Some v \<and> map_of nodes k' = Some v' \<and> same_host v v' \<longrightarrow> k = k')"

lemma same_host_refl [simp]: "same_host v v"
  by (simp add: same_host_def)

lemma same_host_sym: "same_host a b \<Longrightarrow> same_host b a"
  by (simp add: same_host_def)

lemma same_host_trans: "same_host a b \<Longrightarrow> same_host b c \<Longrightarrow> same_host a c"
  by (simp add: same_host_def)

lemma node_update_host [simp]:
  "same_host (re_register now info node) other = same_host node other"
  "same_host other (re_register now info node) = same_host other node"
  "same_host (beat now r n node) other = same_host node other"
  "same_host other (beat now r n node) = same_host other node"
  "same_host (expire now t node) other = same_host node other"
  "same_host other (expire now t node) = same_host other node"
  "same_host (new_node i now info) other = same_host info other"
  "same_host other (new_node i now info) = same_host other info"
  by (simp_all add: same_host_def re_register_def beat_def expire_def new_node_def)

lemma node_update_id [simp]:
  "ni_node_id (re_register now info node) = ni_node_id node"
  "ni_node_id (beat now r n node) = ni_node_id node"
  "ni_node_id (expire now t node) = ni_node_id node"
  "ni_node_id (new_node i now info) = i"
  by (simp_all add: re_register_def beat_def expire_def new_node_def)

lemma registry_okD:
  "registry_ok nodes \<Longrightarrow> keyed ni_node_id nodes"
  "registry_ok nodes \<Longrightarrow> map_of nodes k = Some v \<Longrightarrow> map_of nodes k' = Some v' \<Longrightarrow> same_host v v' \<Longrightarrow> k = k'"
  by (auto simp: registry_ok_def)

lemma registry_ok_Nil [simp]: "registry_ok []"
  by (simp add: registry_ok_def)

lemma registry_okI:
  assumes "keyed ni_node_id nodes"
    and "\<And>k v k' v'. map_of nodes k = Some v \<Longrightarrow> map_of nodes k' = Some v' \<Longrightarrow> same_host v v' \<Longrightarrow> k = k'"
  shows "registry_ok nodes"
  using assms by (auto simp: registry_ok_def)

lemma registry_ok_replace:
  assumes ok: "registry_ok nodes" and v: "map_of nodes k = Some v"
    and id: "ni_node_id v' = ni_node_id v" and host: "\<And>w. same_host v' w = same_host v w"
  shows "registry_ok (AList.update k v' nodes)"
proof (rule registry_okI)
  have "ni_node_id v' = k"
    using id keyed_map_of [OF registry_okD(1) [OF ok] v] by simp
  then show "keyed ni_node_id (AList.update k v' nodes)"
    using registry_okD(1) [OF ok] by blast
  have old: "\<exists>u. map_of nodes i = Some u \<and> same_host u w"
    if "map_of (AList.update k v' nodes) i = Some w" for i w
    using that v host [of v'] same_host_sym by (cases "i = k") (auto simp: table_simps)
  fix i w j w'
  assume "map_of (AList.update k v' nodes) i = Some w" "map_of (AList.update k v' nodes) j = Some w'"
    and ww': "same_host w w'"
  then obtain u u' where "map_of nodes i = Some u" "same_host u w" "map_of nodes j = Some u'" "same_host u' w'"
    using old by blast
  moreover from this ww' have "same_host u u'"
    by (blast intro: same_host_trans same_host_sym)
  ultimately show "i = j" using registry_okD(2) [OF ok] by blast
qed

lemma registry_ok_insert:
  assumes "registry_ok nodes" "ni_node_id v = k"
    "\<And>k' w. map_of nodes k' = Some w \<Longrightarrow> \<not> same_host w v"
  shows "registry_ok (AList.update k v nodes)"
  using assms unfolding registry_ok_def
  by (auto simp: table_simps split: if_splits dest: same_host_sym)

lemma find_host_None:
  "find (\<lambda>(k, v). same_host v info) nodes = None \<Longrightarrow> map_of nodes k = Some v \<Longrightarrow> \<not> same_host v info"
  by (auto simp: find_None_iff dest!: map_of_SomeD)

lemma find_host_Some:
  assumes "find (\<lambda>(k, v). same_host v info) nodes = Some (k, v)" "distinct (map fst nodes)"
  shows "map_of nodes k = Some v" "same_host v info"
proof -
  have "(k, v) \<in> set nodes" "same_host v info"
    using assms(1) by (auto simp: find_Some_iff) (metis nth_mem)
  then show "map_of nodes k = Some v" "same_host v info"
    using assms(2) by simp_all
qed

lemma register_cases:
  assumes "registry_ok nodes"
  obtains (known) k v where "map_of nodes k = Some v" "same_host v info"
      "register_node nodes uuid now info = (k, AList.update k (re_register now info v) nodes)"
  | (fresh) "\<And>k v. map_of nodes k = Some v \<Longrightarrow> \<not> same_host v info"
      "register_node nodes uuid now info = (node_id_of_uuid uuid,
         AList.update (node_id_of_uuid uuid) (new_node (node_id_of_uuid uuid) now info) nodes)"
proof (cases "find (\<lambda>(k, v). same_host v info) nodes")
  case None
  then show ?thesis
    by (intro fresh) (auto simp: register_node_def Let_def dest: find_host_None)
next
  case (Some e)
  moreover obtain k v where "e = (k, v)" by (cases e)
  moreover have "distinct (map fst nodes)"
    using registry_okD(1) [OF assms] by (simp add: keyed_def)
  ultimately show ?thesis
    using find_host_Some [of info nodes k v] by (intro known [of k v]) (auto simp: register_node_def)
qed

lemma register_node_ok:
  assumes "registry_ok nodes"
  shows "registry_ok (snd (register_node nodes uuid now info))"
  using assms
proof (cases rule: register_cases [of nodes info uuid now])
  case (known k v)
  then show ?thesis using assms by (auto intro: registry_ok_replace)
next
  case fresh
  then show ?thesis using assms by (auto intro: registry_ok_insert)
qed

lemma update_heartbeat_ok: "registry_ok nodes \<Longrightarrow> registry_ok (snd (update_heartbeat nodes now i r n))"
  by (auto simp: update_heartbeat_def split: option.split intro: registry_ok_replace)

lemma unregister_node_ok: "registry_ok nodes \<Longrightarrow> registry_ok (snd (unregister_node nodes i))"
  by (auto simp: unregister_node_def registry_ok_def table_simps split: if_splits)

lemma check_timeouts_ok: "registry_ok nodes \<Longrightarrow> registry_ok (check_timeouts nodes now t)"
  by (auto simp: check_timeouts_def registry_ok_def table_simps)

lemmas registry_ops_ok [intro] =
  register_node_ok update_heartbeat_ok unregister_node_ok check_timeouts_ok

section \<open>Look-ups after each operation\<close>

named_theorems node_simps \<open>look-ups after the operations of the node registry\<close>

lemma get_node_heartbeat [node_simps]:
  "get_node (snd (update_heartbeat nodes now i r n)) k =
     (if k = i then map_option (beat now r n) (get_node nodes k) else get_node nodes k)"
  by (simp add: get_node_def update_heartbeat_def table_simps split: option.split)

lemma fst_update_heartbeat [node_simps]:
  "fst (update_heartbeat nodes now i r n) \<longleftrightarrow> get_node nodes i \<noteq> None"
  by (simp add: get_node_def update_heartbeat_def split: option.split)

lemma get_node_timeouts [node_simps]:
  "get_node (check_timeouts nodes now t) k = map_option (expire now t) (get_node nodes k)"
  by (simp add: get_node_def check_timeouts_def table_simps)

lemma get_node_unregister [node_simps]:
  "get_node (snd (unregister_node nodes i)) k = (if k = i then None else get_node nodes k)"
  by (auto simp: get_node_def unregister_node_def table_simps)

lemma in_get_all_nodes:
  "keyed ni_node_id nodes \<Longrightarrow> v \<in> set (get_all_nodes nodes) \<longleftrightarrow> get_node nodes (ni_node_id v) = Some v"
  by (auto simp: get_all_nodes_def get_node_def keyed_in_set [symmetric])

lemma distinct_get_all_nodes: "keyed ni_node_id nodes \<Longrightarrow> distinct (map ni_node_id (get_all_nodes nodes))"
proof -
  assume keyed: "keyed ni_node_id nodes"
  then have "map ni_node_id (get_all_nodes nodes) = map fst nodes"
    by (auto simp: keyed_def get_all_nodes_def)
  with keyed show ?thesis by (simp add: keyed_def)
qed

section \<open>Properties\<close>

text \<open>
  The registry is an identity map for hosts.  Every operation keeps each node stored under its
  own id with at most one node per pair of host name and address.
\<close>

theorem registry_invariant:
  assumes "registry_ok nodes"
  shows "registry_ok (snd (register_node nodes uuid now info)) \<and>
    registry_ok (snd (unregister_node nodes i)) \<and>
    registry_ok (snd (update_heartbeat nodes now i r n)) \<and>
    registry_ok (check_timeouts nodes now t) \<and>
    distinct (map ni_node_id (get_all_nodes (snd (register_node nodes uuid now info))))"
  using assms by (blast intro: distinct_get_all_nodes registry_okD)+

definition host_a :: node_info where
  "host_a = default_node_info\<lparr>ni_hostname := ''a'', ni_ip_address := ''10.0.0.1''\<rparr>"

theorem registry_invariant_witness:
  "registry_ok (snd (register_node [] ''00000000-0000'' 1 host_a))"
  by (rule registry_invariant [THEN conjunct1]) simp

lemma get_node_register:
  assumes "registry_ok nodes"
  shows "get_node (snd (register_node nodes uuid now info)) k =
    (if k = fst (register_node nodes uuid now info)
     then Some (case get_node nodes k of
                  Some v \<Rightarrow> if same_host v info then re_register now info v
                            else new_node k now info
                | None \<Rightarrow> new_node k now info)
     else get_node nodes k)"
  using assms
proof (cases rule: register_cases [of nodes info uuid now])
  case (known i v)
  then show ?thesis by (simp add: get_node_def table_simps)
next
  case fresh
  then show ?thesis
    by (auto simp: get_node_def table_simps split: option.split)
qed

lemma registered_entry:
  assumes ok: "registry_ok nodes" and reg: "register_node nodes uuid now info = (i, nodes')"
  shows "\<exists>node. get_node nodes' i = Some node \<and> same_host node info
       \<and> ni_status node = NODE_STATUS_ONLINE \<and> ni_last_heartbeat node = now
       \<and> ni_total_resources node = ni_total_resources info
       \<and> ni_available_resources node = ni_total_resources info"
  using get_node_register [OF ok, of uuid now info i]
  by (simp add: reg re_register_def new_node_def split: option.split)
     (simp add: same_host_def)

text \<open>A host that is registered is found again, also when it announces other resources.\<close>

lemma register_again:
  assumes ok: "registry_ok nodes" and reg: "register_node nodes uuid now info = (i, nodes')" and same: "same_host info info'"
  shows "fst (register_node nodes' uuid' later info') = i"
proof -
  have ok': "registry_ok nodes'"
    using register_node_ok [OF ok, of uuid now info] by (simp add: reg)
  obtain node where node: "map_of nodes' i = Some node" "same_host node info'"
    using registered_entry [OF ok reg] same_host_trans [OF _ same] unfolding get_node_def by blast
  show ?thesis
    using ok'
  proof (cases rule: register_cases [of nodes' info' uuid' later])
    case (known k v)
    then have "k = i"
      using registry_okD(2) [OF ok' _ node(1)] same_host_trans [OF known(2) same_host_sym [OF node(2)]] by blast
    then show ?thesis by (simp add: known(3))
  next
    case fresh
    then show ?thesis using node by blast
  qed
qed

lemma register_id:
  assumes "registry_ok nodes" "register_node nodes uuid now info = (i, nodes')"
  shows "\<exists>k v. get_node nodes k = Some v \<and> same_host v info \<Longrightarrow> \<exists>v. get_node nodes i = Some v \<and> same_host v info"
    and "\<nexists>k v. get_node nodes k = Some v \<and> same_host v info \<Longrightarrow> i = node_id_of_uuid uuid"
  using assms(1) by (cases rule: register_cases [of nodes info uuid now]; use assms(2) in \<open>auto simp: get_node_def\<close>)+

text \<open>
  Registration is idempotent per host.  A host that is registered gets its id back, however
  often it registers and with whatever UUID is drawn, and its entry is refreshed: online, beaten
  now, with the announced resources all available.  Only the first registration stores a new
  node, under the id made from the UUID.  No other host's entry changes unless the drawn id
  collides with it.
\<close>

theorem registration_idempotent:
  assumes ok: "registry_ok nodes" and reg: "register_node nodes uuid now info = (i, nodes')"
  shows "fst (register_node nodes' uuid' later info) = i \<and>
    (\<exists>node. get_node nodes' i = Some node \<and> same_host node info
       \<and> ni_status node = NODE_STATUS_ONLINE \<and> ni_last_heartbeat node = now
       \<and> ni_total_resources node = ni_total_resources info
       \<and> ni_available_resources node = ni_total_resources info) \<and>
    (((\<exists>k v. get_node nodes k = Some v \<and> same_host v info)) \<longrightarrow> (\<exists>v. get_node nodes i = Some v \<and> same_host v info)) \<and>
    ((\<not> (\<exists>k v. get_node nodes k = Some v \<and> same_host v info)) \<longrightarrow> i = ''node-'' @ take 8 uuid) \<and>
    (k \<noteq> i \<longrightarrow> get_node nodes' k = get_node nodes k)"
proof (rule conj_goals(4); (intro impI)?)
  show "fst (register_node nodes' uuid' later info) = i"
    by (rule register_again [OF ok reg same_host_refl])
  show "\<exists>node. get_node nodes' i = Some node \<and> same_host node info
       \<and> ni_status node = NODE_STATUS_ONLINE \<and> ni_last_heartbeat node = now
       \<and> ni_total_resources node = ni_total_resources info
       \<and> ni_available_resources node = ni_total_resources info"
    by (rule registered_entry [OF ok reg])
  show "\<exists>v. get_node nodes i = Some v \<and> same_host v info"
    if "\<exists>k v. get_node nodes k = Some v \<and> same_host v info"
    by (rule register_id(1) [OF ok reg that])
  show "i = ''node-'' @ take 8 uuid" if "\<nexists>k v. get_node nodes k = Some v \<and> same_host v info"
    using register_id(2) [OF ok reg that] by (simp add: node_id_of_uuid_def)
  show "k \<noteq> i \<Longrightarrow> get_node nodes' k = get_node nodes k"
    using get_node_register [OF ok, of uuid now info k] by (simp add: reg)
qed

theorem registration_idempotent_witness:
  "fst (register_node (snd (register_node [] ''00000000-0000'' 1 host_a)) ''11111111-1111'' 2 host_a)
     = fst (register_node [] ''00000000-0000'' 1 host_a)"
  by (rule registration_idempotent [THEN conjunct1, OF registry_ok_Nil prod.collapse [symmetric]])

text \<open>
  A node is online exactly while it is heard from.  A heartbeat of a known node puts it online
  with the reported resources and job count, one of an unknown node is refused without effect,
  and a timeout check takes offline exactly the online nodes not heard from for more than the
  timeout; nothing else of the entry changes.
\<close>

theorem heartbeat_liveness:
  assumes "get_node nodes i = Some node"
  shows "(fst (update_heartbeat nodes now j r n) \<longleftrightarrow> get_node nodes j \<noteq> None) \<and>
    get_node (snd (update_heartbeat nodes now i r n)) i = Some (node
      \<lparr>ni_last_heartbeat := now, ni_status := NODE_STATUS_ONLINE, ni_available_resources := r,
       ni_running_jobs := n\<rparr>) \<and>
    (get_node nodes j = None \<longrightarrow> update_heartbeat nodes now j r n = (False, nodes)) \<and>
    (map_option ni_status (get_node (check_timeouts nodes now t) i) =
      Some (if ni_status node = NODE_STATUS_ONLINE \<and> now > ni_last_heartbeat node + uint t
            then NODE_STATUS_OFFLINE else ni_status node)) \<and>
    (map_option ni_status (get_node (check_timeouts (snd (update_heartbeat nodes now i r n)) later t) i)
      = Some (if later \<le> now + uint t then NODE_STATUS_ONLINE else NODE_STATUS_OFFLINE))"
proof (rule conj_goals(4); (intro impI)?)
  show "fst (update_heartbeat nodes now j r n) \<longleftrightarrow> get_node nodes j \<noteq> None"
    by (simp add: node_simps)
  show "get_node (snd (update_heartbeat nodes now i r n)) i = Some (node
      \<lparr>ni_last_heartbeat := now, ni_status := NODE_STATUS_ONLINE, ni_available_resources := r,
       ni_running_jobs := n\<rparr>)"
    by (simp add: node_simps assms beat_def)
  show "get_node nodes j = None \<Longrightarrow> update_heartbeat nodes now j r n = (False, nodes)"
    by (simp add: update_heartbeat_def get_node_def)
  show "map_option ni_status (get_node (check_timeouts nodes now t) i) =
      Some (if ni_status node = NODE_STATUS_ONLINE \<and> now > ni_last_heartbeat node + uint t
            then NODE_STATUS_OFFLINE else ni_status node)"
    by (simp add: node_simps assms expire_def less_diff_eq add.commute)
  show "map_option ni_status (get_node (check_timeouts (snd (update_heartbeat nodes now i r n)) later t) i)
      = Some (if later \<le> now + uint t then NODE_STATUS_ONLINE else NODE_STATUS_OFFLINE)"
    by (simp add: node_simps assms expire_def beat_def)
qed

theorem heartbeat_liveness_witness:
  "map_option ni_status (get_node (check_timeouts (snd (update_heartbeat [(''n'', host_a)] 100 ''n''
     default_resource_spec 0)) 131 30) ''n'') = Some NODE_STATUS_OFFLINE"
  using heartbeat_liveness [THEN conjunct2, THEN conjunct2, THEN conjunct2, THEN conjunct2, of "[(''n'', host_a)]" "''n''" host_a 100 default_resource_spec 0 131 30]
  by (simp add: get_node_def)

end
