(* ===== verification/Fair_Share.thy ===== *)
theory Fair_Share
  imports Certos_Prelude
begin

text \<open>
  \<open>FairShareManager\<close> (\<open>master/src/scheduler/fair_share.cpp\<close>).  The \<open>double\<close>s are real numbers
  (rounding, infinities and NaN are not modelled); \<open>std::pow\<close> and \<open>std::log1p\<close> are \<open>powr\<close> and
  \<open>ln (1 + x)\<close>; \<open>now_unix()\<close> is an argument.
\<close>

record fair_share =
  half_life_hours :: real
  last_decay_time :: unix_time
  user_usage :: "real table"

definition new_fair_share :: "real \<Rightarrow> unix_time \<Rightarrow> fair_share" where
  "new_fair_share half_life now =
     \<lparr>half_life_hours = (if half_life > 0 then half_life else 24), last_decay_time = now,
      user_usage = []\<rparr>"

text \<open>\<open>user_usage_[user_id] += cpu_seconds\<close>: a missing entry starts at 0.\<close>

definition add_usage :: "fair_share \<Rightarrow> string \<Rightarrow> real \<Rightarrow> fair_share" where
  "add_usage fs user_id cpu_seconds =
     (let old = (case map_of (user_usage fs) user_id of None \<Rightarrow> 0 | Some u \<Rightarrow> u)
      in fs\<lparr>user_usage := AList.update user_id (old + cpu_seconds) (user_usage fs)\<rparr>)"

definition apply_decay :: "fair_share \<Rightarrow> unix_time \<Rightarrow> fair_share" where
  "apply_decay fs now =
     (let hours_elapsed = real_of_int (now - last_decay_time fs) / 3600
      in if hours_elapsed \<le> 0 then fs
         else let decay_factor = (1 / 2) powr (hours_elapsed / half_life_hours fs)
              in fs\<lparr>user_usage := sweep (\<lambda>u. u * decay_factor) (user_usage fs),
                    last_decay_time := now\<rparr>)"

definition get_priority_factor :: "fair_share \<Rightarrow> string \<Rightarrow> real" where
  "get_priority_factor fs user_id =
     (case map_of (user_usage fs) user_id of
        None \<Rightarrow> 1
      | Some usage \<Rightarrow> if usage \<le> 0 then 1 else 1 / (1 + ln (1 + usage / 3600)))"

section \<open>Usage and factor\<close>

definition usage_of :: "fair_share \<Rightarrow> string \<Rightarrow> real" where
  "usage_of fs user_id = (case map_of (user_usage fs) user_id of None \<Rightarrow> 0 | Some u \<Rightarrow> u)"

definition fair_share_ok :: "fair_share \<Rightarrow> bool" where
  "fair_share_ok fs \<longleftrightarrow> 0 < half_life_hours fs"

definition factor_of_usage :: "real \<Rightarrow> real" where
  "factor_of_usage u = (if u \<le> 0 then 1 else 1 / (1 + ln (1 + u / 3600)))"

lemma get_priority_factor_usage: "get_priority_factor fs user_id = factor_of_usage (usage_of fs user_id)"
  by (simp add: get_priority_factor_def factor_of_usage_def usage_of_def split: option.split)

lemma new_fair_share_ok: "fair_share_ok (new_fair_share h now)"
  by (simp add: fair_share_ok_def new_fair_share_def)

lemma usage_add [simp]:
  "usage_of (add_usage fs u s) u' = (if u' = u then usage_of fs u + s else usage_of fs u')"
  by (simp add: usage_of_def add_usage_def Let_def table_simps)

lemma half_life_frame [simp]:
  "half_life_hours (add_usage fs u s) = half_life_hours fs"
  "half_life_hours (apply_decay fs now) = half_life_hours fs"
  "last_decay_time (add_usage fs u s) = last_decay_time fs"
  by (simp_all add: add_usage_def apply_decay_def Let_def)

lemma fair_share_ops_ok [intro]:
  "fair_share_ok fs \<Longrightarrow> fair_share_ok (add_usage fs u s)"
  "fair_share_ok fs \<Longrightarrow> fair_share_ok (apply_decay fs now)"
  by (simp_all add: fair_share_ok_def)

lemma last_decay_time_decay: "last_decay_time (apply_decay fs now) = max now (last_decay_time fs)"
  by (auto simp: apply_decay_def Let_def field_simps)

lemma usage_decay:
  "usage_of (apply_decay fs now) u =
     usage_of fs u * (if now \<le> last_decay_time fs then 1
       else (1 / 2) powr (real_of_int (now - last_decay_time fs) / 3600 / half_life_hours fs))"
  by (simp add: usage_of_def apply_decay_def Let_def table_simps field_simps split: option.split)

lemma factor_range: "0 < factor_of_usage u \<and> factor_of_usage u \<le> 1"
proof (cases "u \<le> 0")
  case False
  then have "0 \<le> ln (1 + u / 3600)" by simp
  then show ?thesis by (simp add: factor_of_usage_def field_simps)
qed (simp add: factor_of_usage_def)

lemma factor_antimono:
  assumes "u \<le> v"
  shows "factor_of_usage v \<le> factor_of_usage u"
proof (cases "u \<le> 0")
  case True
  then show ?thesis using factor_range [of v] by (simp add: factor_of_usage_def)
next
  case False
  then have "1 / (1 + ln (1 + v / 3600)) \<le> 1 / (1 + ln (1 + u / 3600))"
    using assms by (intro frac_le) (auto intro: add_pos_nonneg)
  then show ?thesis using False assms by (simp add: factor_of_usage_def)
qed

lemma factor_strict:
  assumes "0 < v" "u < v"
  shows "factor_of_usage v < factor_of_usage u"
proof -
  have "1 / (1 + ln (1 + v / 3600)) < 1 / (1 + ln (1 + max u 0 / 3600))"
    using assms by (intro frac_less2) (auto intro: add_pos_nonneg simp: max_def)
  then show ?thesis using assms by (auto simp: factor_of_usage_def max_def split: if_splits)
qed

lemma decay_factor_add:
  assumes "0 < h"
  shows "(1 / 2) powr (real_of_int (b - a) / 3600 / h) * (1 / 2) powr (real_of_int (c - b) / 3600 / h)
    = (1 / 2 :: real) powr (real_of_int (c - a) / 3600 / h)"
  by (simp add: powr_add [symmetric] add_divide_distrib [symmetric])

section \<open>Properties\<close>

text \<open>
  The priority factor lies in \<open>(0, 1]\<close>, is 1 exactly for users without positive usage, and
  recording more usage never raises it.
\<close>

theorem priority_factor_bounds:
  "(0 < get_priority_factor fs u \<and> get_priority_factor fs u \<le> 1) \<and>
    (get_priority_factor fs u = 1 \<longleftrightarrow> usage_of fs u \<le> 0) \<and>
    get_priority_factor (add_usage fs u \<bar>s\<bar>) u \<le> get_priority_factor fs u"
proof (rule conj_goals(2); (intro impI)?)
  show "0 < get_priority_factor fs u \<and> get_priority_factor fs u \<le> 1"
    by (simp add: get_priority_factor_usage factor_range)
  show "get_priority_factor fs u = 1 \<longleftrightarrow> usage_of fs u \<le> 0"
    using factor_strict [of "usage_of fs u" 0]
    by (cases "usage_of fs u \<le> 0") (simp_all add: get_priority_factor_usage factor_of_usage_def)
  show "get_priority_factor (add_usage fs u \<bar>s\<bar>) u \<le> get_priority_factor fs u"
    by (simp add: get_priority_factor_usage factor_antimono)
qed

text \<open>
  C40: Decay is exact over time: applying it at \<open>t1\<close> and again at \<open>t2\<close> leaves every user's usage
  as one application at \<open>t2\<close> does, so the rate at which scheduling passes call it does not
  matter; after one half-life every usage is halved; and decay never lowers a user's factor.
\<close>

theorem decay_composes:
  assumes "fair_share_ok fs" "last_decay_time fs \<le> t1" "t1 \<le> t2" "\<forall>u. 0 \<le> usage_of fs u"
  shows "usage_of (apply_decay (apply_decay fs t1) t2) u = usage_of (apply_decay fs t2) u \<and>
    last_decay_time (apply_decay (apply_decay fs t1) t2) = last_decay_time (apply_decay fs t2) \<and>
    (real_of_int (t1 - last_decay_time fs) = 3600 * half_life_hours fs \<longrightarrow> usage_of (apply_decay fs t1) u = usage_of fs u / 2) \<and>
    get_priority_factor fs u \<le> get_priority_factor (apply_decay fs t1) u"
proof (rule conj_goals(3); (intro impI)?)
  have h: "0 < half_life_hours fs" using assms(1) by (simp add: fair_share_ok_def)
  show "usage_of (apply_decay (apply_decay fs t1) t2) u = usage_of (apply_decay fs t2) u"
    using assms(2,3) decay_factor_add [OF h, of t1 "last_decay_time fs" t2]
    by (auto simp: usage_decay last_decay_time_decay max_def)
  show "last_decay_time (apply_decay (apply_decay fs t1) t2) = last_decay_time (apply_decay fs t2)"
    using assms(2,3) by (simp add: last_decay_time_decay)
  show "usage_of (apply_decay fs t1) u = usage_of fs u / 2"
    if "real_of_int (t1 - last_decay_time fs) = 3600 * half_life_hours fs"
    using that h assms(2) by (auto simp: usage_decay)
  have "usage_of (apply_decay fs t1) u \<le> usage_of fs u"
    using assms(4) h by (auto simp: usage_decay intro!: mult_left_le powr_le1)
  then show "get_priority_factor fs u \<le> get_priority_factor (apply_decay fs t1) u"
    by (simp add: get_priority_factor_usage factor_antimono)
qed

theorem decay_composes_witness:
  "usage_of (apply_decay (add_usage (new_fair_share 1 0) ''u'' 36000) 3600) ''u'' = 18000"
  using decay_composes [THEN conjunct2, THEN conjunct2, THEN conjunct1, THEN mp, of "add_usage (new_fair_share 1 0) ''u'' 36000" 3600 3600 "''u''"]
  by (simp add: new_fair_share_ok fair_share_ops_ok) (simp add: new_fair_share_def usage_of_def)

end
