(* ===== verification/Scheduler.thy ===== *)
theory Scheduler
  imports Job_Manager Node_Registry Fair_Share
begin

text \<open>
  \<open>SchedulerEngine::schedule_pass\<close> (\<open>master/src/scheduler/scheduler_engine.cpp\<close>): sort the
  queued jobs with the fair-share comparator, then place each on the first online node whose
  remaining reported resources suffice.  \<open>std::sort\<close> is an argument, with the contract of
  the standard as the locale \<open>comparison_sort\<close>: when the comparator is a strict weak order on
  the elements, the result is a permutation in order; otherwise nothing is promised.  The
  insertion sort the GNU library runs on up to sixteen elements is an instance.  What the pass
  needs of the job table is the locale \<open>job_store\<close>.
\<close>

section \<open>Sorting\<close>

text \<open>The sorted prefix is kept reversed, its last element (the smallest) being \<open>*first\<close>.\<close>

fun linear_insert :: "('a \<Rightarrow> 'a \<Rightarrow> bool) \<Rightarrow> 'a \<Rightarrow> 'a list \<Rightarrow> 'a list" where
  "linear_insert lt v [] = [v]"
| "linear_insert lt v (y # ys) = (if lt v y then y # linear_insert lt v ys else v # y # ys)"

definition insertion_step :: "('a \<Rightarrow> 'a \<Rightarrow> bool) \<Rightarrow> 'a \<Rightarrow> 'a list \<Rightarrow> 'a list" where
  "insertion_step lt v acc =
     (if lt v (last acc) then acc @ [v] else linear_insert lt v acc)"

fun std_sort :: "('a \<Rightarrow> 'a \<Rightarrow> bool) \<Rightarrow> 'a list \<Rightarrow> 'a list" where
  "std_sort lt [] = []"
| "std_sort lt (x # xs) = rev (fold (insertion_step lt) xs [x])"

text \<open>A strict weak order on a set: asymmetric and negatively transitive.\<close>

definition strict_weak_order :: "('a \<Rightarrow> 'a \<Rightarrow> bool) \<Rightarrow> 'a set \<Rightarrow> bool" where
  "strict_weak_order lt S \<longleftrightarrow>
     (\<forall>a\<in>S. \<forall>b\<in>S. lt a b \<longrightarrow> \<not> lt b a) \<and>
     (\<forall>a\<in>S. \<forall>b\<in>S. \<forall>c\<in>S. \<not> lt a b \<and> \<not> lt b c \<longrightarrow> \<not> lt a c)"

text \<open>Sorted: no element is less than one before it.\<close>

definition in_order :: "('a \<Rightarrow> 'a \<Rightarrow> bool) \<Rightarrow> 'a list \<Rightarrow> bool" where
  "in_order lt xs \<longleftrightarrow> sorted_wrt (\<lambda>a b. \<not> lt b a) xs"

locale comparison_sort =
  fixes srt :: "('a \<Rightarrow> 'a \<Rightarrow> bool) \<Rightarrow> 'a list \<Rightarrow> 'a list"
  assumes sort_perm: "strict_weak_order lt (set xs) \<Longrightarrow> mset (srt lt xs) = mset xs"
    and sort_order: "strict_weak_order lt (set xs) \<Longrightarrow> in_order lt (srt lt xs)"
begin

lemma sort_Nil [simp]: "srt lt [] = []"
  using sort_perm [of lt "[]"] by (simp add: strict_weak_order_def)

lemma set_sort: "strict_weak_order lt (set xs) \<Longrightarrow> set (srt lt xs) = set xs"
  using sort_perm mset_eq_setD by blast

lemma distinct_map_sort:
  "strict_weak_order lt (set xs) \<Longrightarrow> distinct (map f (srt lt xs)) = distinct (map f xs)"
  using mset_eq_imp_distinct_iff [of "map f (srt lt xs)" "map f xs"] by (simp add: sort_perm)

end

lemma mset_linear_insert [simp]: "mset (linear_insert lt v xs) = add_mset v (mset xs)"
  by (induction xs) auto

lemma set_linear_insert [simp]: "set (linear_insert lt v xs) = insert v (set xs)"
  by (induction xs) auto

lemma mset_insertion_step [simp]: "mset (insertion_step lt v xs) = add_mset v (mset xs)"
  by (simp add: insertion_step_def)

lemma mset_fold_insertion: "mset (fold (insertion_step lt) xs acc) = mset xs + mset acc"
  by (induction xs arbitrary: acc) simp_all

lemma mset_std_sort: "mset (std_sort lt xs) = mset xs"
  by (cases xs) (simp_all add: mset_fold_insertion)

lemma swo_trans:
  "strict_weak_order lt S \<Longrightarrow> a \<in> S \<Longrightarrow> b \<in> S \<Longrightarrow> c \<in> S \<Longrightarrow> \<not> lt a b \<Longrightarrow> \<not> lt b c \<Longrightarrow> \<not> lt a c"
  unfolding strict_weak_order_def by blast

lemma swo_asym: "strict_weak_order lt S \<Longrightarrow> a \<in> S \<Longrightarrow> b \<in> S \<Longrightarrow> lt a b \<Longrightarrow> \<not> lt b a"
  unfolding strict_weak_order_def by blast

lemma swo_subset: "strict_weak_order lt S \<Longrightarrow> T \<subseteq> S \<Longrightarrow> strict_weak_order lt T"
  unfolding strict_weak_order_def by blast

text \<open>The prefix, reversed, is in order: each element is not less than those after it.\<close>

abbreviation rev_order :: "('a \<Rightarrow> 'a \<Rightarrow> bool) \<Rightarrow> 'a list \<Rightarrow> bool" where
  "rev_order lt xs \<equiv> sorted_wrt (\<lambda>a b. \<not> lt a b) xs"

lemma rev_order_linear_insert:
  assumes "strict_weak_order lt (insert v (set xs))" "rev_order lt xs"
  shows "rev_order lt (linear_insert lt v xs)"
  using assms
proof (induction xs)
  case (Cons y ys)
  have swo: "strict_weak_order lt (insert v (set ys))"
    using Cons.prems(1) by (rule swo_subset) auto
  show ?case
  proof (cases "lt v y")
    case True
    then have "\<not> lt y v"
      by (rule swo_asym [OF Cons.prems(1), rotated 2]) auto
    then show ?thesis using True Cons.IH [OF swo] Cons.prems(2) by auto
  next
    case False
    have "\<not> lt v z" if "z \<in> set ys" for z
      by (rule swo_trans [OF Cons.prems(1), of v y z]) (use that False Cons.prems(2) in auto)
    with False show ?thesis using Cons.prems(2) by auto
  qed
qed simp

lemma rev_order_last:
  "rev_order lt xs \<Longrightarrow> z \<in> set xs \<Longrightarrow> z = last xs \<or> \<not> lt z (last xs)"
  by (induction xs) (auto dest: last_in_set)

lemma rev_order_insertion_step:
  assumes swo: "strict_weak_order lt (insert v (set xs))" and order: "rev_order lt xs" and "xs \<noteq> []"
  shows "rev_order lt (insertion_step lt v xs)"
proof (cases "lt v (last xs)")
  case True
  have last: "last xs \<in> set xs" using \<open>xs \<noteq> []\<close> by simp
  have "\<not> lt z v" if z: "z \<in> set xs" for z
  proof -
    have "\<not> lt (last xs) v" "lt (last xs) (last xs) \<Longrightarrow> \<not> lt (last xs) (last xs)"
      using swo_asym [OF swo] True last by blast+
    moreover from this have "\<not> lt z (last xs)"
      using rev_order_last [OF order z] by auto
    ultimately show ?thesis
      using swo_trans [OF swo, of z "last xs" v] z last by blast
  qed
  then show ?thesis
    using True order by (auto simp: insertion_step_def sorted_wrt_append)
next
  case False
  then show ?thesis
    using rev_order_linear_insert [OF swo order] by (simp add: insertion_step_def)
qed

lemma rev_order_fold:
  assumes "strict_weak_order lt (set xs \<union> set acc)" "rev_order lt acc" "acc \<noteq> []"
  shows "rev_order lt (fold (insertion_step lt) xs acc)"
  using assms
proof (induction xs arbitrary: acc)
  case (Cons x xs)
  have "set (insertion_step lt x acc) = insert x (set acc)"
    by (simp add: insertion_step_def)
  moreover from this have "insertion_step lt x acc \<noteq> []" by auto
  moreover have "rev_order lt (insertion_step lt x acc)"
    using Cons.prems by (intro rev_order_insertion_step) (auto intro: swo_subset)
  ultimately show ?case
    using Cons.IH Cons.prems(1) by simp
qed simp

lemma in_order_std_sort: "strict_weak_order lt (set xs) \<Longrightarrow> in_order lt (std_sort lt xs)"
proof (cases xs)
  case (Cons y ys)
  assume "strict_weak_order lt (set xs)"
  then have "rev_order lt (fold (insertion_step lt) ys [y])"
    using Cons by (intro rev_order_fold) simp_all
  then show ?thesis by (simp add: Cons in_order_def sorted_wrt_rev)
qed (simp add: in_order_def)

interpretation std: comparison_sort std_sort
  by unfold_locales (simp_all add: mset_std_sort in_order_std_sort)

section \<open>The comparator\<close>

definition effective_prio :: "fair_share \<Rightarrow> job_info \<Rightarrow> real" where
  "effective_prio fs a =
     real_of_int (sint (spec_priority (ji_spec a))) * get_priority_factor fs (ji_user_id a)"

definition schedule_before :: "fair_share \<Rightarrow> job_info \<Rightarrow> job_info \<Rightarrow> bool" where
  "schedule_before fs a b =
     (let prio_a = effective_prio fs a; prio_b = effective_prio fs b
      in if \<bar>prio_a - prio_b\<bar> > 1 / 10 then prio_a > prio_b
         else ji_submitted_at a < ji_submitted_at b)"

section \<open>Placement\<close>

definition fits :: "resource_spec \<Rightarrow> resource_spec \<Rightarrow> bool" where
  "fits req avail \<longleftrightarrow>
     cpu_cores req \<le> cpu_cores avail \<and> ram_mb req \<le> ram_mb avail \<and> gpu_count req \<le> gpu_count avail"

definition deduct :: "resource_spec \<Rightarrow> node_info \<Rightarrow> node_info" where
  "deduct req node =
     (let avail = ni_available_resources node
      in node\<lparr>ni_available_resources := avail
           \<lparr>cpu_cores := cpu_cores avail - cpu_cores req, ram_mb := ram_mb avail - ram_mb req,
            gpu_count := gpu_count avail - gpu_count req\<rparr>\<rparr>)"

text \<open>
  The inner loop: the first node that fits, with its local copy reduced; \<open>None\<close> when the loop
  ends with \<open>scheduled\<close> false.
\<close>

fun place :: "resource_spec \<Rightarrow> node_info list \<Rightarrow> (string \<times> node_info list) option" where
  "place req [] = None"
| "place req (node # nodes) =
     (if fits req (ni_available_resources node)
      then Some (ni_node_id node, deduct req node # nodes)
      else map_option (\<lambda>(node_id, nodes'). (node_id, node # nodes')) (place req nodes))"

text \<open>The outer loop over the sorted jobs, with the call of \<open>update_job_status\<close> in between.\<close>

fun assign_jobs ::
  "('s \<Rightarrow> unix_time \<Rightarrow> string \<Rightarrow> job_status \<Rightarrow> string \<Rightarrow> bool \<times> 's) \<Rightarrow> unix_time \<Rightarrow> 's
     \<Rightarrow> job_info list \<Rightarrow> node_info list \<Rightarrow> 's" where
  "assign_jobs set_status now s [] nodes = s"
| "assign_jobs set_status now s (job # jobs) nodes =
     (case place (spec_resources (ji_spec job)) nodes of
        None \<Rightarrow> assign_jobs set_status now s jobs nodes
      | Some (node_id, nodes') \<Rightarrow>
          assign_jobs set_status now
            (snd (set_status s now (ji_job_id job) JOB_STATUS_ASSIGNED node_id)) jobs nodes')"

definition online_nodes :: "node_registry \<Rightarrow> node_info list" where
  "online_nodes nodes = filter (\<lambda>node. ni_status node = NODE_STATUS_ONLINE) (get_all_nodes nodes)"

type_synonym job_sort = "(job_info \<Rightarrow> job_info \<Rightarrow> bool) \<Rightarrow> job_info list \<Rightarrow> job_info list"

definition schedule_pass ::
  "job_sort \<Rightarrow> fair_share \<Rightarrow> 'db job_manager \<Rightarrow> node_registry \<Rightarrow> unix_time \<Rightarrow> fair_share \<times> 'db job_manager" where
  "schedule_pass srt fs jm nodes now =
     (let pending_jobs = get_pending_jobs jm
      in if pending_jobs = [] then (fs, jm)
         else let fs' = apply_decay fs now;
                  sorted_jobs = srt (schedule_before fs') pending_jobs;
                  online = online_nodes nodes
              in if online = [] then (fs', jm)
                 else (fs', assign_jobs update_job_status now jm sorted_jobs online))"

section \<open>What a pass places\<close>

text \<open>The placements of the outer loop, without the job table, and the remaining resources.\<close>

fun placements :: "job_info list \<Rightarrow> node_info list \<Rightarrow> (job_info \<times> string) list \<times> node_info list" where
  "placements [] nodes = ([], nodes)"
| "placements (job # jobs) nodes =
     (case place (spec_resources (ji_spec job)) nodes of
        None \<Rightarrow> placements jobs nodes
      | Some (node_id, nodes') \<Rightarrow>
          (let (ps, rest) = placements jobs nodes' in ((job, node_id) # ps, rest)))"

lemma assign_jobs_placements:
  "assign_jobs set_status now s jobs nodes =
     fold (\<lambda>(job, n) s. snd (set_status s now (ji_job_id job) JOB_STATUS_ASSIGNED n))
       (fst (placements jobs nodes)) s"
  by (induction jobs arbitrary: s nodes) (auto simp: Let_def split: option.split prod.split)

lemma placeD:
  "place req nodes = Some (n, nodes') \<Longrightarrow>
     \<exists>pre node post. nodes = pre @ node # post \<and> nodes' = pre @ deduct req node # post
       \<and> n = ni_node_id node \<and> fits req (ni_available_resources node)
       \<and> (\<forall>x\<in>set pre. \<not> fits req (ni_available_resources x))"
proof (induction nodes arbitrary: nodes')
  case (Cons x xs)
  show ?case
  proof (cases "fits req (ni_available_resources x)")
    case True
    with Cons.prems show ?thesis by (intro exI [of _ "[]"]) auto
  next
    case False
    then obtain ys where "place req xs = Some (n, ys)" "nodes' = x # ys"
      using Cons.prems by auto
    with Cons.IH obtain pre node post where "xs = pre @ node # post" "ys = pre @ deduct req node # post"
      "n = ni_node_id node" "fits req (ni_available_resources node)"
      "\<forall>x\<in>set pre. \<not> fits req (ni_available_resources x)" by blast
    with False \<open>nodes' = x # ys\<close> show ?thesis by (intro exI [of _ "x # pre"]) auto
  qed
qed simp

lemma place_None: "place req nodes = None \<longleftrightarrow> (\<forall>x\<in>set nodes. \<not> fits req (ni_available_resources x))"
  by (induction nodes) auto

lemma deduct_simps [simp]:
  "ni_node_id (deduct req node) = ni_node_id node" "ni_status (deduct req node) = ni_status node"
  by (simp_all add: deduct_def Let_def)

lemma amounts_deduct:
  "fits req (ni_available_resources node) \<Longrightarrow>
     amounts_of (ni_available_resources node) =
       plus_amounts (amounts_of (ni_available_resources (deduct req node))) (amounts_of req)"
  by (simp add: fits_def deduct_def amounts_of_def Let_def word_sub_nat word_le_nat_alt)

lemma fits_amounts: "fits req avail \<longleftrightarrow> le_amounts (amounts_of req) (amounts_of avail)"
  by (simp add: fits_def amounts_of_def word_le_nat_alt)

text \<open>The total requested from a node by a list of placements.\<close>

fun demand :: "(job_info \<times> string) list \<Rightarrow> string \<Rightarrow> amounts" where
  "demand [] n = (0, 0, 0)"
| "demand ((job, m) # ps) n =
     (if m = n then plus_amounts (demand ps n) (amounts_of (spec_resources (ji_spec job)))
      else demand ps n)"

text \<open>Nodes before and after: same identity, and what is missing is the demand.\<close>

definition drawn :: "(string \<Rightarrow> amounts) \<Rightarrow> node_info \<Rightarrow> node_info \<Rightarrow> bool" where
  "drawn d a b \<longleftrightarrow> ni_node_id b = ni_node_id a \<and>
     amounts_of (ni_available_resources a) =
       plus_amounts (amounts_of (ni_available_resources b)) (d (ni_node_id a))"

lemma place_drawn:
  assumes "place req nodes = Some (n, nodes')" "distinct (map ni_node_id nodes)"
  shows "list_all2 (drawn (\<lambda>m. if m = n then amounts_of req else (0, 0, 0))) nodes nodes'"
proof -
  obtain pre node post where *: "nodes = pre @ node # post" "nodes' = pre @ deduct req node # post"
    "n = ni_node_id node" "fits req (ni_available_resources node)"
    using placeD [OF assms(1)] by blast
  then show ?thesis
    using assms(2) by (auto simp: drawn_def amounts_deduct
        intro!: list_all2_appendI list.rel_refl_strong) (metis imageI)+
qed

lemma list_all2_ids: "list_all2 (drawn d) xs ys \<Longrightarrow> map ni_node_id ys = map ni_node_id xs"
  by (induction rule: list_all2_induct) (simp_all add: drawn_def)

lemma placements_drawn:
  assumes "placements jobs nodes = (ps, rest)" "distinct (map ni_node_id nodes)"
  shows "list_all2 (drawn (demand ps)) nodes rest"
  using assms
proof (induction jobs arbitrary: nodes ps)
  case Nil
  then show ?case by (auto simp: drawn_def intro: list.rel_refl_strong)
next
  case (Cons job jobs)
  let ?req = "spec_resources (ji_spec job)"
  show ?case
  proof (cases "place ?req nodes")
    case None
    with Cons show ?thesis by simp
  next
    case (Some r)
    then obtain n nodes1 ps1 where r: "place ?req nodes = Some (n, nodes1)"
      and rest: "placements jobs nodes1 = (ps1, rest)" and ps: "ps = (job, n) # ps1"
      using Cons.prems(1) by (cases r) (auto split: prod.splits)
    have step: "list_all2 (drawn (\<lambda>m. if m = n then amounts_of ?req else (0, 0, 0))) nodes nodes1"
      using r Cons.prems(2) by (rule place_drawn)
    moreover have "list_all2 (drawn (demand ps1)) nodes1 rest"
      using Cons.IH [OF rest] list_all2_ids [OF step] Cons.prems(2) by simp
    ultimately show ?thesis
    proof (rule list_all2_trans [rotated])
      fix a b c
      assume "drawn (\<lambda>m. if m = n then amounts_of ?req else (0, 0, 0)) a b" "drawn (demand ps1) b c"
      then show "drawn (demand ps) a c"
        by (simp add: drawn_def ps plus_amounts_assoc split: if_splits)
    qed
  qed
qed

text \<open>Resources only shrink, so a job that does not fit now does not fit later.\<close>

lemma drawn_fits: "drawn d a b \<Longrightarrow> fits req (ni_available_resources b) \<Longrightarrow> fits req (ni_available_resources a)"
  by (cases "amounts_of (ni_available_resources b)"; cases "d (ni_node_id a)"; cases "amounts_of req")
     (auto simp: drawn_def fits_amounts)

lemma placements_maximal:
  assumes "placements jobs nodes = (ps, rest)" "distinct (map ni_node_id nodes)" "job \<in> set jobs"
    "job \<notin> fst ` set ps" "node \<in> set rest"
  shows "\<not> fits (spec_resources (ji_spec job)) (ni_available_resources node)"
  using assms
proof (induction jobs arbitrary: nodes ps)
  case (Cons j jobs)
  let ?place = "place (spec_resources (ji_spec j)) nodes"
  show ?case
  proof (cases ?place)
    case None
    then have rest: "placements jobs nodes = (ps, rest)" using Cons.prems(1) by simp
    show ?thesis
    proof (cases "job = j")
      case True
      obtain a where "a \<in> set nodes" "drawn (demand ps) a node"
        using list_all2_right [OF placements_drawn [OF rest Cons.prems(2)] Cons.prems(5)] by blast
      then show ?thesis using None True drawn_fits by (auto simp: place_None)
    next
      case False
      then show ?thesis using Cons.IH [OF rest] Cons.prems by simp
    qed
  next
    case (Some r)
    then obtain n nodes1 ps1 where r: "?place = Some (n, nodes1)"
      and rest: "placements jobs nodes1 = (ps1, rest)" and ps: "ps = (j, n) # ps1"
      using Cons.prems(1) by (cases r) (auto split: prod.splits)
    have "map ni_node_id nodes1 = map ni_node_id nodes"
      using list_all2_ids [OF place_drawn [OF r Cons.prems(2)]] .
    then show ?thesis using Cons.IH [OF rest] Cons.prems ps by auto
  qed
qed simp

lemma placements_sound:
  assumes "placements jobs nodes = (ps, rest)" "distinct (map ni_node_id nodes)" "(job, n) \<in> set ps"
  shows "job \<in> set jobs
    \<and> (\<exists>node\<in>set nodes. ni_node_id node = n \<and> fits (spec_resources (ji_spec job)) (ni_available_resources node))"
  using assms
proof (induction jobs arbitrary: nodes ps)
  case (Cons j jobs)
  let ?place = "place (spec_resources (ji_spec j)) nodes"
  show ?case
  proof (cases ?place)
    case None
    then show ?thesis using Cons by auto
  next
    case (Some r)
    then obtain n1 nodes1 ps1 where r: "?place = Some (n1, nodes1)"
      and rest: "placements jobs nodes1 = (ps1, rest)" and ps: "ps = (j, n1) # ps1"
      using Cons.prems(1) by (cases r) (auto split: prod.splits)
    note step = place_drawn [OF r Cons.prems(2)]
    have ids: "map ni_node_id nodes1 = map ni_node_id nodes" using list_all2_ids [OF step] .
    show ?thesis
    proof (cases "(job, n) = (j, n1)")
      case True
      then show ?thesis using placeD [OF r] by auto
    next
      case False
      then obtain b where "job \<in> set jobs" and b: "b \<in> set nodes1" "ni_node_id b = n"
        "fits (spec_resources (ji_spec job)) (ni_available_resources b)"
        using Cons.IH [OF rest] ids Cons.prems ps by auto
      moreover obtain a where a: "a \<in> set nodes"
        "drawn (\<lambda>m. if m = n1 then amounts_of (spec_resources (ji_spec j)) else (0, 0, 0)) a b"
        using list_all2_right [OF step b(1)] by blast
      moreover have "fits (spec_resources (ji_spec job)) (ni_available_resources a)"
        using a(2) b(3) by (rule drawn_fits)
      ultimately show ?thesis by (auto simp: drawn_def)
    qed
  qed
qed simp

lemma placements_subseq: "subseq (map fst (fst (placements jobs nodes))) jobs"
proof (induction jobs arbitrary: nodes)
  case (Cons j jobs)
  show ?case
  proof (cases "place (spec_resources (ji_spec j)) nodes")
    case None
    then show ?thesis using Cons.IH [of nodes] by auto
  next
    case (Some r)
    then show ?thesis using Cons.IH [of "snd r"] by (simp add: case_prod_unfold Let_def)
  qed
qed simp

lemma placements_distinct:
  assumes "distinct (map f jobs)"
  shows "distinct (map (\<lambda>(job, n). f job) (fst (placements jobs nodes)))"
  using subseq_distinct_map [OF placements_subseq assms, of nodes] by (simp add: case_prod_unfold comp_def)

context job_store
begin

definition assigned :: "unix_time \<Rightarrow> (job_info \<times> string) list \<Rightarrow> 's \<Rightarrow> 's" where
  "assigned now ps s = fold (\<lambda>(job, n) s. snd (set_status s now (ji_job_id job) JOB_STATUS_ASSIGNED n)) ps s"

lemma lookup_assigned:
  "distinct (map (\<lambda>(job, n). ji_job_id job) ps) \<Longrightarrow>
     lookup (assigned now ps s) k =
       (case map_of (map (\<lambda>(job, n). (ji_job_id job, n)) ps) k of
          None \<Rightarrow> lookup s k
        | Some n \<Rightarrow> map_option (status_update now JOB_STATUS_ASSIGNED n) (lookup s k))"
proof (induction ps arbitrary: s)
  case (Cons p ps)
  obtain job n where p: "p = (job, n)" by (cases p)
  have "map_of (map (\<lambda>(job, n). (ji_job_id job, n)) ps) (ji_job_id job) = None"
    using Cons.prems by (auto simp: p map_of_eq_None_iff)
  then show ?case
    using Cons.IH [of "snd (set_status s now (ji_job_id job) JOB_STATUS_ASSIGNED n)"] Cons.prems
    by (auto simp: assigned_def p lookup_set split: option.split)
qed (simp add: assigned_def)

end

section \<open>The effect of a pass\<close>

text \<open>The placements of one pass over the state it starts from.\<close>

definition pass_plan ::
  "job_sort \<Rightarrow> fair_share \<Rightarrow> 'db job_manager \<Rightarrow> node_registry \<Rightarrow> unix_time \<Rightarrow> (job_info \<times> string) list \<times> node_info list" where
  "pass_plan srt fs jm nodes now =
     placements (srt (schedule_before (apply_decay fs now)) (get_pending_jobs jm))
       (online_nodes nodes)"

lemma placements_Nil [simp]: "placements jobs [] = ([], [])"
  by (induction jobs) auto

lemma schedule_pass_plan:
  "comparison_sort srt \<Longrightarrow> snd (schedule_pass srt fs jm nodes now) = jobs.assigned now (fst (pass_plan srt fs jm nodes now)) jm"
  by (simp add: schedule_pass_def pass_plan_def Let_def assign_jobs_placements jobs.assigned_def
      comparison_sort.sort_Nil)

lemma pending_keyed:
  assumes "jobs_keyed jm"
  shows "info \<in> set (get_pending_jobs jm) \<longleftrightarrow>
      get_job jm (ji_job_id info) = Some info \<and> ji_status info = JOB_STATUS_QUEUED"
    and "distinct (map ji_job_id (get_pending_jobs jm))"
  using assms by (simp_all add: get_pending_jobs_def in_list_jobs distinct_list_jobs)

lemma online_nodes_iff:
  "registry_ok nodes \<Longrightarrow> node \<in> set (online_nodes nodes) \<longleftrightarrow>
     get_node nodes (ni_node_id node) = Some node \<and> ni_status node = NODE_STATUS_ONLINE"
  by (auto simp: online_nodes_def in_get_all_nodes registry_okD)

lemma distinct_online_nodes: "registry_ok nodes \<Longrightarrow> distinct (map ni_node_id (online_nodes nodes))"
  by (simp add: online_nodes_def distinct_map_filter distinct_get_all_nodes registry_okD)

text \<open>The queue a pass sorts is in reach of the contract of \<open>std::sort\<close>.\<close>

definition queue_comparable :: "fair_share \<Rightarrow> 'db job_manager \<Rightarrow> unix_time \<Rightarrow> bool" where
  "queue_comparable fs jm now \<longleftrightarrow>
     strict_weak_order (schedule_before (apply_decay fs now)) (set (get_pending_jobs jm))"

text \<open>What a pass relies on: a correct sort it may be used on, and well-formed tables.\<close>

definition pass_ready ::
  "job_sort \<Rightarrow> fair_share \<Rightarrow> 'db job_manager \<Rightarrow> node_registry \<Rightarrow> unix_time \<Rightarrow> bool" where
  "pass_ready srt fs jm nodes now \<longleftrightarrow>
     comparison_sort srt \<and> queue_comparable fs jm now \<and> jobs_keyed jm \<and> registry_ok nodes"

lemma pass_readyD:
  assumes "pass_ready srt fs jm nodes now"
  shows "comparison_sort srt" "queue_comparable fs jm now" "jobs_keyed jm" "registry_ok nodes"
  using assms by (simp_all add: pass_ready_def)

lemma pass_queue:
  assumes "pass_ready srt fs jm nodes now"
  shows "set (srt (schedule_before (apply_decay fs now)) (get_pending_jobs jm)) = set (get_pending_jobs jm)"
    and "distinct (map ji_job_id (srt (schedule_before (apply_decay fs now)) (get_pending_jobs jm)))"
  using pass_readyD [OF assms] pending_keyed(2)
  by (simp_all add: queue_comparable_def comparison_sort.distinct_map_sort comparison_sort.set_sort)

lemma pass_plan_distinct:
  "pass_ready srt fs jm nodes now \<Longrightarrow> distinct (map (\<lambda>(job, n). ji_job_id job) (fst (pass_plan srt fs jm nodes now)))"
  unfolding pass_plan_def
  by (rule placements_distinct) (rule pass_queue)

lemma pass_plan_sound:
  assumes "pass_ready srt fs jm nodes now" "(job, n) \<in> set (fst (pass_plan srt fs jm nodes now))"
  shows "get_job jm (ji_job_id job) = Some job" "ji_status job = JOB_STATUS_QUEUED"
    and "\<exists>node. get_node nodes n = Some node \<and> ni_status node = NODE_STATUS_ONLINE
      \<and> fits (spec_resources (ji_spec job)) (ni_available_resources node)"
proof -
  obtain ps rest where plan: "pass_plan srt fs jm nodes now = (ps, rest)" by fastforce
  with assms(2) have "(job, n) \<in> set ps" by simp
  note wf = pass_readyD [OF assms(1)]
  from placements_sound [OF plan [unfolded pass_plan_def] distinct_online_nodes [OF wf(4)] \<open>(job, n) \<in> set ps\<close>]
  have "job \<in> set (get_pending_jobs jm)" and
    ex: "\<exists>node\<in>set (online_nodes nodes). ni_node_id node = n
       \<and> fits (spec_resources (ji_spec job)) (ni_available_resources node)"
    by (simp_all add: pass_queue(1) [OF assms(1)])
  then show "get_job jm (ji_job_id job) = Some job" "ji_status job = JOB_STATUS_QUEUED"
    using pending_keyed(1) [OF wf(3)] by blast+
  show "\<exists>node. get_node nodes n = Some node \<and> ni_status node = NODE_STATUS_ONLINE
      \<and> fits (spec_resources (ji_spec job)) (ni_available_resources node)"
    using ex online_nodes_iff [OF wf(4)] by auto
qed

lemma pass_demand:
  assumes "registry_ok nodes" "get_node nodes n = Some node" "ni_status node = NODE_STATUS_ONLINE"
  shows "le_amounts (demand (fst (pass_plan srt fs jm nodes now)) n) (amounts_of (ni_available_resources node))"
proof -
  obtain ps rest where plan: "pass_plan srt fs jm nodes now = (ps, rest)" by fastforce
  have id: "ni_node_id node = n"
    using keyed_map_of [OF registry_okD(1) [OF assms(1)]] assms(2) by (simp add: get_node_def)
  then have "node \<in> set (online_nodes nodes)"
    using assms by (simp add: online_nodes_iff)
  from list_all2_left [OF placements_drawn [OF plan [unfolded pass_plan_def]
    distinct_online_nodes [OF assms(1)]] this]
  obtain b where "drawn (demand ps) node b" by blast
  then show ?thesis by (simp add: plan drawn_def id)
qed

lemma pass_maximal:
  assumes "pass_ready srt fs jm nodes now" "job \<in> set (get_pending_jobs jm)"
    "job \<notin> fst ` set (fst (pass_plan srt fs jm nodes now))" "node \<in> set (snd (pass_plan srt fs jm nodes now))"
  shows "\<not> fits (spec_resources (ji_spec job)) (ni_available_resources node)"
proof -
  obtain ps rest where plan: "pass_plan srt fs jm nodes now = (ps, rest)" by fastforce
  show ?thesis
    by (rule placements_maximal [OF plan [unfolded pass_plan_def]
          distinct_online_nodes [OF pass_readyD(4) [OF assms(1)]]])
       (use assms(2-4) plan in \<open>simp_all add: pass_queue(1) [OF assms(1)]\<close>)
qed

lemma get_job_pass:
  assumes "pass_ready srt fs jm nodes now"
  shows "get_job (snd (schedule_pass srt fs jm nodes now)) k =
    (case map_of (map (\<lambda>(job, n). (ji_job_id job, n)) (fst (pass_plan srt fs jm nodes now))) k of
       None \<Rightarrow> get_job jm k
     | Some n \<Rightarrow> map_option (status_update now JOB_STATUS_ASSIGNED n) (get_job jm k))"
  unfolding schedule_pass_plan [OF pass_readyD(1) [OF assms]]
  by (rule jobs.lookup_assigned) (rule pass_plan_distinct [OF assms])

lemma get_job_pass_cases:
  assumes "pass_ready srt fs jm nodes now"
  obtains (kept) "get_job (snd (schedule_pass srt fs jm nodes now)) k = get_job jm k"
      "\<And>job. get_job jm k = Some job \<Longrightarrow> job \<notin> fst ` set (fst (pass_plan srt fs jm nodes now))"
  | (moved) job n node where "(job, n) \<in> set (fst (pass_plan srt fs jm nodes now))"
      "get_job jm k = Some job" "ji_status job = JOB_STATUS_QUEUED"
      "get_node nodes n = Some node" "ni_status node = NODE_STATUS_ONLINE"
      "fits (spec_resources (ji_spec job)) (ni_available_resources node)"
      "get_job (snd (schedule_pass srt fs jm nodes now)) k = Some (status_update now JOB_STATUS_ASSIGNED n job)"
proof (cases "map_of (map (\<lambda>(job, n). (ji_job_id job, n)) (fst (pass_plan srt fs jm nodes now))) k")
  case None
  then have "k \<notin> ji_job_id ` fst ` set (fst (pass_plan srt fs jm nodes now))"
    by (force simp: map_of_eq_None_iff image_iff)
  moreover have "ji_job_id job = k" if "get_job jm k = Some job" for job
    using that pass_readyD(3) [OF assms] by (simp add: get_job_def keyed_map_of)
  ultimately show ?thesis
    using None by (intro kept) (auto simp: get_job_pass [OF assms])
next
  case (Some n)
  then obtain job where job: "(job, n) \<in> set (fst (pass_plan srt fs jm nodes now))" "ji_job_id job = k"
    by (auto dest!: map_of_SomeD)
  note sound = pass_plan_sound [OF assms job(1)]
  then show ?thesis
    using Some job by (auto simp: get_job_pass [OF assms] intro: moved)
qed

lemma pass_leaves_unfit:
  assumes "pass_ready srt fs jm nodes now"
    and "get_job (snd (schedule_pass srt fs jm nodes now)) k = Some job" "ji_status job = JOB_STATUS_QUEUED"
    and "node \<in> set (snd (pass_plan srt fs jm nodes now))"
  shows "\<not> fits (spec_resources (ji_spec job)) (ni_available_resources node)"
  using assms(1)
proof (cases rule: get_job_pass_cases [where jm = jm and nodes = nodes and fs = fs and now = now and k = k])
  case kept
  note wf = pass_readyD [OF assms(1)]
  from kept have job: "get_job jm k = Some job" using assms(2) by simp
  moreover have "ji_job_id job = k" using job wf(3) by (simp add: get_job_def keyed_map_of)
  ultimately have "job \<in> set (get_pending_jobs jm)"
    using assms(3) by (simp add: pending_keyed(1) [OF wf(3)])
  then show ?thesis using kept(2) [OF job] assms(4) by (rule pass_maximal [OF assms(1)])
next
  case (moved job' n node')
  then show ?thesis using assms(2,3) by auto
qed

section \<open>Properties\<close>

text \<open>A concrete cluster: one node with four cores, and jobs that ask for three.\<close>

definition three_core_spec :: job_spec where
  "three_core_spec = default_job_spec
     \<lparr>spec_resources := \<lparr>cpu_cores = 3, ram_mb = 1024, gpu_count = 0, disk_mb = 0\<rparr>\<rparr>"

definition ex_node :: node_info where
  "ex_node = default_node_info
     \<lparr>ni_node_id := ''node-1'', ni_status := NODE_STATUS_ONLINE,
      ni_available_resources := \<lparr>cpu_cores = 4, ram_mb = 8192, gpu_count = 0, disk_mb = 0\<rparr>\<rparr>"

definition ex_nodes :: node_registry where
  "ex_nodes = [(''node-1'', ex_node)]"

definition ex_job :: "string \<Rightarrow> unix_time \<Rightarrow> job_info" where
  "ex_job i t = new_job_info i t three_core_spec ''alice'' ''alice''"

definition ex_jobs :: "unit job_manager" where
  "ex_jobs = \<lparr>jm_jobs = [(''job-1'', ex_job ''job-1'' 10), (''job-2'', ex_job ''job-2'' 20)], jm_db = None\<rparr>"

definition ex_fs :: fair_share where
  "ex_fs = new_fair_share 24 0"

lemma ex_registry_ok: "registry_ok ex_nodes"
  by (auto simp: ex_nodes_def registry_ok_def keyed_def ex_node_def split: if_splits)

lemma ex_jobs_keyed: "jobs_keyed ex_jobs"
  by (auto simp: ex_jobs_def keyed_def ex_job_def)

lemma ex_node_simps [simp]:
  "get_node ex_nodes ''node-1'' = Some ex_node" "ni_status ex_node = NODE_STATUS_ONLINE"
  "ni_node_id ex_node = ''node-1''"
  by (simp_all add: ex_nodes_def get_node_def ex_node_def)

lemma ex_job_simps [simp]:
  "ji_job_id (ex_job i t) = i" "ji_status (ex_job i t) = JOB_STATUS_QUEUED"
  "ji_submitted_at (ex_job i t) = t" "ji_spec (ex_job i t) = three_core_spec"
  by (simp_all add: ex_job_def)

lemma schedule_before_default_prio:
  "spec_priority (ji_spec a) = 0 \<Longrightarrow> spec_priority (ji_spec b) = 0 \<Longrightarrow>
     schedule_before fs a b \<longleftrightarrow> ji_submitted_at a < ji_submitted_at b"
  by (simp add: schedule_before_def effective_prio_def)

lemma ex_ready: "pass_ready std_sort ex_fs ex_jobs ex_nodes 30"
proof -
  have "schedule_before fs a b \<longleftrightarrow> ji_submitted_at a < ji_submitted_at b"
    if "a \<in> set (get_pending_jobs ex_jobs)" "b \<in> set (get_pending_jobs ex_jobs)" for fs a b
    using that by (intro schedule_before_default_prio)
      (auto simp: get_pending_jobs_def list_jobs_def ex_jobs_def three_core_spec_def default_job_spec_def)
  then have "queue_comparable ex_fs ex_jobs 30"
    unfolding queue_comparable_def strict_weak_order_def by auto
  then show ?thesis
    by (simp add: pass_ready_def std.comparison_sort_axioms ex_jobs_keyed ex_registry_ok)
qed

lemma ex_plan:
  "pass_plan std_sort ex_fs ex_jobs ex_nodes 30 =
     ([(ex_job ''job-1'' 10, ''node-1'')], [deduct (spec_resources three_core_spec) ex_node])"
proof -
  have pending: "get_pending_jobs ex_jobs = [ex_job ''job-1'' 10, ex_job ''job-2'' 20]"
    by (simp add: get_pending_jobs_def list_jobs_def ex_jobs_def)
  have online: "online_nodes ex_nodes = [ex_node]"
    by (simp add: online_nodes_def get_all_nodes_def ex_nodes_def)
  have prio: "spec_priority three_core_spec = 0"
    by (simp add: three_core_spec_def default_job_spec_def)
  have sorted: "std_sort (schedule_before fs) [ex_job ''job-1'' 10, ex_job ''job-2'' 20]
      = [ex_job ''job-1'' 10, ex_job ''job-2'' 20]" for fs
    by (simp add: insertion_step_def schedule_before_default_prio prio)
  have fit: "fits (spec_resources three_core_spec) (ni_available_resources ex_node)"
    "\<not> fits (spec_resources three_core_spec)
       (ni_available_resources (deduct (spec_resources three_core_spec) ex_node))"
    by (simp_all add: fits_def deduct_def three_core_spec_def default_job_spec_def ex_node_def word_le_nat_alt)
  show ?thesis
    by (simp add: pass_plan_def pending online sorted fit del: std_sort.simps)
qed

text \<open>
  A scheduling pass changes a job only by assigning it: every job either keeps its entry, or
  was queued and is now \<open>ASSIGNED\<close>, otherwise unchanged, to a node that is registered, online
  and whose reported available resources cover the job's request.
\<close>

theorem schedule_pass_assigns:
  assumes "pass_ready srt fs jm nodes now"
  shows "get_job (snd (schedule_pass srt fs jm nodes now)) k = get_job jm k \<or>
    (\<exists>job n node. get_job jm k = Some job \<and> ji_status job = JOB_STATUS_QUEUED
       \<and> get_node nodes n = Some node \<and> ni_status node = NODE_STATUS_ONLINE
       \<and> fits (spec_resources (ji_spec job)) (ni_available_resources node)
       \<and> get_job (snd (schedule_pass srt fs jm nodes now)) k
          = Some (status_update now JOB_STATUS_ASSIGNED n job))"
  by (cases rule: get_job_pass_cases [OF assms, of k]) blast+

theorem schedule_pass_assigns_witness:
  "get_job (snd (schedule_pass std_sort ex_fs ex_jobs ex_nodes 30)) ''job-1''
     = Some (status_update 30 JOB_STATUS_ASSIGNED ''node-1'' (ex_job ''job-1'' 10))
   \<and> get_job (snd (schedule_pass std_sort ex_fs ex_jobs ex_nodes 30)) ''job-2'' = get_job ex_jobs ''job-2''"
  using schedule_pass_assigns [OF ex_ready, of "''job-1''"]
  by (simp add: get_job_pass [OF ex_ready] ex_plan) (simp add: ex_jobs_def get_job_def)

text \<open>
  C6: One pass never overcommits a node: the jobs it places on an online node together request
  at most the CPU, RAM and GPUs the node reported as available, counted in natural numbers, so
  none of the unsigned deductions wraps.
\<close>

theorem schedule_pass_no_overcommit:
  assumes "registry_ok nodes" "get_node nodes n = Some node" "ni_status node = NODE_STATUS_ONLINE"
    and "comparison_sort srt"
  shows "le_amounts (demand (fst (pass_plan srt fs jm nodes now)) n) (amounts_of (ni_available_resources node)) \<and>
    (snd (schedule_pass srt fs jm nodes now) =
      fold (\<lambda>(job, n) s. snd (update_job_status s now (ji_job_id job) JOB_STATUS_ASSIGNED n))
        (fst (pass_plan srt fs jm nodes now)) jm)"
  using pass_demand [OF assms(1-3)] schedule_pass_plan [OF assms(4)] by (auto simp: jobs.assigned_def)

theorem schedule_pass_no_overcommit_witness:
  "le_amounts (demand [(ex_job ''job-1'' 10, ''node-1'')] ''node-1'') (4, 8192, 0)"
  using schedule_pass_no_overcommit [THEN conjunct1, OF ex_registry_ok ex_node_simps(1,2) std.comparison_sort_axioms, of ex_fs ex_jobs 30]
  by (simp only: ex_plan fst_conv) (simp add: ex_node_def amounts_of_def)

text \<open>
  C7: A pass is maximal: a job that is still queued after it does not fit into what the pass
  left of any online node, where what is left is exactly what was available minus the requests
  placed there.
\<close>

theorem schedule_pass_maximal:
  assumes "pass_ready srt fs jm nodes now"
    and "get_job (snd (schedule_pass srt fs jm nodes now)) k = Some job" "ji_status job = JOB_STATUS_QUEUED"
    and "node \<in> set (snd (pass_plan srt fs jm nodes now))"
  shows "\<not> fits (spec_resources (ji_spec job)) (ni_available_resources node) \<and>
    list_all2 (drawn (demand (fst (pass_plan srt fs jm nodes now)))) (online_nodes nodes)
      (snd (pass_plan srt fs jm nodes now))"
proof (rule conj_goals(1); (intro impI)?)
  show "\<not> fits (spec_resources (ji_spec job)) (ni_available_resources node)"
    using assms by (rule pass_leaves_unfit)
  show "list_all2 (drawn (demand (fst (pass_plan srt fs jm nodes now)))) (online_nodes nodes)
      (snd (pass_plan srt fs jm nodes now))"
    unfolding pass_plan_def
    by (rule placements_drawn [OF _ distinct_online_nodes [OF pass_readyD(4) [OF assms(1)]]]) simp
qed

theorem schedule_pass_maximal_witness:
  "\<not> fits (spec_resources three_core_spec)
     (ni_available_resources (deduct (spec_resources three_core_spec) ex_node))"
proof -
  have "get_job (snd (schedule_pass std_sort ex_fs ex_jobs ex_nodes 30)) ''job-2'' = Some (ex_job ''job-2'' 20)"
    by (simp add: get_job_pass [OF ex_ready] ex_plan) (simp add: ex_jobs_def get_job_def)
  from schedule_pass_maximal [THEN conjunct1, OF ex_ready this]
  show ?thesis by (simp add: ex_plan)
qed

section \<open>When the comparator is an order\<close>

lemma gap_order:
  assumes gap: "\<And>a b. a \<in> S \<Longrightarrow> b \<in> S \<Longrightarrow>
      effective_prio fs a = effective_prio fs b \<or> \<bar>effective_prio fs a - effective_prio fs b\<bar> > 1 / 10"
    and "a \<in> S" "b \<in> S"
  shows "schedule_before fs a b \<longleftrightarrow> effective_prio fs a > effective_prio fs b
    \<or> effective_prio fs a = effective_prio fs b \<and> ji_submitted_at a < ji_submitted_at b"
  using gap [OF assms(2,3)] by (auto simp: schedule_before_def Let_def)

lemma gap_comparable:
  assumes gap: "\<And>a b. a \<in> S \<Longrightarrow> b \<in> S \<Longrightarrow>
      effective_prio fs a = effective_prio fs b \<or> \<bar>effective_prio fs a - effective_prio fs b\<bar> > 1 / 10"
  shows "strict_weak_order (schedule_before fs) S"
  unfolding strict_weak_order_def using gap_order [OF gap] by auto

lemma whole_gap: "\<bar>real_of_int i - real_of_int j\<bar> > 1 / 10 \<longleftrightarrow> i \<noteq> j"
proof
  assume "i \<noteq> j"
  then have "1 \<le> \<bar>i - j\<bar>" by simp
  then have "1 \<le> \<bar>real_of_int i - real_of_int j\<bar>" by linarith
  then show "\<bar>real_of_int i - real_of_int j\<bar> > 1 / 10" by linarith
qed auto

lemma whole_order:
  assumes "effective_prio fs a = real_of_int i" "effective_prio fs b = real_of_int j"
  shows "schedule_before fs a b \<longleftrightarrow> (if i \<noteq> j then i > j else ji_submitted_at a < ji_submitted_at b)"
  using whole_gap [of i j] by (auto simp: schedule_before_def Let_def assms)

lemma whole_priorities_gap:
  assumes "\<forall>a\<in>S. usage_of fs (ji_user_id a) \<le> 0" "a \<in> S" "b \<in> S"
  shows "effective_prio fs a = effective_prio fs b \<or> \<bar>effective_prio fs a - effective_prio fs b\<bar> > 1 / 10"
proof -
  have "effective_prio fs x = real_of_int (sint (spec_priority (ji_spec x)))" if "x \<in> S" for x
    using that assms(1)
    by (simp add: effective_prio_def get_priority_factor_usage factor_of_usage_def)
  then show ?thesis
    using assms(2,3) whole_gap [of "sint (spec_priority (ji_spec a))" "sint (spec_priority (ji_spec b))"]
    by (auto simp del: of_int_sint)
qed

lemma usage_decay_sign: "fair_share_ok fs \<Longrightarrow> usage_of (apply_decay fs now) u \<le> 0 \<longleftrightarrow> usage_of fs u \<le> 0"
  by (simp add: usage_decay mult_le_0_iff)

lemma no_usage_comparable:
  assumes "fair_share_ok fs" "\<forall>u. usage_of fs u \<le> 0"
  shows "queue_comparable fs jm now"
  unfolding queue_comparable_def
  by (rule gap_comparable, rule whole_priorities_gap)
     (use assms in \<open>simp_all add: usage_decay_sign\<close>)

text \<open>
  As long as no user has positive recorded usage the comparator is a strict weak order on any
  queue, and the queue a pass works through is the queued jobs, in descending order of their own
  priority and, within one priority, in the order of submission.
\<close>

theorem queue_served_by_priority:
  assumes "comparison_sort srt" "fair_share_ok fs" "\<forall>u. usage_of fs u \<le> 0"
  shows "queue_comparable fs jm now \<and>
    mset (srt (schedule_before (apply_decay fs now)) (get_pending_jobs jm)) = mset (get_pending_jobs jm) \<and>
    (sorted_wrt (\<lambda>a b. sint (spec_priority (ji_spec a)) > sint (spec_priority (ji_spec b))
        \<or> sint (spec_priority (ji_spec a)) = sint (spec_priority (ji_spec b))
          \<and> ji_submitted_at a \<le> ji_submitted_at b)
      (srt (schedule_before (apply_decay fs now)) (get_pending_jobs jm)))"
proof (rule conj_goals(2); (intro impI)?)
  let ?fs = "apply_decay fs now"
  let ?q = "srt (schedule_before ?fs) (get_pending_jobs jm)"
  show comparable: "queue_comparable fs jm now"
    using assms(2,3) by (rule no_usage_comparable)
  show "mset ?q = mset (get_pending_jobs jm)"
    using comparable comparison_sort.sort_perm [OF assms(1)] by (simp add: queue_comparable_def)
  have prio: "effective_prio ?fs x = real_of_int (sint (spec_priority (ji_spec x)))" for x
    using assms(2,3)
    by (simp add: effective_prio_def get_priority_factor_usage factor_of_usage_def usage_decay_sign)
  have "sorted_wrt (\<lambda>a b. \<not> schedule_before ?fs b a) ?q"
    using comparable comparison_sort.sort_order [OF assms(1)]
    by (simp add: queue_comparable_def in_order_def)
  then show "sorted_wrt (\<lambda>a b. sint (spec_priority (ji_spec a)) > sint (spec_priority (ji_spec b))
        \<or> sint (spec_priority (ji_spec a)) = sint (spec_priority (ji_spec b))
          \<and> ji_submitted_at a \<le> ji_submitted_at b) ?q"
    by (rule sorted_wrt_mono_rel [rotated])
       (use whole_order [OF prio prio] in \<open>auto split: if_splits\<close>)
qed

theorem queue_served_by_priority_witness:
  "queue_comparable ex_fs ex_jobs 30"
  by (rule queue_served_by_priority [THEN conjunct1, OF std.comparison_sort_axioms])
     (simp_all add: ex_fs_def new_fair_share_ok usage_of_def, simp add: new_fair_share_def)

text \<open>Three users whose factors are 1, 15/16 and 7/8.\<close>

definition cycle_fs :: fair_share where
  "cycle_fs = add_usage (add_usage (new_fair_share 24 0) ''b'' (3600 * (exp (1 / 15) - 1)))
     ''c'' (3600 * (exp (1 / 7) - 1))"

definition cycle_job :: "string \<Rightarrow> unix_time \<Rightarrow> job_info" where
  "cycle_job u t = new_job_info (''job-'' @ u) t (default_job_spec\<lparr>spec_priority := 1\<rparr>) u u"

lemma factor_exp: "0 < x \<Longrightarrow> factor_of_usage (3600 * (exp x - 1)) = 1 / (1 + x)"
proof -
  assume "0 < x"
  moreover have "1 + 3600 * (exp x - 1) / 3600 = exp x" by (simp add: field_simps)
  ultimately show ?thesis by (simp add: factor_of_usage_def del: right_diff_distrib')
qed

lemma cycle_prio:
  "effective_prio cycle_fs (cycle_job ''a'' t) = 1"
  "effective_prio cycle_fs (cycle_job ''b'' t) = 15 / 16"
  "effective_prio cycle_fs (cycle_job ''c'' t) = 7 / 8"
proof -
  have "usage_of cycle_fs ''a'' = 0" "usage_of cycle_fs ''b'' = 3600 * (exp (1 / 15) - 1)"
    "usage_of cycle_fs ''c'' = 3600 * (exp (1 / 7) - 1)"
    by (simp_all add: cycle_fs_def) (simp_all add: new_fair_share_def usage_of_def)
  moreover have "factor_of_usage 0 = 1" by (simp add: factor_of_usage_def)
  ultimately show "effective_prio cycle_fs (cycle_job ''a'' t) = 1"
    "effective_prio cycle_fs (cycle_job ''b'' t) = 15 / 16"
    "effective_prio cycle_fs (cycle_job ''c'' t) = 7 / 8"
    using factor_exp [of "1 / 15"] factor_exp [of "1 / 7"]
    by (simp_all add: effective_prio_def cycle_job_def get_priority_factor_usage del: right_diff_distrib')
qed

text \<open>
  With recorded usage the tolerance of 0.1 makes the comparator cyclic: three jobs of equal
  priority by users with factors 1, 15/16 and 7/8 are each before the next, around in a circle,
  so the comparator is no strict weak order and \<open>std::sort\<close> promises nothing for that queue.
\<close>

theorem comparator_cycle:
  "schedule_before cycle_fs (cycle_job ''c'' 1) (cycle_job ''b'' 2) \<and>
    schedule_before cycle_fs (cycle_job ''b'' 2) (cycle_job ''a'' 3) \<and>
    schedule_before cycle_fs (cycle_job ''a'' 3) (cycle_job ''c'' 1) \<and>
    \<not> strict_weak_order (schedule_before cycle_fs)
       {cycle_job ''a'' 3, cycle_job ''b'' 2, cycle_job ''c'' 1}"
proof (rule conj_goals(3); (intro impI)?)
  have time: "ji_submitted_at (cycle_job u t) = t" for u t
    by (simp add: cycle_job_def)
  show *: "schedule_before cycle_fs (cycle_job ''c'' 1) (cycle_job ''b'' 2)"
    "schedule_before cycle_fs (cycle_job ''b'' 2) (cycle_job ''a'' 3)"
    "schedule_before cycle_fs (cycle_job ''a'' 3) (cycle_job ''c'' 1)"
    by (simp_all add: schedule_before_def Let_def cycle_prio time)
  show "\<not> strict_weak_order (schedule_before cycle_fs)
       {cycle_job ''a'' 3, cycle_job ''b'' 2, cycle_job ''c'' 1}"
  proof
    let ?S = "{cycle_job ''a'' 3, cycle_job ''b'' 2, cycle_job ''c'' 1}"
    assume swo: "strict_weak_order (schedule_before cycle_fs) ?S"
    have "\<not> schedule_before cycle_fs (cycle_job ''a'' 3) (cycle_job ''c'' 1)"
      by (rule swo_trans [OF swo, of _ "cycle_job ''b'' 2"]) (use * swo_asym [OF swo] in auto)
    with * show False by simp
  qed
qed

definition after_one_pass :: "unit job_manager" where
  "after_one_pass = snd (schedule_pass std_sort ex_fs ex_jobs ex_nodes 30)"

definition after_two_passes :: "unit job_manager" where
  "after_two_passes = snd (schedule_pass std_sort ex_fs after_one_pass ex_nodes 31)"

text \<open>
  Reservations do not survive a pass: the deductions are made on a local copy of the nodes, so
  without a heartbeat in between two passes can give a node with four cores two jobs of three
  cores each, which one pass refuses.
\<close>

theorem reservations_forgotten:
  "cpu_cores (ni_available_resources ex_node) = 4 \<and>
    cpu_cores (spec_resources three_core_spec) = 3 \<and>
    map_option ji_status (get_job after_one_pass ''job-2'') = Some JOB_STATUS_QUEUED \<and>
    map_option ji_assigned_node_id (get_job after_two_passes ''job-1'') = Some ''node-1'' \<and>
    map_option ji_assigned_node_id (get_job after_two_passes ''job-2'') = Some ''node-1'' \<and>
    map_option ji_status (get_job after_two_passes ''job-1'') = Some JOB_STATUS_ASSIGNED \<and>
    map_option ji_status (get_job after_two_passes ''job-2'') = Some JOB_STATUS_ASSIGNED"
proof (rule conj_goals(6); (intro impI)?)
  have one: "after_one_pass = \<lparr>jm_jobs =
      [(''job-1'', status_update 30 JOB_STATUS_ASSIGNED ''node-1'' (ex_job ''job-1'' 10)),
       (''job-2'', ex_job ''job-2'' 20)], jm_db = None\<rparr>"
    by (simp add: after_one_pass_def schedule_pass_plan std.comparison_sort_axioms ex_plan jobs.assigned_def
        update_job_status_def) (simp add: ex_jobs_def)
  have pending: "get_pending_jobs after_one_pass = [ex_job ''job-2'' 20]"
    by (simp add: get_pending_jobs_def list_jobs_def one)
  have online: "online_nodes ex_nodes = [ex_node]"
    by (simp add: online_nodes_def get_all_nodes_def ex_nodes_def)
  have fit: "fits (spec_resources three_core_spec) (ni_available_resources ex_node)"
    by (simp add: fits_def three_core_spec_def ex_node_def word_le_nat_alt)
  have two: "after_two_passes = snd (update_job_status after_one_pass 31 ''job-2'' JOB_STATUS_ASSIGNED ''node-1'')"
    by (simp add: after_two_passes_def schedule_pass_def Let_def pending online fit)
  show "cpu_cores (ni_available_resources ex_node) = 4"
    "cpu_cores (spec_resources three_core_spec) = 3"
    by (simp_all add: ex_node_def three_core_spec_def)
  show "map_option ji_status (get_job after_one_pass ''job-2'') = Some JOB_STATUS_QUEUED"
    "map_option ji_assigned_node_id (get_job after_two_passes ''job-1'') = Some ''node-1''"
    "map_option ji_assigned_node_id (get_job after_two_passes ''job-2'') = Some ''node-1''"
    "map_option ji_status (get_job after_two_passes ''job-1'') = Some JOB_STATUS_ASSIGNED"
    "map_option ji_status (get_job after_two_passes ''job-2'') = Some JOB_STATUS_ASSIGNED"
    by (simp_all add: two job_simps) (simp_all add: one get_job_def)
qed

end
