(* ===== verification/Master_Service.thy ===== *)
theory Master_Service
  imports Job_Manager Node_Registry Fair_Share
begin

text \<open>
  \<open>MasterServiceImpl\<close> (\<open>master/src/grpc_service.cpp\<close>): the RPCs of users, administrators and
  the public.  A handler takes the request and the shared components and returns the status, the
  response and the components afterwards.  SQLite is the parameter \<open>api\<close>; protobuf's JSON
  conversion is a pair of parameters, \<open>to_json\<close> (\<open>None\<close> on an error status) and \<open>of_json\<close>
  (whether it succeeded, and the message with the fields set so far).  \<open>rand()\<close>, the clock and
  the UUIDs are arguments.
\<close>

section \<open>The shared components and the messages\<close>

record 'db master =
  job_mgr :: "'db job_manager"
  node_reg :: node_registry
  admin_db :: 'db
  fair_share_mgr :: fair_share

record credentials =
  cr_username :: string
  cr_password :: string

record create_user_request =
  cu_username :: string
  cu_password :: string
  cu_role :: user_role

record review_request =
  rv_request_id :: string
  rv_approve :: bool
  rv_comment :: string

type_synonym metadata = "(string \<times> string) list"

section \<open>Users\<close>

definition login :: "'db sqlite_api \<Rightarrow> 'db master \<Rightarrow> credentials \<Rightarrow> grpc_status \<times> auth_token" where
  "login api m request =
     (let db_pass = get_kv api (admin_db m) (''user:'' @ cr_username request)
      in if db_pass \<noteq> None \<and> the db_pass = cr_password request
         then let db_role = get_kv api (admin_db m) (''role:'' @ cr_username request);
                  role = (if db_role \<noteq> None \<and> the db_role = ''admin''
                          then USER_ROLE_ADMIN else USER_ROLE_USER)
              in (Status_OK, default_auth_token
                   \<lparr>at_access_token := ''mock-jwt-for-'' @ cr_username request,
                    at_token_type := ''Bearer'',
                    at_user := default_user_info
                      \<lparr>ui_username := cr_username request, ui_role := role\<rparr>\<rparr>)
         else (Status_error UNAUTHENTICATED ''Invalid credentials'', default_auth_token))"

definition create_user ::
  "'db sqlite_api \<Rightarrow> 'db master \<Rightarrow> unix_time \<Rightarrow> create_user_request
     \<Rightarrow> grpc_status \<times> user_info \<times> 'db master" where
  "create_user api m now request =
     (let username = cu_username request; password = cu_password request;
          role = (if cu_role request = USER_ROLE_ADMIN then ''admin'' else ''user'')
      in if get_kv api (admin_db m) (''user:'' @ username) \<noteq> None
         then (Status_error ALREADY_EXISTS ''User already exists'', default_user_info, m)
         else let db1 = snd (set_kv api (admin_db m) (''user:'' @ username) password);
                  db2 = snd (set_kv api db1 (''role:'' @ username) role);
                  user_list = (case get_kv api db2 ''system:user_list'' of
                                 None \<Rightarrow> ''admin,user1'' | Some l \<Rightarrow> l);
                  db3 = (if str_find username user_list = None
                         then snd (set_kv api db2 ''system:user_list'' (user_list @ '','' @ username))
                         else db2)
              in (Status_OK,
                  default_user_info\<lparr>ui_username := username, ui_role := cu_role request,
                    ui_created_at := now\<rparr>,
                  m\<lparr>admin_db := db3\<rparr>))"

definition listed_users :: "'db sqlite_api \<Rightarrow> 'db master \<Rightarrow> string list" where
  "listed_users api m =
     (case get_kv api (admin_db m) ''system:user_list'' of
        None \<Rightarrow> [''admin'', ''user1'']
      | Some l \<Rightarrow> filter (\<lambda>u. u \<noteq> '''') (getline_all CHR '','' l))"

definition admin_list_users :: "'db sqlite_api \<Rightarrow> 'db master \<Rightarrow> grpc_status \<times> user_info list" where
  "admin_list_users api m =
     (Status_OK,
      map (\<lambda>uname. default_user_info\<lparr>ui_username := uname,
             ui_role := (if get_kv api (admin_db m) (''role:'' @ uname) = Some ''admin''
                         then USER_ROLE_ADMIN else USER_ROLE_USER)\<rparr>)
        (listed_users api m))"

definition admin_delete_user :: "'db master \<Rightarrow> string \<Rightarrow> grpc_status \<times> status_response \<times> 'db master" where
  "admin_delete_user m user_id =
     (if user_id = ''admin''
      then (Status_error PERMISSION_DENIED ''Cannot delete root admin'', default_status_response, m)
      else (Status_OK, default_status_response\<lparr>sr_success := True, sr_message := ''User deleted''\<rparr>, m))"

section \<open>Jobs and nodes\<close>

definition get_job_status :: "'db master \<Rightarrow> string \<Rightarrow> grpc_status \<times> job_info" where
  "get_job_status m job_id =
     (case get_job (job_mgr m) job_id of
        Some job \<Rightarrow> (Status_OK, job)
      | None \<Rightarrow> (Status_error NOT_FOUND ''Job not found'', default_job_info))"

text \<open>The user a request is attributed to: what follows the marker in the header.\<close>

definition caller_of :: "metadata \<Rightarrow> string" where
  "caller_of metadata =
     (case map_of metadata ''authorization'' of
        None \<Rightarrow> ''unknown''
      | Some auth \<Rightarrow>
          (case str_find ''mock-jwt-for-'' auth of
             None \<Rightarrow> ''unknown''
           | Some i \<Rightarrow> drop (i + 13) auth))"

definition submit_job_rpc ::
  "'db sqlite_api \<Rightarrow> 'db master \<Rightarrow> string \<Rightarrow> unix_time \<Rightarrow> metadata \<Rightarrow> job_spec
     \<Rightarrow> grpc_status \<times> job_info \<times> 'db master" where
  "submit_job_rpc api m uuid now metadata spec =
     (let username = caller_of metadata;
          (job_id, jm) = submit_job (set_kv api) (job_mgr m) uuid now spec username username;
          m' = m\<lparr>job_mgr := jm\<rparr>
      in case get_job jm job_id of
           Some job \<Rightarrow> (Status_OK, job, m')
         | None \<Rightarrow> (Status_error INTERNAL ''Failed to retrieve submitted job'', default_job_info, m'))"

definition cancel_job_rpc ::
  "'db master \<Rightarrow> unix_time \<Rightarrow> string \<Rightarrow> grpc_status \<times> status_response \<times> 'db master" where
  "cancel_job_rpc m now job_id =
     (let (ok, jm) = cancel_job (job_mgr m) now job_id
      in (Status_OK,
          default_status_response\<lparr>sr_success := ok,
            sr_message := (if \<not> ok then ''Failed to cancel job or job not found''
                           else ''Job marked for cancellation'')\<rparr>,
          m\<lparr>job_mgr := jm\<rparr>))"

definition list_nodes_rpc :: "'db master \<Rightarrow> grpc_status \<times> node_info list" where
  "list_nodes_rpc m = (Status_OK, get_all_nodes (node_reg m))"

definition list_jobs_rpc :: "'db master \<Rightarrow> job_status \<Rightarrow> grpc_status \<times> job_info list \<times> u32" where
  "list_jobs_rpc m status_filter =
     (let jobs = list_jobs (job_mgr m) status_filter in (Status_OK, jobs, of_nat (length jobs)))"

section \<open>Public job requests\<close>

definition request_id_of :: "unix_time \<Rightarrow> nat \<Rightarrow> string" where
  "request_id_of now rnd = ''req-'' @ to_string (nat now) @ ''-'' @ to_string (rnd mod 1000)"

definition submit_public_request ::
  "'db sqlite_api \<Rightarrow> (job_request \<Rightarrow> string option) \<Rightarrow> 'db master \<Rightarrow> unix_time \<Rightarrow> nat \<Rightarrow> job_request
     \<Rightarrow> grpc_status \<times> status_response \<times> 'db master" where
  "submit_public_request api to_json m now rnd request =
     (let req = (if jr_request_id request = ''''
                 then request\<lparr>jr_request_id := request_id_of now rnd\<rparr> else request);
          req = req\<lparr>jr_submitted_at := now, jr_status := JOB_REQUEST_PENDING\<rparr>
      in case to_json req of
           None \<Rightarrow> (Status_OK, default_status_response\<lparr>sr_message := ''Failed to serialize request''\<rparr>, m)
         | Some json_data \<Rightarrow>
             (let (ok, db) = add_job_request api (admin_db m) (jr_request_id req)
                    (jr_applicant_email req) (job_request_status_number (jr_status req)) json_data
              in if ok
                 then (Status_OK, default_status_response\<lparr>sr_success := True,
                         sr_message := jr_request_id req\<rparr>, m\<lparr>admin_db := db\<rparr>)
                 else (Status_OK, default_status_response
                         \<lparr>sr_message := ''Failed to store request in database''\<rparr>, m\<lparr>admin_db := db\<rparr>)))"

text \<open>The search loop of the two handlers below; an empty string stands for "not found".\<close>

definition target_json :: "'db sqlite_api \<Rightarrow> 'db \<Rightarrow> string \<Rightarrow> string" where
  "target_json api db request_id =
     (case find (\<lambda>r. fst r = request_id) (list_requests api db) of None \<Rightarrow> '''' | Some r \<Rightarrow> snd r)"

definition update_job_request ::
  "'db sqlite_api \<Rightarrow> (job_request \<Rightarrow> string option) \<Rightarrow> (string \<Rightarrow> bool \<times> job_request)
     \<Rightarrow> 'db master \<Rightarrow> job_request \<Rightarrow> grpc_status \<times> status_response \<times> 'db master" where
  "update_job_request api to_json of_json m request =
     (let target = target_json api (admin_db m) (jr_request_id request)
      in if target = ''''
         then (Status_OK, default_status_response\<lparr>sr_message := ''Request not found''\<rparr>, m)
         else let (parsed, req) = of_json target
              in if \<not> parsed
                 then (Status_OK, default_status_response\<lparr>sr_message := ''Failed to parse request''\<rparr>, m)
                 else let archive = spec_archive_path (jr_requested_spec request);
                          req = (if archive \<noteq> ''''
                                 then req\<lparr>jr_requested_spec :=
                                        (jr_requested_spec req)\<lparr>spec_archive_path := archive\<rparr>\<rparr>
                                 else req)
                      in case to_json req of
                           None \<Rightarrow> (Status_OK,
                             default_status_response\<lparr>sr_message := ''Failed to serialize update''\<rparr>, m)
                         | Some json_data \<Rightarrow>
                             (Status_OK, default_status_response\<lparr>sr_success := True\<rparr>,
                              m\<lparr>admin_db := snd (update_request_status api (admin_db m)
                                  (jr_request_id req) (job_request_status_number (jr_status req))
                                  json_data)\<rparr>))"

text \<open>A request that does not parse is still listed, with the fields set before the error.\<close>

definition admin_list_requests ::
  "'db sqlite_api \<Rightarrow> (string \<Rightarrow> bool \<times> job_request) \<Rightarrow> 'db master \<Rightarrow> grpc_status \<times> job_request list" where
  "admin_list_requests api of_json m =
     (Status_OK, map (\<lambda>r. snd (of_json (snd r))) (list_requests api (admin_db m)))"

definition admin_review_request ::
  "'db sqlite_api \<Rightarrow> (job_request \<Rightarrow> string option) \<Rightarrow> (string \<Rightarrow> bool \<times> job_request)
     \<Rightarrow> 'db master \<Rightarrow> string \<Rightarrow> unix_time \<Rightarrow> review_request
     \<Rightarrow> grpc_status \<times> status_response \<times> 'db master" where
  "admin_review_request api to_json of_json m uuid now request =
     (let target = target_json api (admin_db m) (rv_request_id request)
      in if target = ''''
         then (Status_error NOT_FOUND ''Request not found'', default_status_response, m)
         else let (parsed, req) = of_json target
              in if \<not> parsed
                 then (Status_error INTERNAL ''Failed to parse stored request'', default_status_response, m)
                 else let req = req\<lparr>jr_reviewed_at := now, jr_review_comment := rv_comment request\<rparr>;
                          (req, m1) =
                            (if rv_approve request
                             then (req\<lparr>jr_status := JOB_REQUEST_APPROVED\<rparr>,
                                   m\<lparr>job_mgr := snd (submit_job (set_kv api) (job_mgr m) uuid now
                                       (jr_requested_spec req) ''public-user'' (jr_applicant_name req))\<rparr>)
                             else (req\<lparr>jr_status := JOB_REQUEST_REJECTED\<rparr>, m))
                      in case to_json req of
                           None \<Rightarrow> (Status_error INTERNAL ''Failed to serialize request'',
                             default_status_response, m1)
                         | Some json_data \<Rightarrow>
                             (Status_OK,
                              default_status_response\<lparr>sr_success := True,
                                sr_message := (if rv_approve request
                                  then ''Request approved and job scheduled'' else ''Request rejected'')\<rparr>,
                              m1\<lparr>admin_db := snd (update_request_status api (admin_db m1)
                                  (jr_request_id req) (job_request_status_number (jr_status req))
                                  json_data)\<rparr>))"

section \<open>What the user handlers leave in the store\<close>

text \<open>The store accepts every plain pair.\<close>

definition writes_succeed :: "'db sqlite_api \<Rightarrow> bool" where
  "writes_succeed api \<longleftrightarrow> (\<forall>db k v. plain k \<and> plain v \<longrightarrow> fst (set_kv api db k v))"

text \<open>The user list, if present, can be written back.\<close>

definition user_list_plain :: "'db sqlite_api \<Rightarrow> 'db master \<Rightarrow> bool" where
  "user_list_plain api m \<longleftrightarrow>
     (\<forall>l. get_kv api (admin_db m) ''system:user_list'' = Some l \<longrightarrow> plain l)"

definition role_name :: "user_role \<Rightarrow> string" where
  "role_name r = (if r = USER_ROLE_ADMIN then ''admin'' else ''user'')"

abbreviation user_list_of :: "'db sqlite_api \<Rightarrow> 'db master \<Rightarrow> string" where
  "user_list_of api m \<equiv>
     (case get_kv api (admin_db m) ''system:user_list'' of None \<Rightarrow> ''admin,user1'' | Some l \<Rightarrow> l)"

lemma plain_literals [simp]:
  "plain ''user:''" "plain ''role:''" "plain ''system:user_list''" "plain ''admin''" "plain ''user''"
  "plain ''admin,user1''" "plain '',''" "plain ''''"
  "plain (c # cs) \<longleftrightarrow> c \<noteq> CHR 0x27 \<and> c \<noteq> CHR 0x00 \<and> plain cs"
  by (auto simp: plain_def)

lemma key_literals [simp]:
  "''user:'' @ u \<noteq> ''role:'' @ v" "''role:'' @ v \<noteq> ''user:'' @ u"
  "''user:'' @ u \<noteq> ''system:user_list''" "''role:'' @ u \<noteq> ''system:user_list''"
  "''system:user_list'' \<noteq> ''user:'' @ u" "''system:user_list'' \<noteq> ''role:'' @ u"
  by simp_all

lemma create_user_reads:
  assumes store: "kv_store (get_kv api) (set_kv api) plain" and ok: "writes_succeed api"
    and plain: "plain u" "plain p" "user_list_plain api m"
    and created: "create_user api m now \<lparr>cu_username = u, cu_password = p, cu_role = role\<rparr> = (st, info, m')"
      "status_ok st"
    and k: "plain k"
  shows "get_kv api (admin_db m') k =
    (if k = ''user:'' @ u then Some p
     else if k = ''role:'' @ u then Some (role_name role)
     else if k = ''system:user_list'' \<and> str_find u (user_list_of api m) = None
     then Some (user_list_of api m @ '','' @ u)
     else get_kv api (admin_db m) k)"
proof -
  have put: "get_kv api (snd (set_kv api db k v)) k' = (if k' = k then Some v else get_kv api db k')"
    if "plain k" "plain v" "plain k'" for db k v k'
    using kv_store.get_after_any [OF store that] ok that by (simp add: writes_succeed_def)
  have role: "plain (role_name role)" by (simp add: role_name_def plain_def)
  have list: "plain (user_list_of api m)"
    using plain(3) by (auto simp: user_list_plain_def plain_def split: option.split)
  have "get_kv api (admin_db m) (''user:'' @ u) = None"
    using created by (auto simp: create_user_def Let_def split: if_splits)
  moreover have "m' = snd (snd (create_user api m now \<lparr>cu_username = u, cu_password = p, cu_role = role\<rparr>))"
    by (simp add: created(1))
  ultimately show ?thesis
    using plain(1,2) role list k
    by (simp add: create_user_def role_name_def [symmetric] Let_def put split del: if_split
        cong: if_cong)
       (simp add: put)
qed

text \<open>What \<open>login\<close> looks at.\<close>

lemma login_ok_iff:
  "status_ok (fst (login api m c)) \<longleftrightarrow>
     get_kv api (admin_db m) (''user:'' @ cr_username c) = Some (cr_password c)"
  by (auto simp: login_def Let_def)

lemma login_cong:
  assumes "get_kv api (admin_db m) (''user:'' @ cr_username c) = get_kv api (admin_db m') (''user:'' @ cr_username c)"
    and "get_kv api (admin_db m) (''role:'' @ cr_username c) = get_kv api (admin_db m') (''role:'' @ cr_username c)"
  shows "login api m c = login api m' c"
  using assms by (simp add: login_def Let_def)

lemma login_token:
  assumes "status_ok (fst (login api m c))"
  shows "at_access_token (snd (login api m c)) = ''mock-jwt-for-'' @ cr_username c"
    and "ui_username (at_user (snd (login api m c))) = cr_username c"
    and "ui_role (at_user (snd (login api m c))) =
      (if get_kv api (admin_db m) (''role:'' @ cr_username c) = Some ''admin''
       then USER_ROLE_ADMIN else USER_ROLE_USER)"
  using assms by (auto simp: login_ok_iff) (auto simp: login_def Let_def)

lemma create_user_status:
  "status_ok (fst (create_user api m now r)) \<longleftrightarrow>
     get_kv api (admin_db m) (''user:'' @ cu_username r) = None"
  by (simp add: create_user_def Let_def)

lemma create_user_refused:
  "\<not> status_ok (fst (create_user api m now r)) \<Longrightarrow> snd (snd (create_user api m now r)) = m"
  by (auto simp: create_user_def Let_def)

section \<open>Properties of the user handlers\<close>

text \<open>The seeded store of the master's constructor over the reference engine.\<close>

definition ref_master :: "tables master" where
  "ref_master = \<lparr>job_mgr = new_job_manager (Some no_tables), node_reg = [],
     admin_db = no_tables\<lparr>t_kv := [(''user:admin'', ''admin123''), (''role:admin'', ''admin''),
       (''user:user1'', ''user123''), (''role:user1'', ''user''), (''system:user_list'', ''admin,user1'')]\<rparr>,
     fair_share_mgr = new_fair_share 168 0\<rparr>"

lemma ref_kv [simp]: "plain k \<Longrightarrow> get_kv ref_api t k = map_of (t_kv t) k"
  by (rule ref.get_kv_eq)

lemma ref_writes_succeed: "writes_succeed ref_api"
  by (simp add: writes_succeed_def set_kv_def execute_def ref_api_def ref_exec_def parse_set_kv_sql)

lemma ref_user_list_plain: "user_list_plain ref_api ref_master"
  by (auto simp: user_list_plain_def ref_master_def)



text \<open>
  The user list after a creation: a name that occurs in the text of the list, as a name or
  only as a part of one, is not added; any other name is appended as the last one.  So a fresh
  user whose name is part of the text (\<open>user\<close> beside \<open>user1\<close>) has an account but is not listed.
\<close>

theorem create_user_listing:
  assumes store: "kv_store (get_kv api) (set_kv api) plain" "writes_succeed api"
    and plain: "plain u" "plain p" "user_list_plain api m"
    and created: "create_user api m now \<lparr>cu_username = u, cu_password = p, cu_role = role\<rparr> = (st, info, m')"
      "status_ok st"
    and list: "get_kv api (admin_db m) ''system:user_list'' = Some (join_with CHR '','' names)" "names \<noteq> []"
      "\<forall>n\<in>set names. CHR '','' \<notin> set n \<and> n \<noteq> ''''"
    and u: "CHR '','' \<notin> set u" "u \<noteq> ''''"
  shows "listed_users api m = names \<and>
    (listed_users api m' = (if sublist u (join_with CHR '','' names) then names else names @ [u]))"
proof (rule conj_goals(1); (intro impI)?)
  have pieces: "filter (\<lambda>u. u \<noteq> '''') (getline_all CHR '','' (join_with CHR '','' ns)) = ns"
    if "\<forall>n\<in>set ns. CHR '','' \<notin> set n \<and> n \<noteq> ''''" for ns
    using that by (simp add: getline_all_join)
  show "listed_users api m = names"
    by (simp add: listed_users_def list(1) pieces [OF list(3)])
  have "get_kv api (admin_db m') ''system:user_list'' =
      Some (join_with CHR '','' (if sublist u (join_with CHR '','' names) then names else names @ [u]))"
    using create_user_reads [OF store plain created, of "''system:user_list''"]
    by (simp add: list(1) join_with_snoc [OF list(2)] str_find_None)
  then show "listed_users api m' = (if sublist u (join_with CHR '','' names) then names else names @ [u])"
    using list(3) u by (simp add: listed_users_def pieces)
qed

theorem create_user_listing_witness:
  "listed_users ref_api (snd (snd (create_user ref_api ref_master 5
      \<lparr>cu_username = ''user'', cu_password = ''pw'', cu_role = USER_ROLE_USER\<rparr>))) = [''admin'', ''user1'']"
proof -
  let ?r = "\<lparr>cu_username = ''user'', cu_password = ''pw'', cu_role = USER_ROLE_USER\<rparr>"
  have "status_ok (fst (create_user ref_api ref_master 5 ?r))"
    by (simp add: create_user_status ref_master_def)
  moreover have "get_kv ref_api (admin_db ref_master) ''system:user_list''
      = Some (join_with CHR '','' [''admin'', ''user1''])"
    by (simp add: ref_master_def)
  moreover have "sublist ''user'' (''admin,'' @ ''user'' @ ''1'')"
    by (rule sublist_appendI)
  ultimately show ?thesis
    using create_user_listing [THEN conjunct2, OF ref.store.kv_store_axioms ref_writes_succeed _ _ ref_user_list_plain,
        of "''user''" "''pw''" 5 USER_ROLE_USER "fst (create_user ref_api ref_master 5 ?r)"
          "fst (snd (create_user ref_api ref_master 5 ?r))" "snd (snd (create_user ref_api ref_master 5 ?r))"
          "[''admin'', ''user1'']"]
    by simp
qed

section \<open>Properties of the job handlers\<close>

lemma find_marker: "prefix p s \<Longrightarrow> str_find p s = Some 0"
  by (simp add: str_find_prefix)

lemma caller_of_bearer:
  assumes "map_of md ''authorization'' = Some (''Bearer mock-jwt-for-'' @ u)"
  shows "caller_of md = u"
  by (simp add: caller_of_def assms)

text \<open>
  A login names its user: a job submitted with the token of a successful login, in any later state,
  belongs to that user and is the job found under the returned id.
\<close>

lemma login_submit_identity:
  assumes "status_ok (fst (login api m0 c))"
    and "map_of md ''authorization'' = Some (''Bearer '' @ at_access_token (snd (login api m0 c)))"
    and submit: "submit_job_rpc api m uuid now md spec = (st, job, m')"
  shows "status_ok st \<and>
    job = new_job_info (''job-'' @ take 8 uuid) now spec (cr_username c) (cr_username c) \<and>
    get_job (job_mgr m') (''job-'' @ take 8 uuid) = Some job \<and>
    get_job_status m' (''job-'' @ take 8 uuid) = (Status_OK, job)"
proof (rule conj_goals(3); (intro impI)?)
  have caller: "caller_of md = cr_username c"
    using assms(2) by (intro caller_of_bearer) (simp add: login_token(1) [OF assms(1)])
  obtain i jm where sub: "submit_job (set_kv api) (job_mgr m) uuid now spec (cr_username c) (cr_username c) = (i, jm)"
    by fastforce
  have i: "i = job_id_of_uuid uuid"
    using sub fst_submit_job [of "set_kv api" "job_mgr m" uuid now spec "cr_username c" "cr_username c"] by simp
  have stored: "get_job jm i = Some (new_job_info i now spec (cr_username c) (cr_username c))"
    using get_job_submit [of "set_kv api" "job_mgr m" uuid now spec "cr_username c" "cr_username c" i]
    by (simp add: sub i)
  have "(st, job, m') = (Status_OK, new_job_info i now spec (cr_username c) (cr_username c), m\<lparr>job_mgr := jm\<rparr>)"
    using submit by (simp add: submit_job_rpc_def caller sub stored Let_def)
  then show "status_ok st" "job = new_job_info (''job-'' @ take 8 uuid) now spec (cr_username c) (cr_username c)"
    "get_job (job_mgr m') (''job-'' @ take 8 uuid) = Some job"
    "get_job_status m' (''job-'' @ take 8 uuid) = (Status_OK, job)"
    using stored by (simp_all add: i job_id_of_uuid_def get_job_status_def)
qed

text \<open>
  The identity is not authenticated: no handler consults the token's validity, and a header
  that merely names a user, in any master state and over any database, submits a job for that
  user; without the marker the job is submitted for \<open>unknown\<close>, never refused.
\<close>

theorem submit_never_refused:
  "status_ok (fst (submit_job_rpc api m uuid now md spec))"
  "ji_username (fst (snd (submit_job_rpc api m uuid now
      [(''authorization'', ''Bearer mock-jwt-for-'' @ u)] spec))) = u"
  "ji_username (fst (snd (submit_job_rpc api m uuid now [] spec))) = ''unknown''"
proof -
  have job: "fst (submit_job_rpc api m uuid now md spec) = Status_OK \<and>
      fst (snd (submit_job_rpc api m uuid now md spec))
        = new_job_info (job_id_of_uuid uuid) now spec (caller_of md) (caller_of md)" for md
    using get_job_submit [of "set_kv api" "job_mgr m" uuid now spec "caller_of md" "caller_of md" "job_id_of_uuid uuid"]
    by (auto simp: submit_job_rpc_def Let_def case_prod_unfold job_simps)
  show "status_ok (fst (submit_job_rpc api m uuid now md spec))"
    using job [of md] by simp
  show "ji_username (fst (snd (submit_job_rpc api m uuid now
      [(''authorization'', ''Bearer mock-jwt-for-'' @ u)] spec))) = u"
    using job [of "[(''authorization'', ''Bearer mock-jwt-for-'' @ u)]"]
    by (simp add: caller_of_bearer del: append.simps)
  show "ji_username (fst (snd (submit_job_rpc api m uuid now [] spec))) = ''unknown''"
    using job [of "[]"] by (simp add: caller_of_def)
qed

section \<open>Properties of the public request handlers\<close>

text \<open>Protobuf's JSON conversion: what was printed is non-empty, has no NUL and parses back.\<close>

definition json_roundtrips ::
  "(job_request \<Rightarrow> string option) \<Rightarrow> (string \<Rightarrow> bool \<times> job_request) \<Rightarrow> bool" where
  "json_roundtrips to_json of_json \<longleftrightarrow>
     (\<forall>r j. to_json r = Some j \<longrightarrow> j \<noteq> '''' \<and> CHR 0x00 \<notin> set j \<and> of_json j = (True, r))"

text \<open>The engine can read the requests, and an update goes through.\<close>

definition requests_available :: "'db sqlite_api \<Rightarrow> bool" where
  "requests_available api \<longleftrightarrow>
     (\<forall>db. sqlite_rows api db list_requests_sql \<noteq> None) \<and>
     (\<forall>db i s d. fst (update_request_status api db i s d))"

lemma find_fst: "find (\<lambda>r. fst r = i) xs = map_option (Pair i) (map_of xs i)"
  by (induction xs) auto

lemma target_json_map_of:
  "target_json api db i = (case map_of (list_requests api db) i of None \<Rightarrow> '''' | Some j \<Rightarrow> j)"
  by (simp add: target_json_def find_fst split: option.split)

definition reviewed :: "unix_time \<Rightarrow> review_request \<Rightarrow> job_request \<Rightarrow> job_request" where
  "reviewed now rv req = req\<lparr>jr_reviewed_at := now, jr_review_comment := rv_comment rv,
     jr_status := (if rv_approve rv then JOB_REQUEST_APPROVED else JOB_REQUEST_REJECTED)\<rparr>"

lemma stored_after_update:
  assumes "sqlite_engine api kv reqs" "requests_available api" "CHR 0x00 \<notin> set i" "CHR 0x00 \<notin> set j'"
    and "map_of (list_requests api db) i = Some j"
  shows "map_of (list_requests api (snd (update_request_status api db i s j'))) i = Some j'"
proof -
  have rows: "sqlite_rows api db list_requests_sql \<noteq> None" and ok: "fst (update_request_status api db i s j')" for db
    using assms(2) by (simp_all add: requests_available_def)
  note list = sqlite_engine.list_requests_map_of [OF assms(1) rows]
  obtain db' where upd: "update_request_status api db i s j' = (True, db')"
    using ok [of db] by (cases "update_request_status api db i s j'") simp
  from assms(5) obtain e s0 where "reqs db i = Some (e, s0, j)"
    by (auto simp: list)
  then show ?thesis
    using sqlite_engine.update_request_status_effect(2) [OF assms(1) upd] assms(3,4)
    by (simp add: upd list c_str_id)
qed

lemma review_stored:
  assumes json: "json_roundtrips to_json of_json"
    and stored: "map_of (list_requests api (admin_db m)) i = Some j" "to_json req = Some j"
  shows "admin_review_request api to_json of_json m uuid now \<lparr>rv_request_id = i, rv_approve = yes, rv_comment = c\<rparr> =
    (let rv = \<lparr>rv_request_id = i, rv_approve = yes, rv_comment = c\<rparr>;
         m1 = (if yes then m\<lparr>job_mgr := snd (submit_job (set_kv api) (job_mgr m) uuid now
                 (jr_requested_spec req) ''public-user'' (jr_applicant_name req))\<rparr> else m)
     in case to_json (reviewed now rv req) of
          None \<Rightarrow> (Status_error INTERNAL ''Failed to serialize request'', default_status_response, m1)
        | Some j' \<Rightarrow> (Status_OK, default_status_response\<lparr>sr_success := True,
              sr_message := (if yes then ''Request approved and job scheduled'' else ''Request rejected'')\<rparr>,
            m1\<lparr>admin_db := snd (update_request_status api (admin_db m1) (jr_request_id req)
              (job_request_status_number (jr_status (reviewed now rv req))) j')\<rparr>))"
proof -
  have "j \<noteq> ''''" "of_json j = (True, req)"
    using json stored(2) by (auto simp: json_roundtrips_def)
  then show ?thesis
    by (cases yes) (simp_all add: admin_review_request_def target_json_map_of stored(1) reviewed_def Let_def
        cong: option.case_cong)
qed

text \<open>
  C26: Reviewing a stored request does what the administrator said, whatever the state of the
  request.  Approval submits the requested job for the applicant under a fresh id; rejection leaves
  the job table alone; in both cases the stored request becomes the reviewed one (status, comment
  and time).  There is no check of the old status, so approving an approved request again submits
  the job again.  When the reviewed request cannot be printed the answer is an error, but on
  approval the job has been submitted all the same.
\<close>

theorem review_outcome:
  assumes engine: "sqlite_engine api kv reqs" "requests_available api" and json: "json_roundtrips to_json of_json"
    and stored: "map_of (list_requests api (admin_db m)) (jr_request_id req) = Some j" "to_json req = Some j"
    and id: "CHR 0x00 \<notin> set (jr_request_id req)"
    and review: "rv_request_id rv = jr_request_id req"
      "admin_review_request api to_json of_json m uuid now rv = (st, response, m')"
  shows "(rv_approve rv \<longrightarrow> get_job (job_mgr m') (job_id_of_uuid uuid)
      = Some (new_job_info (job_id_of_uuid uuid) now (jr_requested_spec req) ''public-user'' (jr_applicant_name req))) \<and>
    ((k \<noteq> job_id_of_uuid uuid \<or> \<not> rv_approve rv) \<longrightarrow> get_job (job_mgr m') k = get_job (job_mgr m) k) \<and>
    (to_json (reviewed now rv req) = Some j' \<longrightarrow> (status_ok st
      \<and> map_of (list_requests api (admin_db m')) (jr_request_id req) = Some j' \<and> of_json j' = (True, reviewed now rv req))) \<and>
    (to_json (reviewed now rv req) = None \<longrightarrow> (status_code st = INTERNAL \<and> admin_db m' = admin_db m))"
proof (rule conj_goals(3); (intro impI)?)
  obtain yes c where rv: "rv = \<lparr>rv_request_id = jr_request_id req, rv_approve = yes, rv_comment = c\<rparr>"
    using review(1) by (cases rv) auto
  note result = review(2) [unfolded rv review_stored [OF json stored] Let_def, folded rv]
  define m1 where "m1 = (if yes then m\<lparr>job_mgr := snd (submit_job (set_kv api) (job_mgr m) uuid now
    (jr_requested_spec req) ''public-user'' (jr_applicant_name req))\<rparr> else m)"
  have m': "job_mgr m' = job_mgr m1"
    using result by (auto simp: m1_def split: option.splits if_splits)
  have jobs: "get_job (job_mgr m') k = (if yes \<and> k = job_id_of_uuid uuid
      then Some (new_job_info k now (jr_requested_spec req) ''public-user'' (jr_applicant_name req))
      else get_job (job_mgr m) k)" for k
    by (simp add: m' m1_def job_simps)
  show "rv_approve rv \<Longrightarrow> get_job (job_mgr m') (job_id_of_uuid uuid)
      = Some (new_job_info (job_id_of_uuid uuid) now (jr_requested_spec req) ''public-user'' (jr_applicant_name req))"
    by (simp add: jobs rv)
  show "k \<noteq> job_id_of_uuid uuid \<or> \<not> rv_approve rv \<Longrightarrow> get_job (job_mgr m') k = get_job (job_mgr m) k"
    by (auto simp: jobs rv)
  have same_db: "admin_db (if yes then m\<lparr>job_mgr := jm\<rparr> else m) = admin_db m" for jm
    by simp
  show "status_code st = INTERNAL \<and> admin_db m' = admin_db m" if "to_json (reviewed now rv req) = None"
    using result by (auto simp: that)
  show "status_ok st \<and> map_of (list_requests api (admin_db m')) (jr_request_id req) = Some j'
      \<and> of_json j' = (True, reviewed now rv req)" if j': "to_json (reviewed now rv req) = Some j'"
  proof -
    have nul: "CHR 0x00 \<notin> set j'" and parse: "of_json j' = (True, reviewed now rv req)"
      using json j' by (auto simp: json_roundtrips_def)
    have "st = Status_OK" "admin_db m' = snd (update_request_status api (admin_db m) (jr_request_id req)
        (job_request_status_number (jr_status (reviewed now rv req))) j')"
      using result by (auto simp: j' same_db)
    then show ?thesis
      using stored_after_update [OF engine id nul stored(1)] parse by simp
  qed
qed

text \<open>A stored request, and a printer that knows it and its approved form.\<close>

definition demo_request :: job_request where
  "demo_request = default_job_request\<lparr>jr_request_id := ''req-1'', jr_applicant_name := ''Ann''\<rparr>"

definition demo_review :: review_request where
  "demo_review = \<lparr>rv_request_id = ''req-1'', rv_approve = True, rv_comment = ''fine''\<rparr>"

definition demo_to_json :: "job_request \<Rightarrow> string option" where
  "demo_to_json r = (if r = demo_request then Some ''{0}''
     else if r = reviewed 9 demo_review demo_request then Some ''{1}'' else None)"

definition demo_of_json :: "string \<Rightarrow> bool \<times> job_request" where
  "demo_of_json j = (if j = ''{0}'' then (True, demo_request)
     else if j = ''{1}'' then (True, reviewed 9 demo_review demo_request) else (False, default_job_request))"

definition requests_master :: "tables master" where
  "requests_master = ref_master\<lparr>admin_db := no_tables\<lparr>t_reqs := [(''req-1'', ''a@b'', 0, ''{0}'')]\<rparr>\<rparr>"

lemma demo_json_roundtrips: "json_roundtrips demo_to_json demo_of_json"
  by (simp add: json_roundtrips_def demo_to_json_def demo_of_json_def)

lemma ref_requests_available: "requests_available ref_api"
  by (simp add: requests_available_def ref_api_def ref_rows_def update_request_status_def)

theorem review_outcome_witness:
  "get_job (job_mgr (snd (snd (admin_review_request ref_api demo_to_json demo_of_json requests_master
      ''0123456789'' 9 demo_review)))) ''job-01234567''
   = Some (new_job_info ''job-01234567'' 9 default_job_spec ''public-user'' ''Ann'')"
proof -
  have stored: "map_of (list_requests ref_api (admin_db requests_master)) (jr_request_id demo_request) = Some ''{0}''"
    by (simp add: sqlite_engine.list_requests_map_of [OF ref.sqlite_engine_axioms]
        ref_requests_available [unfolded requests_available_def] requests_master_def demo_request_def)
  from review_outcome [THEN conjunct1, THEN mp, OF ref.sqlite_engine_axioms ref_requests_available demo_json_roundtrips stored,
      of demo_review "''0123456789''" 9]
  show ?thesis
    by (cases "admin_review_request ref_api demo_to_json demo_of_json requests_master ''0123456789'' 9 demo_review")
       (simp add: demo_to_json_def demo_request_def demo_review_def job_id_of_uuid_def default_job_request_def)
qed

text \<open>
  C28: A public request that is accepted is on file: the answer carries the id it is stored under
  (the given one, or one made of the time and a random number below 1000), the listing of requests
  shows it as pending with the time of submission, and no job is created.  A second request with
  the same id is not accepted and does not overwrite the first.
\<close>

theorem public_request_filed:
  assumes engine: "sqlite_engine api kv reqs" "requests_available api" and json: "json_roundtrips to_json of_json"
    and submit: "submit_public_request api to_json m now rnd request = (st, response, m')" "sr_success response"
    and id: "CHR 0x00 \<notin> set (sr_message response)"
  shows "(sr_message response
      = (if jr_request_id request = '''' then request_id_of now rnd else jr_request_id request)) \<and>
    request\<lparr>jr_request_id := sr_message response, jr_submitted_at := now, jr_status := JOB_REQUEST_PENDING\<rparr>
      \<in> set (snd (admin_list_requests api of_json m')) \<and>
    job_mgr m' = job_mgr m \<and>
    (jr_request_id request2 = sr_message response \<longrightarrow> sr_message response \<noteq> '''' \<longrightarrow> \<not> sr_success (fst (snd (submit_public_request api to_json m' later rnd' request2))))"
proof (rule conj_goals(3); (intro impI)?)
  define req where "req = (if jr_request_id request = '''' then request\<lparr>jr_request_id := request_id_of now rnd\<rparr>
    else request)\<lparr>jr_submitted_at := now, jr_status := JOB_REQUEST_PENDING\<rparr>"
  from submit obtain j db where j: "to_json req = Some j"
    and add: "add_job_request api (admin_db m) (jr_request_id req) (jr_applicant_email req) 0 j = (True, db)"
    and response: "sr_message response = jr_request_id req" and m': "m' = m\<lparr>admin_db := db\<rparr>"
    by (auto simp: submit_public_request_def req_def Let_def default_status_response_def
        split: option.splits prod.splits if_splits)
  show msg: "sr_message response
      = (if jr_request_id request = '''' then request_id_of now rnd else jr_request_id request)"
    by (simp add: response req_def)
  show "job_mgr m' = job_mgr m" by (simp add: m')
  have req: "req = request\<lparr>jr_request_id := sr_message response, jr_submitted_at := now,
      jr_status := JOB_REQUEST_PENDING\<rparr>"
    unfolding msg by (simp add: req_def)
  have nul: "CHR 0x00 \<notin> set j" and parse: "of_json j = (True, req)"
    using json j by (auto simp: json_roundtrips_def)
  have reqs: "reqs db (sr_message response) = Some (c_str (jr_applicant_email req), 0, j)"
    using sqlite_engine.add_job_request_effect(2) [OF engine(1) add] id nul by (simp add: response c_str_id)
  have "(sr_message response, j) \<in> set (list_requests api db)"
    using engine(2) by (intro sqlite_engine.list_requests_complete [OF engine(1) _ reqs])
      (simp add: requests_available_def)
  then show "request\<lparr>jr_request_id := sr_message response, jr_submitted_at := now, jr_status := JOB_REQUEST_PENDING\<rparr>
      \<in> set (snd (admin_list_requests api of_json m'))"
    using parse unfolding req [symmetric] by (force simp: admin_list_requests_def m')
  show "\<not> sr_success (fst (snd (submit_public_request api to_json m' later rnd' request2)))"
    if same: "jr_request_id request2 = sr_message response" "sr_message response \<noteq> ''''"
  proof
    assume "sr_success (fst (snd (submit_public_request api to_json m' later rnd' request2)))"
    then obtain e s d db' where "add_job_request api db (sr_message response) e s d = (True, db')"
      using same by (auto simp: submit_public_request_def Let_def default_status_response_def m'
          split: option.splits prod.splits if_splits)
    from sqlite_engine.add_job_request_effect(3) [OF engine(1) this] reqs id
    show False by (simp add: c_str_id)
  qed
qed

definition filed_request :: job_request where
  "filed_request = demo_request\<lparr>jr_submitted_at := 9\<rparr>"

theorem public_request_filed_witness:
  "filed_request \<in> set (snd (admin_list_requests ref_api (\<lambda>j. (True, filed_request))
     (snd (snd (submit_public_request ref_api (\<lambda>r. if r = filed_request then Some ''{0}'' else None)
        ref_master 9 0 demo_request)))))"
proof -
  let ?to = "\<lambda>r. if r = filed_request then Some ''{0}'' else None"
  let ?r = "submit_public_request ref_api ?to ref_master 9 0 demo_request"
  have req: "jr_request_id demo_request = ''req-1''"
    "demo_request\<lparr>jr_submitted_at := 9, jr_status := JOB_REQUEST_PENDING\<rparr> = filed_request"
    "filed_request\<lparr>jr_request_id := ''req-1'', jr_status := JOB_REQUEST_PENDING\<rparr> = filed_request"
    "jr_request_id filed_request = ''req-1''" "jr_applicant_email filed_request = ''''"
    "jr_status filed_request = JOB_REQUEST_PENDING"
    "demo_request\<lparr>jr_request_id := ''req-1'', jr_submitted_at := 9, jr_status := JOB_REQUEST_PENDING\<rparr> = filed_request"
    by (simp_all add: demo_request_def filed_request_def default_job_request_def)
  have ok: "sr_success (fst (snd ?r))" "sr_message (fst (snd ?r)) = ''req-1''"
    by (simp_all add: submit_public_request_def Let_def req add_job_request_def ref_api_def ref_master_def
        no_tables_def c_str_def)
  have "json_roundtrips ?to (\<lambda>j. (True, filed_request))" by (simp add: json_roundtrips_def)
  from public_request_filed [THEN conjunct2, THEN conjunct1, OF ref.sqlite_engine_axioms ref_requests_available this, of ref_master 9 0
      demo_request "fst ?r" "fst (snd ?r)" "snd (snd ?r)"]
  show ?thesis using ok by (simp add: req)
qed

end
