(* ===== verification/Agent_Service.thy ===== *)
theory Agent_Service
  imports Master_Service
begin

text \<open>
  \<open>AgentServiceImpl\<close> (\<open>master/src/grpc_service.cpp\<close>): the RPCs the agents call.  Only the
  request fields the handlers read are kept, and the metrics of a heartbeat, which they do not read;
  the reports' exit codes, times and outputs are dropped by the code.  A handler works on the shared components of \<open>Master_Service\<close>.
\<close>

section \<open>Messages\<close>

record register_node_request =
  rn_hostname :: string
  rn_ip_address :: string
  rn_port :: u32
  rn_total_resources :: resource_spec
  rn_os_info :: string

record register_node_response =
  rr_success :: bool
  rr_node_id :: string
  rr_message :: string
  rr_heartbeat_interval_seconds :: u32
  rr_metrics_interval_seconds :: u32

record heartbeat_request =
  hb_node_id :: string
  hb_available_resources :: resource_spec
  hb_running_jobs :: u32
  hb_timestamp :: unix_time
  hb_cpu_usage_percent :: real
  hb_ram_usage_percent :: real

record heartbeat_response =
  hr_acknowledged :: bool
  hr_jobs_to_cancel :: "string list"
  hr_message :: string

definition default_heartbeat_response :: heartbeat_response where
  "default_heartbeat_response = \<lparr>hr_acknowledged = False, hr_jobs_to_cancel = [], hr_message = ''''\<rparr>"

record fetch_job_response =
  fj_has_job :: bool
  fj_job_id :: string
  fj_spec :: job_spec

definition default_fetch_job_response :: fetch_job_response where
  "default_fetch_job_response = \<lparr>fj_has_job = False, fj_job_id = '''', fj_spec = default_job_spec\<rparr>"

record job_report =
  rp_node_id :: string
  rp_job_id :: string

section \<open>Handlers\<close>

definition register_node_rpc ::
  "'db master \<Rightarrow> string \<Rightarrow> unix_time \<Rightarrow> register_node_request
     \<Rightarrow> grpc_status \<times> register_node_response \<times> 'db master" where
  "register_node_rpc m uuid now request =
     (let info = default_node_info
            \<lparr>ni_hostname := rn_hostname request, ni_ip_address := rn_ip_address request,
             ni_port := rn_port request, ni_os_info := rn_os_info request,
             ni_total_resources := rn_total_resources request\<rparr>;
          (node_id, nodes) = register_node (node_reg m) uuid now info
      in (Status_OK,
          \<lparr>rr_success = True, rr_node_id = node_id, rr_message = ''Registration successful'',
           rr_heartbeat_interval_seconds = HEARTBEAT_INTERVAL_SEC, rr_metrics_interval_seconds = METRICS_INTERVAL_SEC\<rparr>,
          m\<lparr>node_reg := nodes\<rparr>))"

definition send_heartbeat_rpc ::
  "'db master \<Rightarrow> unix_time \<Rightarrow> heartbeat_request \<Rightarrow> grpc_status \<times> heartbeat_response \<times> 'db master" where
  "send_heartbeat_rpc m now request =
     (let (ok, nodes) = update_heartbeat (node_reg m) now (hb_node_id request)
            (hb_available_resources request) (hb_running_jobs request);
          response = default_heartbeat_response\<lparr>hr_acknowledged := ok\<rparr>
      in (Status_OK,
          if \<not> ok then response\<lparr>hr_message := ''Node not registered''\<rparr>
          else response\<lparr>hr_jobs_to_cancel :=
                 get_jobs_to_cancel_for_node (job_mgr m) now (hb_node_id request)\<rparr>,
          m\<lparr>node_reg := nodes\<rparr>))"

text \<open>The loop returns at the first assigned job of the node; the job stays \<open>ASSIGNED\<close>.\<close>

definition fetch_job_rpc :: "'db master \<Rightarrow> string \<Rightarrow> grpc_status \<times> fetch_job_response" where
  "fetch_job_rpc m node_id =
     (case find (\<lambda>job. ji_assigned_node_id job = node_id) (list_jobs (job_mgr m) JOB_STATUS_ASSIGNED) of
        Some job \<Rightarrow> (Status_OK, \<lparr>fj_has_job = True, fj_job_id = ji_job_id job, fj_spec = ji_spec job\<rparr>)
      | None \<Rightarrow> (Status_OK, default_fetch_job_response))"

definition report_job_started_rpc ::
  "'db master \<Rightarrow> unix_time \<Rightarrow> job_report \<Rightarrow> grpc_status \<times> status_response \<times> 'db master" where
  "report_job_started_rpc m now request =
     (let (ok, jm) = update_job_status (job_mgr m) now (rp_job_id request) JOB_STATUS_RUNNING
            (rp_node_id request)
      in (Status_OK, default_status_response\<lparr>sr_success := ok\<rparr>, m\<lparr>job_mgr := jm\<rparr>))"

definition report_job_completed_rpc ::
  "'db master \<Rightarrow> unix_time \<Rightarrow> job_report \<Rightarrow> grpc_status \<times> status_response \<times> 'db master" where
  "report_job_completed_rpc m now request =
     (let (ok, jm) = update_job_status (job_mgr m) now (rp_job_id request) JOB_STATUS_COMPLETED
            (rp_node_id request)
      in (Status_OK, default_status_response\<lparr>sr_success := ok\<rparr>, m\<lparr>job_mgr := jm\<rparr>))"

definition report_job_failed_rpc ::
  "'db master \<Rightarrow> unix_time \<Rightarrow> job_report \<Rightarrow> grpc_status \<times> status_response \<times> 'db master" where
  "report_job_failed_rpc m now request =
     (let (ok, jm) = update_job_status (job_mgr m) now (rp_job_id request) JOB_STATUS_FAILED
            (rp_node_id request)
      in (Status_OK, default_status_response\<lparr>sr_success := ok\<rparr>, m\<lparr>job_mgr := jm\<rparr>))"

section \<open>The result of each handler\<close>

lemma register_node_rpc_eq:
  assumes "register_node_rpc m uuid now r = (st, response, m')"
  shows "st = Status_OK" "rr_success response"
    and "rr_node_id response = fst (register_node (node_reg m) uuid now (default_node_info
            \<lparr>ni_hostname := rn_hostname r, ni_ip_address := rn_ip_address r, ni_port := rn_port r,
             ni_os_info := rn_os_info r, ni_total_resources := rn_total_resources r\<rparr>))"
    and "m' = m\<lparr>node_reg := snd (register_node (node_reg m) uuid now (default_node_info
            \<lparr>ni_hostname := rn_hostname r, ni_ip_address := rn_ip_address r, ni_port := rn_port r,
             ni_os_info := rn_os_info r, ni_total_resources := rn_total_resources r\<rparr>))\<rparr>"
  using assms by (auto simp: register_node_rpc_def Let_def split: prod.splits)

lemma send_heartbeat_rpc_eq:
  "send_heartbeat_rpc m now r =
     (Status_OK,
      \<lparr>hr_acknowledged = (get_node (node_reg m) (hb_node_id r) \<noteq> None),
       hr_jobs_to_cancel = (if get_node (node_reg m) (hb_node_id r) \<noteq> None
          then get_jobs_to_cancel_for_node (job_mgr m) now (hb_node_id r) else []),
       hr_message = (if get_node (node_reg m) (hb_node_id r) \<noteq> None then '''' else ''Node not registered'')\<rparr>,
      m\<lparr>node_reg := snd (update_heartbeat (node_reg m) now (hb_node_id r)
         (hb_available_resources r) (hb_running_jobs r))\<rparr>)"
  using fst_update_heartbeat [of "node_reg m" now "hb_node_id r" "hb_available_resources r" "hb_running_jobs r"]
  by (auto simp: send_heartbeat_rpc_def default_heartbeat_response_def Let_def split: prod.splits)

lemma fetch_job_rpc_cases:
  assumes "jobs_keyed (job_mgr m)"
  obtains (none) "fetch_job_rpc m n = (Status_OK, default_fetch_job_response)"
      "\<And>k job. get_job (job_mgr m) k = Some job \<Longrightarrow> ji_status job = JOB_STATUS_ASSIGNED \<Longrightarrow>
        ji_assigned_node_id job \<noteq> n"
  | (job) job where "get_job (job_mgr m) (ji_job_id job) = Some job" "ji_status job = JOB_STATUS_ASSIGNED"
      "ji_assigned_node_id job = n"
      "fetch_job_rpc m n = (Status_OK, \<lparr>fj_has_job = True, fj_job_id = ji_job_id job, fj_spec = ji_spec job\<rparr>)"
proof (cases "find (\<lambda>job. ji_assigned_node_id job = n) (list_jobs (job_mgr m) JOB_STATUS_ASSIGNED)")
  case None
  have "ji_assigned_node_id job \<noteq> n"
    if "get_job (job_mgr m) k = Some job" "ji_status job = JOB_STATUS_ASSIGNED" for k job
  proof -
    have "ji_job_id job = k" using that(1) assms by (simp add: get_job_def keyed_map_of)
    then have "job \<in> set (list_jobs (job_mgr m) JOB_STATUS_ASSIGNED)"
      using that by (simp add: in_list_jobs [OF assms])
    then show ?thesis using None by (auto simp: find_None_iff)
  qed
  then show ?thesis using None by (intro none) (simp_all add: fetch_job_rpc_def)
next
  case (Some job)
  then have "job \<in> set (list_jobs (job_mgr m) JOB_STATUS_ASSIGNED)" "ji_assigned_node_id job = n"
    by (auto simp: find_Some_iff)
  then show ?thesis
    using Some by (intro job [of job]) (simp_all add: in_list_jobs [OF assms] fetch_job_rpc_def)
qed

lemma report_rpc_eqs:
  "report_job_started_rpc m now r = (Status_OK,
     default_status_response\<lparr>sr_success := get_job (job_mgr m) (rp_job_id r) \<noteq> None\<rparr>,
     m\<lparr>job_mgr := snd (update_job_status (job_mgr m) now (rp_job_id r) JOB_STATUS_RUNNING (rp_node_id r))\<rparr>)"
  "report_job_completed_rpc m now r = (Status_OK,
     default_status_response\<lparr>sr_success := get_job (job_mgr m) (rp_job_id r) \<noteq> None\<rparr>,
     m\<lparr>job_mgr := snd (update_job_status (job_mgr m) now (rp_job_id r) JOB_STATUS_COMPLETED (rp_node_id r))\<rparr>)"
  "report_job_failed_rpc m now r = (Status_OK,
     default_status_response\<lparr>sr_success := get_job (job_mgr m) (rp_job_id r) \<noteq> None\<rparr>,
     m\<lparr>job_mgr := snd (update_job_status (job_mgr m) now (rp_job_id r) JOB_STATUS_FAILED (rp_node_id r))\<rparr>)"
  by (simp_all add: report_job_started_rpc_def report_job_completed_rpc_def report_job_failed_rpc_def
      case_prod_unfold fst_update_job_status)

text \<open>A job whose start was reported is not offered to that node again while it runs.\<close>

lemma started_not_offered:
  assumes keyed: "jobs_keyed (job_mgr m)" and job: "get_job (job_mgr m) i = Some job"
    and report: "report_job_started_rpc m now \<lparr>rp_node_id = n, rp_job_id = i\<rparr> = (st, response, m')"
  shows "sr_success response" "map_option ji_status (get_job (job_mgr m') i) = Some JOB_STATUS_RUNNING"
    "fj_has_job (snd (fetch_job_rpc m' n)) \<longrightarrow> fj_job_id (snd (fetch_job_rpc m' n)) \<noteq> i"
proof -
  have m': "m' = m\<lparr>job_mgr := snd (update_job_status (job_mgr m) now i JOB_STATUS_RUNNING n)\<rparr>"
    and ok: "sr_success response"
    using report by (simp_all add: report_rpc_eqs job) (auto simp: job)
  have running: "map_option ji_status (get_job (job_mgr m') i) = Some JOB_STATUS_RUNNING"
    by (simp add: m' job_simps job)
  have "jobs_keyed (job_mgr m')"
    using update_job_status_keyed [OF keyed] by (simp add: m')
  then show "fj_has_job (snd (fetch_job_rpc m' n)) \<longrightarrow> fj_job_id (snd (fetch_job_rpc m' n)) \<noteq> i"
    using running by (cases rule: fetch_job_rpc_cases [of m' n]) (auto simp: default_fetch_job_response_def)
  show "sr_success response" "map_option ji_status (get_job (job_mgr m') i) = Some JOB_STATUS_RUNNING"
    by (rule ok, rule running)
qed

section \<open>Properties\<close>

text \<open>
  Fetching is exact and repeatable.  A node is offered a job exactly when some job is
  \<open>ASSIGNED\<close> to it; the offer is such a job with its stored spec, and since nothing records the
  hand-over it is still on offer until its start is reported, after which this node is not offered
  it again while it is running.
\<close>

theorem fetch_job_exact:
  assumes keyed: "jobs_keyed (job_mgr m)" and fetch: "fetch_job_rpc m n = (st, offer)"
  shows "status_ok st \<and>
    (fj_has_job offer \<longleftrightarrow> (\<exists>k job. get_job (job_mgr m) k = Some job
      \<and> ji_status job = JOB_STATUS_ASSIGNED \<and> ji_assigned_node_id job = n)) \<and>
    (fj_has_job offer \<longrightarrow> (\<exists>job. get_job (job_mgr m) (fj_job_id offer) = Some job
      \<and> ji_status job = JOB_STATUS_ASSIGNED \<and> ji_assigned_node_id job = n \<and> ji_spec job = fj_spec offer)) \<and>
    (fj_has_job offer \<longrightarrow> report_job_started_rpc m now \<lparr>rp_node_id = n, rp_job_id = fj_job_id offer\<rparr> = (st', response, m') \<longrightarrow> (sr_success response \<and> map_option ji_status (get_job (job_mgr m') (fj_job_id offer)) = Some JOB_STATUS_RUNNING
      \<and> (fj_has_job (snd (fetch_job_rpc m' n)) \<longrightarrow> fj_job_id (snd (fetch_job_rpc m' n)) \<noteq> fj_job_id offer)))"
  using keyed
proof (cases rule: fetch_job_rpc_cases [of m n])
  case none
  then show ?thesis using fetch by (auto simp: default_fetch_job_response_def)
next
  case (job job)
  then have offer: "fj_job_id offer = ji_job_id job" "fj_has_job offer" "fj_spec offer = ji_spec job" "status_ok st"
    using fetch by auto
  show ?thesis
    using started_not_offered [OF keyed job(1)] job(1-3) offer by (intro conjI impI iffI; blast?) auto
qed

definition assigned_master :: "tables master" where
  "assigned_master = ref_master\<lparr>job_mgr :=
     \<lparr>jm_jobs = [(''job-1'', status_update 3 JOB_STATUS_ASSIGNED ''node-1'' (demo_job ''job-1''))], jm_db = None\<rparr>\<rparr>"

theorem fetch_job_exact_witness:
  "fj_has_job (snd (fetch_job_rpc assigned_master ''node-1''))"
proof -
  have "jobs_keyed (job_mgr assigned_master)"
    by (auto simp: assigned_master_def keyed_def)
  moreover have "get_job (job_mgr assigned_master) ''job-1''
      = Some (status_update 3 JOB_STATUS_ASSIGNED ''node-1'' (demo_job ''job-1''))"
    by (simp add: assigned_master_def get_job_def)
  ultimately show ?thesis
    using fetch_job_exact [THEN conjunct2, THEN conjunct1, of assigned_master "''node-1''"] by (metis prod.collapse status_update_status
        status_update_node list.distinct(1))
qed

lemma triple_parts: "p = (fst p, fst (snd p), snd (snd p))" by simp

end
