(* ===== verification/Config.thy ===== *)
theory Config
  imports Messages
begin

text \<open>
  The configuration loaders (\<open>lib/common/src/config.cpp\<close>).  yaml-cpp is not under \<open>src/\<close>: its calls
  are the parameter \<open>yaml_api\<close> over a type of nodes, each returning \<open>None\<close> where it throws a
  \<open>YAML::Exception\<close>.  A loader is a sequence of field assignments inside one \<open>try\<close> block: the
  first that throws ends it and the configuration built so far is returned.
\<close>

section \<open>The YAML calls\<close>

text \<open>\<open>yaml_sub\<close> is \<open>node[key]\<close>: the inner \<open>None\<close> is an undefined node.\<close>

record 'n yaml_api =
  yaml_load :: "string \<Rightarrow> 'n option"
  yaml_sub :: "'n \<Rightarrow> string \<Rightarrow> 'n option option"
  as_string :: "'n \<Rightarrow> string option"
  as_int :: "'n \<Rightarrow> int option"
  as_double :: "'n \<Rightarrow> real option"
  as_bool :: "'n \<Rightarrow> bool option"

definition yaml_get :: "'n yaml_api \<Rightarrow> ('n \<Rightarrow> 'a option) \<Rightarrow> 'n \<Rightarrow> string \<Rightarrow> 'a \<Rightarrow> 'a option" where
  "yaml_get api conv node key default_val =
     (case yaml_sub api node key of
        None \<Rightarrow> None
      | Some None \<Rightarrow> Some default_val
      | Some (Some v) \<Rightarrow> conv v)"

text \<open>The assignments of the \<open>try\<close> block, one after the other.\<close>

fun run_loads :: "('c \<Rightarrow> 'c option) list \<Rightarrow> 'c \<Rightarrow> 'c" where
  "run_loads [] cfg = cfg"
| "run_loads (f # fs) cfg = (case f cfg of None \<Rightarrow> cfg | Some cfg' \<Rightarrow> run_loads fs cfg')"

definition load_section ::
  "'n yaml_api \<Rightarrow> string \<Rightarrow> string \<Rightarrow> ('n \<Rightarrow> ('c \<Rightarrow> 'c option) list) \<Rightarrow> 'c \<Rightarrow> 'c" where
  "load_section api path section loads cfg =
     (case yaml_load api path of
        None \<Rightarrow> cfg
      | Some doc \<Rightarrow>
          (case yaml_sub api doc section of
             Some (Some node) \<Rightarrow> run_loads (loads node) cfg
           | _ \<Rightarrow> cfg))"

section \<open>The configurations\<close>

record master_config =
  mc_bind_address :: string
  mc_grpc_port :: u16
  mc_db_path :: string
  mc_log_dir :: string
  mc_log_level :: string
  mc_jwt_secret :: string
  mc_jwt_expiry_sec :: u32
  mc_heartbeat_timeout_sec :: u32
  mc_scheduler_interval_ms :: u32
  mc_backfill_window_sec :: u32
  mc_max_backfill_jobs :: u32
  mc_fair_share_decay_hours :: real
  mc_enable_tls :: bool
  mc_tls_cert_path :: string
  mc_tls_key_path :: string
  mc_node_auth_key :: string

definition default_master_config :: master_config where
  "default_master_config =
     \<lparr>mc_bind_address = ''0.0.0.0'', mc_grpc_port = 50051, mc_db_path = ''certosc.db'',
      mc_log_dir = ''/var/log/certosc'', mc_log_level = ''info'',
      mc_jwt_secret = ''certosc-dev-secret-change-in-production'', mc_jwt_expiry_sec = 3600,
      mc_heartbeat_timeout_sec = 15, mc_scheduler_interval_ms = 1000, mc_backfill_window_sec = 3600,
      mc_max_backfill_jobs = 50, mc_fair_share_decay_hours = 24, mc_enable_tls = False,
      mc_tls_cert_path = '''', mc_tls_key_path = '''', mc_node_auth_key = ''certosc-node-key''\<rparr>"

record agent_config =
  ac_master_address :: string
  ac_master_port :: u16
  ac_heartbeat_interval_sec :: u32
  ac_metrics_interval_sec :: u32
  ac_log_dir :: string
  ac_log_level :: string
  ac_work_dir :: string
  ac_auth_key :: string
  ac_max_concurrent_jobs :: u32
  ac_enable_tls :: bool
  ac_tls_ca_path :: string
  ac_cpu_cores :: u32
  ac_ram_mb :: u64
  ac_gpu_count :: u32

definition default_agent_config :: agent_config where
  "default_agent_config =
     \<lparr>ac_master_address = ''localhost'', ac_master_port = 50051, ac_heartbeat_interval_sec = 5,
      ac_metrics_interval_sec = 5, ac_log_dir = ''/var/log/certosc'', ac_log_level = ''info'',
      ac_work_dir = ''/tmp/certosc-jobs'', ac_auth_key = ''certosc-node-key'',
      ac_max_concurrent_jobs = 0, ac_enable_tls = False, ac_tls_ca_path = '''',
      ac_cpu_cores = 0, ac_ram_mb = 0, ac_gpu_count = 0\<rparr>"

record gateway_config =
  gc_bind_address :: string
  gc_http_port :: u16
  gc_master_address :: string
  gc_master_port :: u16
  gc_log_level :: string
  gc_web_root :: string
  gc_jwt_secret :: string
  gc_enable_cors :: bool
  gc_cors_origin :: string

definition default_gateway_config :: gateway_config where
  "default_gateway_config =
     \<lparr>gc_bind_address = ''0.0.0.0'', gc_http_port = 8080, gc_master_address = ''localhost'',
      gc_master_port = 50051, gc_log_level = ''info'', gc_web_root = ''../web'',
      gc_jwt_secret = ''certosc-dev-secret-change-in-production'', gc_enable_cors = True,
      gc_cors_origin = ''*''\<rparr>"

section \<open>The loaders\<close>

text \<open>
  One assignment \<open>cfg.f = yaml_get<T>(node, key, cfg.f)\<close>: \<open>sel\<close> reads the field as a \<open>T\<close> and \<open>upd\<close>
  converts the \<open>T\<close> back to the type of the field.
\<close>

definition load_field ::
  "'n yaml_api \<Rightarrow> ('n \<Rightarrow> 'a option) \<Rightarrow> 'n \<Rightarrow> string \<Rightarrow> ('c \<Rightarrow> 'a) \<Rightarrow> ('a \<Rightarrow> 'c \<Rightarrow> 'c) \<Rightarrow> 'c \<Rightarrow> 'c option" where
  "load_field api conv node key sel upd cfg = map_option (\<lambda>v. upd v cfg) (yaml_get api conv node key (sel cfg))"

definition master_fields :: "'n yaml_api \<Rightarrow> 'n \<Rightarrow> (master_config \<Rightarrow> master_config option) list" where
  "master_fields api node =
     [load_field api (as_string api) node ''bind_address'' mc_bind_address (\<lambda>v. mc_bind_address_update (\<lambda>_. v)),
      load_field api (as_int api) node ''grpc_port'' (\<lambda>c. uint (mc_grpc_port c)) (\<lambda>v. mc_grpc_port_update (\<lambda>_. word_of_int v)),
      load_field api (as_string api) node ''db_path'' mc_db_path (\<lambda>v. mc_db_path_update (\<lambda>_. v)),
      load_field api (as_string api) node ''log_dir'' mc_log_dir (\<lambda>v. mc_log_dir_update (\<lambda>_. v)),
      load_field api (as_string api) node ''log_level'' mc_log_level (\<lambda>v. mc_log_level_update (\<lambda>_. v)),
      load_field api (as_string api) node ''jwt_secret'' mc_jwt_secret (\<lambda>v. mc_jwt_secret_update (\<lambda>_. v)),
      load_field api (as_int api) node ''jwt_expiry_sec'' (\<lambda>c. sint (mc_jwt_expiry_sec c)) (\<lambda>v. mc_jwt_expiry_sec_update (\<lambda>_. word_of_int v)),
      load_field api (as_int api) node ''heartbeat_timeout_sec'' (\<lambda>c. sint (mc_heartbeat_timeout_sec c)) (\<lambda>v. mc_heartbeat_timeout_sec_update (\<lambda>_. word_of_int v)),
      load_field api (as_int api) node ''scheduler_interval_ms'' (\<lambda>c. sint (mc_scheduler_interval_ms c)) (\<lambda>v. mc_scheduler_interval_ms_update (\<lambda>_. word_of_int v)),
      load_field api (as_int api) node ''backfill_window_sec'' (\<lambda>c. sint (mc_backfill_window_sec c)) (\<lambda>v. mc_backfill_window_sec_update (\<lambda>_. word_of_int v)),
      load_field api (as_int api) node ''max_backfill_jobs'' (\<lambda>c. sint (mc_max_backfill_jobs c)) (\<lambda>v. mc_max_backfill_jobs_update (\<lambda>_. word_of_int v)),
      load_field api (as_double api) node ''fair_share_decay_hours'' mc_fair_share_decay_hours (\<lambda>v. mc_fair_share_decay_hours_update (\<lambda>_. v)),
      load_field api (as_bool api) node ''enable_tls'' mc_enable_tls (\<lambda>v. mc_enable_tls_update (\<lambda>_. v)),
      load_field api (as_string api) node ''tls_cert_path'' mc_tls_cert_path (\<lambda>v. mc_tls_cert_path_update (\<lambda>_. v)),
      load_field api (as_string api) node ''tls_key_path'' mc_tls_key_path (\<lambda>v. mc_tls_key_path_update (\<lambda>_. v)),
      load_field api (as_string api) node ''node_auth_key'' mc_node_auth_key (\<lambda>v. mc_node_auth_key_update (\<lambda>_. v))]"

definition load_master_config :: "'n yaml_api \<Rightarrow> string \<Rightarrow> master_config" where
  "load_master_config api path = load_section api path ''master'' (master_fields api) default_master_config"

definition agent_fields :: "'n yaml_api \<Rightarrow> 'n \<Rightarrow> (agent_config \<Rightarrow> agent_config option) list" where
  "agent_fields api node =
     [load_field api (as_string api) node ''master_address'' ac_master_address (\<lambda>v. ac_master_address_update (\<lambda>_. v)),
      load_field api (as_int api) node ''master_port'' (\<lambda>c. uint (ac_master_port c)) (\<lambda>v. ac_master_port_update (\<lambda>_. word_of_int v)),
      load_field api (as_int api) node ''heartbeat_interval_sec'' (\<lambda>c. sint (ac_heartbeat_interval_sec c)) (\<lambda>v. ac_heartbeat_interval_sec_update (\<lambda>_. word_of_int v)),
      load_field api (as_int api) node ''metrics_interval_sec'' (\<lambda>c. sint (ac_metrics_interval_sec c)) (\<lambda>v. ac_metrics_interval_sec_update (\<lambda>_. word_of_int v)),
      load_field api (as_string api) node ''log_dir'' ac_log_dir (\<lambda>v. ac_log_dir_update (\<lambda>_. v)),
      load_field api (as_string api) node ''log_level'' ac_log_level (\<lambda>v. ac_log_level_update (\<lambda>_. v)),
      load_field api (as_string api) node ''work_dir'' ac_work_dir (\<lambda>v. ac_work_dir_update (\<lambda>_. v)),
      load_field api (as_string api) node ''auth_key'' ac_auth_key (\<lambda>v. ac_auth_key_update (\<lambda>_. v)),
      load_field api (as_int api) node ''max_concurrent_jobs'' (\<lambda>c. sint (ac_max_concurrent_jobs c)) (\<lambda>v. ac_max_concurrent_jobs_update (\<lambda>_. word_of_int v)),
      load_field api (as_bool api) node ''enable_tls'' ac_enable_tls (\<lambda>v. ac_enable_tls_update (\<lambda>_. v)),
      load_field api (as_string api) node ''tls_ca_path'' ac_tls_ca_path (\<lambda>v. ac_tls_ca_path_update (\<lambda>_. v)),
      load_field api (as_int api) node ''cpu_cores'' (\<lambda>c. sint (ac_cpu_cores c)) (\<lambda>v. ac_cpu_cores_update (\<lambda>_. word_of_int v)),
      load_field api (as_int api) node ''ram_mb'' (\<lambda>c. sint (ucast (ac_ram_mb c) :: i32)) (\<lambda>v. ac_ram_mb_update (\<lambda>_. word_of_int v)),
      load_field api (as_int api) node ''gpu_count'' (\<lambda>c. sint (ac_gpu_count c)) (\<lambda>v. ac_gpu_count_update (\<lambda>_. word_of_int v))]"

definition load_agent_config :: "'n yaml_api \<Rightarrow> string \<Rightarrow> agent_config" where
  "load_agent_config api path = load_section api path ''agent'' (agent_fields api) default_agent_config"

definition gateway_fields :: "'n yaml_api \<Rightarrow> 'n \<Rightarrow> (gateway_config \<Rightarrow> gateway_config option) list" where
  "gateway_fields api node =
     [load_field api (as_string api) node ''bind_address'' gc_bind_address (\<lambda>v. gc_bind_address_update (\<lambda>_. v)),
      load_field api (as_int api) node ''http_port'' (\<lambda>c. uint (gc_http_port c)) (\<lambda>v. gc_http_port_update (\<lambda>_. word_of_int v)),
      load_field api (as_string api) node ''master_address'' gc_master_address (\<lambda>v. gc_master_address_update (\<lambda>_. v)),
      load_field api (as_int api) node ''master_port'' (\<lambda>c. uint (gc_master_port c)) (\<lambda>v. gc_master_port_update (\<lambda>_. word_of_int v)),
      load_field api (as_string api) node ''log_level'' gc_log_level (\<lambda>v. gc_log_level_update (\<lambda>_. v)),
      load_field api (as_string api) node ''web_root'' gc_web_root (\<lambda>v. gc_web_root_update (\<lambda>_. v)),
      load_field api (as_string api) node ''jwt_secret'' gc_jwt_secret (\<lambda>v. gc_jwt_secret_update (\<lambda>_. v)),
      load_field api (as_bool api) node ''enable_cors'' gc_enable_cors (\<lambda>v. gc_enable_cors_update (\<lambda>_. v)),
      load_field api (as_string api) node ''cors_origin'' gc_cors_origin (\<lambda>v. gc_cors_origin_update (\<lambda>_. v))]"

definition load_gateway_config :: "'n yaml_api \<Rightarrow> string \<Rightarrow> gateway_config" where
  "load_gateway_config api path = load_section api path ''gateway'' (gateway_fields api) default_gateway_config"

section \<open>Running the assignments\<close>

text \<open>The value a field gets when nothing throws: what its key converts to, or the old value.\<close>

definition field_value :: "'n yaml_api \<Rightarrow> ('n \<Rightarrow> 'a option) \<Rightarrow> 'n \<Rightarrow> string \<Rightarrow> 'a \<Rightarrow> 'a" where
  "field_value api conv node key d = (case yaml_get api conv node key d of None \<Rightarrow> d | Some v \<Rightarrow> v)"

text \<open>The key is absent or converts.\<close>

definition field_fine :: "'n yaml_api \<Rightarrow> ('n \<Rightarrow> 'a option) \<Rightarrow> 'n \<Rightarrow> string \<Rightarrow> bool" where
  "field_fine api conv node key \<longleftrightarrow>
     (case yaml_sub api node key of None \<Rightarrow> False | Some None \<Rightarrow> True | Some (Some v) \<Rightarrow> conv v \<noteq> None)"

lemma load_field_fine:
  "field_fine api conv node key \<Longrightarrow>
     load_field api conv node key sel upd cfg = Some (upd (field_value api conv node key (sel cfg)) cfg)"
  by (auto simp: field_fine_def load_field_def field_value_def yaml_get_def split: option.splits)

lemma load_field_throws:
  "\<not> field_fine api conv node key \<Longrightarrow> load_field api conv node key sel upd cfg = None"
  by (auto simp: field_fine_def load_field_def yaml_get_def split: option.splits)

lemma field_value_cases:
  "field_value api conv node key d = d \<or>
     (\<exists>v. yaml_sub api node key = Some (Some v) \<and> conv v = Some (field_value api conv node key d))"
  by (auto simp: field_value_def yaml_get_def split: option.split)

lemma field_value_default: "yaml_sub api node key = Some None \<Longrightarrow> field_value api conv node key d = d"
  by (simp add: field_value_def yaml_get_def)

lemma field_value_given:
  "yaml_sub api node key = Some (Some v) \<Longrightarrow> conv v = Some x \<Longrightarrow> field_value api conv node key d = x"
  by (simp add: field_value_def yaml_get_def)

definition section_node :: "'n yaml_api \<Rightarrow> string \<Rightarrow> string \<Rightarrow> 'n option" where
  "section_node api path section =
     (case yaml_load api path of None \<Rightarrow> None | Some doc \<Rightarrow>
        (case yaml_sub api doc section of Some (Some node) \<Rightarrow> Some node | _ \<Rightarrow> None))"

lemma load_section_eq:
  "load_section api path section loads cfg =
     (case section_node api path section of None \<Rightarrow> cfg | Some node \<Rightarrow> run_loads (loads node) cfg)"
  by (simp add: load_section_def section_node_def split: option.split)

section \<open>Properties\<close>

text \<open>
  A file that is missing, does not parse or has no \<open>master\<close> section gives the defaults.  When
  every key of the section is absent or converts, each setting is what its key says, or its
  default; the integers are reduced modulo the width of their field, so a port is the written
  number modulo 65536.
\<close>

theorem load_master_config_fields:
  "(section_node api path ''master'' = None \<longrightarrow> load_master_config api path = default_master_config) \<and>
    (section_node api path ''master'' = Some node \<longrightarrow> ((\<forall>key\<in>{''bind_address'', ''db_path'', ''log_dir'', ''log_level'', ''jwt_secret'', ''tls_cert_path'',
        ''tls_key_path'', ''node_auth_key''}. field_fine api (as_string api) node key)) \<longrightarrow> ((\<forall>key\<in>{''grpc_port'', ''jwt_expiry_sec'', ''heartbeat_timeout_sec'', ''scheduler_interval_ms'',
        ''backfill_window_sec'', ''max_backfill_jobs''}. field_fine api (as_int api) node key)) \<longrightarrow> field_fine api (as_double api) node ''fair_share_decay_hours'' \<longrightarrow> field_fine api (as_bool api) node ''enable_tls'' \<longrightarrow> load_master_config api path =
       \<lparr>mc_bind_address = field_value api (as_string api) node ''bind_address'' ''0.0.0.0'',
        mc_grpc_port = word_of_int (field_value api (as_int api) node ''grpc_port'' 50051),
        mc_db_path = field_value api (as_string api) node ''db_path'' ''certosc.db'',
        mc_log_dir = field_value api (as_string api) node ''log_dir'' ''/var/log/certosc'',
        mc_log_level = field_value api (as_string api) node ''log_level'' ''info'',
        mc_jwt_secret = field_value api (as_string api) node ''jwt_secret'' ''certosc-dev-secret-change-in-production'',
        mc_jwt_expiry_sec = word_of_int (field_value api (as_int api) node ''jwt_expiry_sec'' 3600),
        mc_heartbeat_timeout_sec = word_of_int (field_value api (as_int api) node ''heartbeat_timeout_sec'' 15),
        mc_scheduler_interval_ms = word_of_int (field_value api (as_int api) node ''scheduler_interval_ms'' 1000),
        mc_backfill_window_sec = word_of_int (field_value api (as_int api) node ''backfill_window_sec'' 3600),
        mc_max_backfill_jobs = word_of_int (field_value api (as_int api) node ''max_backfill_jobs'' 50),
        mc_fair_share_decay_hours = field_value api (as_double api) node ''fair_share_decay_hours'' 24,
        mc_enable_tls = field_value api (as_bool api) node ''enable_tls'' False,
        mc_tls_cert_path = field_value api (as_string api) node ''tls_cert_path'' '''',
        mc_tls_key_path = field_value api (as_string api) node ''tls_key_path'' '''',
        mc_node_auth_key = field_value api (as_string api) node ''node_auth_key'' ''certosc-node-key''\<rparr>)"
  by (rule conj_goals(1); intro impI)
     (simp add: load_master_config_def load_section_eq,
      simp add: load_master_config_def load_section_eq master_fields_def load_field_fine default_master_config_def)

text \<open>A file with one section as an association list of texts.\<close>

datatype demo_yaml = Scalar string | Section "(string \<times> demo_yaml) list"

definition demo_api :: "demo_yaml \<Rightarrow> demo_yaml yaml_api" where
  "demo_api doc = \<lparr>yaml_load = (\<lambda>_. Some doc),
     yaml_sub = (\<lambda>n k. case n of Scalar _ \<Rightarrow> None | Section kvs \<Rightarrow> Some (map_of kvs k)),
     as_string = (\<lambda>n. case n of Scalar s \<Rightarrow> Some s | Section _ \<Rightarrow> None),
     as_int = (\<lambda>n. if n = Scalar ''70000'' then Some 70000 else None),
     as_double = (\<lambda>_. None), as_bool = (\<lambda>_. None)\<rparr>"

theorem load_master_config_fields_witness:
  "mc_grpc_port (load_master_config (demo_api (Section [(''master'', Section [(''grpc_port'', Scalar ''70000'')])])) ''f'')
     = 4464"
proof -
  let ?api = "demo_api (Section [(''master'', Section [(''grpc_port'', Scalar ''70000'')])])"
  let ?node = "Section [(''grpc_port'', Scalar ''70000'')]"
  have sec: "section_node ?api ''f'' ''master'' = Some ?node"
    by (simp add: section_node_def demo_api_def)
  have sub: "yaml_sub ?api ?node k = Some (if k = ''grpc_port'' then Some (Scalar ''70000'') else None)" for k
    by (simp add: demo_api_def)
  have conv: "as_int ?api (Scalar ''70000'') = Some 70000"
    by (simp add: demo_api_def)
  have "load_master_config ?api ''f'' = default_master_config\<lparr>mc_grpc_port := word_of_int 70000\<rparr>"
    by (subst load_master_config_fields [THEN conjunct2, THEN mp, THEN mp, THEN mp, THEN mp, THEN mp, OF sec])
       (simp_all add: field_fine_def field_value_def yaml_get_def sub conv default_master_config_def)
  then show ?thesis by simp
qed

text \<open>
  A key that does not convert ends the loading there: the settings assigned before it are kept
  as the file says, and it and all later ones stay at their defaults.  For instance a bad
  \<open>http_port\<close> makes the gateway ignore the rest of its section except \<open>bind_address\<close>.
\<close>

theorem bad_key_ends_loading:
  assumes "section_node api path ''gateway'' = Some node"
    and "field_fine api (as_string api) node ''bind_address''"
  shows "(\<not> field_fine api (as_int api) node ''http_port'' \<longrightarrow> load_gateway_config api path = default_gateway_config
        \<lparr>gc_bind_address := field_value api (as_string api) node ''bind_address'' ''0.0.0.0''\<rparr>) \<and>
    (field_fine api (as_int api) node ''http_port'' \<longrightarrow> \<not> field_fine api (as_string api) node ''master_address'' \<longrightarrow> load_gateway_config api path = default_gateway_config
        \<lparr>gc_bind_address := field_value api (as_string api) node ''bind_address'' ''0.0.0.0'',
         gc_http_port := word_of_int (field_value api (as_int api) node ''http_port'' 8080)\<rparr>) \<and>
    (((\<forall>f\<in>set fs. \<forall>c. f c \<noteq> None)) \<longrightarrow> ((\<forall>c. bad c = None)) \<longrightarrow> (run_loads (fs @ bad # later) cfg = fold (\<lambda>f c. the (f c)) fs cfg))"
proof (rule conj_goals(2); (intro impI)?)
  show "\<not> field_fine api (as_int api) node ''http_port'' \<Longrightarrow>
      load_gateway_config api path = default_gateway_config
        \<lparr>gc_bind_address := field_value api (as_string api) node ''bind_address'' ''0.0.0.0''\<rparr>"
    using assms by (simp add: load_gateway_config_def load_section_eq gateway_fields_def load_field_fine
        load_field_throws) (simp add: default_gateway_config_def)
  show "field_fine api (as_int api) node ''http_port'' \<Longrightarrow>
      \<not> field_fine api (as_string api) node ''master_address'' \<Longrightarrow>
      load_gateway_config api path = default_gateway_config
        \<lparr>gc_bind_address := field_value api (as_string api) node ''bind_address'' ''0.0.0.0'',
         gc_http_port := word_of_int (field_value api (as_int api) node ''http_port'' 8080)\<rparr>"
    using assms by (simp add: load_gateway_config_def load_section_eq gateway_fields_def load_field_fine
        load_field_throws) (simp add: default_gateway_config_def)
  show "run_loads (fs @ bad # later) cfg = fold (\<lambda>f c. the (f c)) fs cfg"
    if "\<forall>f\<in>set fs. \<forall>c. f c \<noteq> None" "\<forall>c. bad c = None"
    using that
  proof (induction fs arbitrary: cfg)
    case (Cons f fs)
    have "f cfg \<noteq> None" by (metis Cons.prems(1) list.set_intros(1))
    then obtain c where "f cfg = Some c" by blast
    with Cons show ?case by simp
  qed simp
qed

theorem bad_key_ends_loading_witness:
  "load_gateway_config (demo_api (Section [(''gateway'',
      Section [(''http_port'', Scalar ''http''), (''web_root'', Scalar ''/srv'')])])) ''f'' = default_gateway_config"
proof -
  let ?node = "Section [(''http_port'', Scalar ''http''), (''web_root'', Scalar ''/srv'')]"
  let ?api = "demo_api (Section [(''gateway'', ?node)])"
  have sec: "section_node ?api ''f'' ''gateway'' = Some ?node"
    by (simp add: section_node_def demo_api_def)
  have fine: "field_fine ?api (as_string ?api) ?node ''bind_address''"
    and bad: "\<not> field_fine ?api (as_int ?api) ?node ''http_port''"
    by (simp_all add: field_fine_def demo_api_def)
  have "field_value ?api (as_string ?api) ?node ''bind_address'' ''0.0.0.0'' = ''0.0.0.0''"
    by (rule field_value_default) (simp add: demo_api_def)
  with bad_key_ends_loading [THEN conjunct1, THEN mp, OF sec fine bad] show ?thesis
    by (simp add: default_gateway_config_def)
qed

section \<open>The constants of types.h\<close>

text \<open>
  The defaults above are written out a second time in \<open>config.h\<close>; the two copies agree.  Three of the
  constants are used nowhere: the WebSocket port, the number of jobs per user and the time limit.
\<close>

lemma defaults_agree:
  "mc_grpc_port default_master_config = MASTER_GRPC_PORT"
  "ac_master_port default_agent_config = MASTER_GRPC_PORT" "gc_master_port default_gateway_config = MASTER_GRPC_PORT"
  "gc_http_port default_gateway_config = GATEWAY_HTTP_PORT"
  "ac_heartbeat_interval_sec default_agent_config = HEARTBEAT_INTERVAL_SEC"
  "ac_metrics_interval_sec default_agent_config = METRICS_INTERVAL_SEC"
  "mc_heartbeat_timeout_sec default_master_config = HEARTBEAT_TIMEOUT_SEC"
  "mc_scheduler_interval_ms default_master_config = SCHEDULER_INTERVAL_MS"
  "mc_jwt_expiry_sec default_master_config = JWT_EXPIRY_SEC"
  "mc_fair_share_decay_hours default_master_config = FAIR_SHARE_DECAY_HALFLIFE_HOURS"
  "mc_backfill_window_sec default_master_config = BACKFILL_WINDOW_SEC"
  "mc_max_backfill_jobs default_master_config = MAX_BACKFILL_JOBS"
  "mc_db_path default_master_config = DEFAULT_DB_PATH"
  "mc_log_dir default_master_config = DEFAULT_LOG_DIR" "ac_log_dir default_agent_config = DEFAULT_LOG_DIR"
  "mc_jwt_secret default_master_config = JWT_SECRET" "gc_jwt_secret default_gateway_config = JWT_SECRET"
  by (simp_all add: default_master_config_def default_agent_config_def default_gateway_config_def
      MASTER_GRPC_PORT_def GATEWAY_HTTP_PORT_def HEARTBEAT_INTERVAL_SEC_def METRICS_INTERVAL_SEC_def
      HEARTBEAT_TIMEOUT_SEC_def SCHEDULER_INTERVAL_MS_def JWT_EXPIRY_SEC_def FAIR_SHARE_DECAY_HALFLIFE_HOURS_def
      BACKFILL_WINDOW_SEC_def MAX_BACKFILL_JOBS_def DEFAULT_DB_PATH_def DEFAULT_LOG_DIR_def JWT_SECRET_def)

end
