(* ===== verification/Master_Server.thy ===== *)
theory Master_Server
  imports Agent_Service Config Scheduler
begin

text \<open>
  \<open>MasterServer\<close> (\<open>master/src/master_server.cpp\<close>): the constructor that seeds the administration
  database and wires the components, and the start and stop of the scheduler's thread and of the
  gRPC server.  The resource manager, the JWT manager and the role table are built there too, but no
  handler uses them.
\<close>

text \<open>The five writes of the constructor, in order; their results are ignored.\<close>

definition seed_admin_db :: "'db sqlite_api \<Rightarrow> 'db \<Rightarrow> 'db" where
  "seed_admin_db api db0 =
     (let db1 = snd (set_kv api db0 ''user:admin'' ''admin123'');
          db2 = snd (set_kv api db1 ''role:admin'' ''admin'');
          db3 = snd (set_kv api db2 ''user:user1'' ''user123'');
          db4 = snd (set_kv api db3 ''role:user1'' ''user'')
      in snd (set_kv api db4 ''system:user_list'' ''admin,user1''))"

text \<open>Both databases opened; \<open>init\<close> creates the tables and its result is ignored as well.\<close>

definition master_server :: "'db sqlite_api \<Rightarrow> master_config \<Rightarrow> unix_time \<Rightarrow> 'db \<Rightarrow> 'db \<Rightarrow> 'db master" where
  "master_server api config now admin jobs =
     \<lparr>job_mgr = new_job_manager (Some (snd (execute api jobs schema_sql))),
      node_reg = [],
      admin_db = seed_admin_db api (snd (execute api admin schema_sql)),
      fair_share_mgr = new_fair_share (mc_fair_share_decay_hours config) now\<rparr>"

text \<open>The address the server listens on; TLS changes nothing but a log line.\<close>

definition server_address :: "master_config \<Rightarrow> string" where
  "server_address config = mc_bind_address config @ '':'' @ to_string (unat (mc_grpc_port config))"

text \<open>One turn of the scheduler thread.\<close>

definition scheduler_turn :: "job_sort \<Rightarrow> unix_time \<Rightarrow> 'db master \<Rightarrow> 'db master" where
  "scheduler_turn srt now m =
     (let (fs, jm) = schedule_pass srt (fair_share_mgr m) (job_mgr m) (node_reg m) now
      in m\<lparr>fair_share_mgr := fs, job_mgr := jm\<rparr>)"

section \<open>Starting and stopping\<close>

text \<open>
  The thread of the scheduler and the gRPC server.  Whether \<open>BuildAndStart\<close> could bind the port is
  an argument: otherwise it returns null, which \<open>start\<close> does not look at.
\<close>

record scheduler_thread =
  th_running :: bool
  th_interval_ms :: u32

definition scheduler_start :: "u32 \<Rightarrow> scheduler_thread \<Rightarrow> scheduler_thread" where
  "scheduler_start interval_ms th =
     (if th_running th then th else th\<lparr>th_interval_ms := interval_ms, th_running := True\<rparr>)"

definition scheduler_stop :: "scheduler_thread \<Rightarrow> scheduler_thread" where
  "scheduler_stop th = (if \<not> th_running th then th else th\<lparr>th_running := False\<rparr>)"

text \<open>The passes at the times \<open>nows\<close>, until \<open>running_\<close> is read as false.\<close>

definition scheduling_loop :: "job_sort \<Rightarrow> unix_time list \<Rightarrow> 'db master \<Rightarrow> 'db master" where
  "scheduling_loop srt nows m = fold (scheduler_turn srt) nows m"

record server_threads =
  sv_scheduler :: scheduler_thread
  sv_grpc_server :: "string option" \<comment> \<open>the address it listens on\<close>

definition new_server_threads :: server_threads where
  "new_server_threads =
     \<lparr>sv_scheduler = \<lparr>th_running = False, th_interval_ms = 0\<rparr>, sv_grpc_server = None\<rparr>"

definition server_start :: "master_config \<Rightarrow> bool \<Rightarrow> server_threads \<Rightarrow> server_threads" where
  "server_start config bound sv =
     sv\<lparr>sv_scheduler := scheduler_start (mc_scheduler_interval_ms config) (sv_scheduler sv),
        sv_grpc_server := (if bound then Some (server_address config) else None)\<rparr>"

text \<open>Whether \<open>wait()\<close> blocks.\<close>

definition server_waits :: "server_threads \<Rightarrow> bool" where
  "server_waits sv \<longleftrightarrow> sv_grpc_server sv \<noteq> None"

definition server_stop :: "server_threads \<Rightarrow> server_threads" where
  "server_stop sv = sv\<lparr>sv_scheduler := scheduler_stop (sv_scheduler sv)\<rparr>"

lemma seed_admin_db_reads:
  assumes store: "kv_store (get_kv api) (set_kv api) plain" and ok: "writes_succeed api" and "plain k"
  shows "get_kv api (seed_admin_db api db) k =
    (if k = ''user:admin'' then Some ''admin123'' else if k = ''role:admin'' then Some ''admin''
     else if k = ''user:user1'' then Some ''user123'' else if k = ''role:user1'' then Some ''user''
     else if k = ''system:user_list'' then Some ''admin,user1'' else get_kv api db k)"
proof -
  have put: "get_kv api (snd (set_kv api db k v)) k' = (if k' = k then Some v else get_kv api db k')"
    if "plain k" "plain v" "plain k'" for db k v k'
    using kv_store.get_after_any [OF store that] ok that by (simp add: writes_succeed_def)
  show ?thesis
    using \<open>plain k\<close> by (simp add: seed_admin_db_def Let_def put)
qed

section \<open>Properties\<close>

text \<open>
  A start of the master resets the accounts.  Whatever the database held before, afterwards the
  two built-in users log in with the passwords of the source, \<open>admin\<close> as administrator, and the
  list of users is these two; every other account still logs in as before although it is no longer
  listed.  No job and no node survives a start, and nobody has recorded usage.
\<close>

theorem start_resets_accounts:
  assumes "kv_store (get_kv api) (set_kv api) plain" "writes_succeed api"
    and m: "m = master_server api config now db jobs_db" and db1: "db1 = snd (execute api db schema_sql)"
  shows "(status_ok (fst (login api m \<lparr>cr_username = ''admin'', cr_password = q\<rparr>)) \<longleftrightarrow> q = ''admin123'') \<and>
    ui_role (at_user (snd (login api m \<lparr>cr_username = ''admin'', cr_password = ''admin123''\<rparr>))) = USER_ROLE_ADMIN \<and>
    listed_users api m = [''admin'', ''user1''] \<and>
    (plain u \<longrightarrow> u \<noteq> ''admin'' \<longrightarrow> u \<noteq> ''user1'' \<longrightarrow> (status_ok (fst (login api m \<lparr>cr_username = u, cr_password = q\<rparr>)) \<longleftrightarrow> get_kv api db1 (''user:'' @ u) = Some q)) \<and>
    get_job (job_mgr m) k = None \<and>
    get_node (node_reg m) k = None \<and>
    usage_of (fair_share_mgr m) k = 0"
proof (rule conj_goals(6); (intro impI)?)
  note reads = seed_admin_db_reads [OF assms(1,2)]
  have admin: "admin_db m = seed_admin_db api db1" by (simp add: m db1 master_server_def)
  have user: "get_kv api (admin_db m) ''user:admin'' = Some ''admin123''"
    and role: "get_kv api (admin_db m) ''role:admin'' = Some ''admin''"
    and list: "get_kv api (admin_db m) ''system:user_list'' = Some ''admin,user1''"
    by (simp_all add: admin reads)
  show login: "status_ok (fst (login api m \<lparr>cr_username = ''admin'', cr_password = q\<rparr>)) \<longleftrightarrow> q = ''admin123''" for q
    using user by (auto simp: login_ok_iff)
  show "ui_role (at_user (snd (login api m \<lparr>cr_username = ''admin'', cr_password = ''admin123''\<rparr>))) = USER_ROLE_ADMIN"
    using login_token(3) [of api m "\<lparr>cr_username = ''admin'', cr_password = ''admin123''\<rparr>"] login [of "''admin123''"] role
    by simp
  show "listed_users api m = [''admin'', ''user1'']"
    using list by (simp add: listed_users_def)
  show "status_ok (fst (login api m \<lparr>cr_username = u, cr_password = q\<rparr>)) \<longleftrightarrow> get_kv api db1 (''user:'' @ u) = Some q"
    if "plain u" "u \<noteq> ''admin''" "u \<noteq> ''user1''"
    using that by (simp add: login_ok_iff admin reads)
  show "get_job (job_mgr m) k = None" "get_node (node_reg m) k = None" "usage_of (fair_share_mgr m) k = 0"
    by (simp_all add: m master_server_def new_job_manager_def get_job_def get_node_def new_fair_share_def usage_of_def)
qed

theorem start_resets_accounts_witness:
  "listed_users ref_api (master_server ref_api default_master_config 0
     (no_tables\<lparr>t_kv := [(''system:user_list'', ''admin,user1,eve'')]\<rparr>) no_tables) = [''admin'', ''user1'']"
  by (rule start_resets_accounts [THEN conjunct2, THEN conjunct2, THEN conjunct1, OF ref.store.kv_store_axioms ref_writes_succeed refl refl])

end
