(* ===== verification/Job_Executor.thy ===== *)
theory Job_Executor
  imports Messages
begin

text \<open>
  \<open>JobExecutor\<close> (\<open>agent/src/job_executor.cpp\<close>): the table of running jobs and the thread that runs
  one job.  The table is the only shared state and is accessed under the mutex, so the thread is a
  sequence of sections between which the other threads run: the start (pipe, archive, fork), the
  registration of the pid, the reading of the output, and the removal from the table.  The answers
  of the operating system are the record \<open>os_run\<close>.
\<close>

section \<open>State and results\<close>

record running_job =
  rj_pid :: int

record job_executor =
  work_dir :: string
  running_jobs :: "running_job table"
  log_chunks_wanted :: bool \<comment> \<open>whether \<open>on_log_chunk_\<close> is set\<close>

record job_result =
  res_job_id :: string
  res_exit_code :: int
  res_error_message :: string
  res_stdout_data :: string
  res_stderr_data :: string
  res_success :: bool

definition new_executor :: "string \<Rightarrow> job_executor" where
  "new_executor dir = \<lparr>work_dir = dir, running_jobs = [], log_chunks_wanted = False\<rparr>"

datatype wait_status = Exited nat | Signaled nat | Other_status

text \<open>
  What the operating system answers.  When the child never ends, or never stops writing, \<open>os_reads\<close> is
  what has been read by some moment.
\<close>

record os_run =
  os_pipe_ok :: bool
  os_sandbox_ok :: bool \<comment> \<open>whether \<open>create_directories\<close> returns\<close>
  os_fork :: int \<comment> \<open>-1, or the pid of the child\<close>
  os_reads :: "string list" \<comment> \<open>what the successive \<open>read\<close> calls return\<close>
  os_ends :: bool \<comment> \<open>whether \<open>read\<close> gets to the end and \<open>waitpid\<close> returns\<close>
  os_wait :: wait_status

datatype exec_event =
    Started string int
  | Log_chunk string string
  | Completed job_result

section \<open>Operations on the table\<close>

definition get_running_count :: "job_executor \<Rightarrow> u32" where
  "get_running_count ex = of_nat (length (running_jobs ex))"

definition execute_async :: "job_executor \<Rightarrow> string \<Rightarrow> bool \<times> job_executor" where
  "execute_async ex job_id =
     (if map_of (running_jobs ex) job_id \<noteq> None then (False, ex)
      else (True, ex\<lparr>running_jobs := AList.update job_id \<lparr>rj_pid = 0\<rparr> (running_jobs ex)\<rparr>))"

text \<open>The pid that is sent \<open>SIGTERM\<close>; the method returns whether there is one.\<close>

definition cancel :: "job_executor \<Rightarrow> string \<Rightarrow> int option" where
  "cancel ex job_id =
     (case map_of (running_jobs ex) job_id of
        Some rjob \<Rightarrow> if rj_pid rjob > 0 then Some (rj_pid rjob) else None
      | None \<Rightarrow> None)"

text \<open>The pids the destructor sends \<open>SIGKILL\<close>.\<close>

definition shutdown_kills :: "job_executor \<Rightarrow> int list" where
  "shutdown_kills ex = filter (\<lambda>p. p > 0) (map rj_pid (map snd (running_jobs ex)))"

section \<open>The execution thread\<close>

definition sandbox_dir :: "job_executor \<Rightarrow> string \<Rightarrow> job_spec \<Rightarrow> string" where
  "sandbox_dir ex job_id spec =
     (if spec_archive_path spec \<noteq> '''' then work_dir ex @ ''/'' @ job_id else '''')"

text \<open>The shell command run before the fork, if there is an archive.\<close>

definition untar_cmd :: "job_executor \<Rightarrow> string \<Rightarrow> job_spec \<Rightarrow> string option" where
  "untar_cmd ex job_id spec =
     (if spec_archive_path spec \<noteq> ''''
      then Some (''tar -xzf '' @ spec_archive_path spec @ '' -C '' @ sandbox_dir ex job_id spec)
      else None)"

definition child_argv :: "job_executor \<Rightarrow> string \<Rightarrow> job_spec \<Rightarrow> string list" where
  "child_argv ex job_id spec =
     (if spec_container_image spec \<noteq> ''''
      then [''singularity'', ''exec'', ''--bind'', sandbox_dir ex job_id spec, spec_container_image spec]
      else [])
     @ [spec_command spec] @ spec_args spec"

definition early_failure :: "string \<Rightarrow> os_run \<Rightarrow> job_result option" where
  "early_failure job_id os =
     (let failed = (\<lambda>msg. Some \<lparr>res_job_id = job_id, res_exit_code = -1, res_error_message = msg,
              res_stdout_data = '''', res_stderr_data = '''', res_success = False\<rparr>)
      in if \<not> os_pipe_ok os then failed ''Failed to create pipe''
         else if os_fork os = -1 then failed ''Failed to fork''
         else None)"

definition register_pid :: "job_executor \<Rightarrow> string \<Rightarrow> int \<Rightarrow> job_executor" where
  "register_pid ex job_id pid =
     (case map_of (running_jobs ex) job_id of
        Some rjob \<Rightarrow> ex\<lparr>running_jobs := AList.update job_id (rjob\<lparr>rj_pid := pid\<rparr>) (running_jobs ex)\<rparr>
      | None \<Rightarrow> ex)"

text \<open>Each chunk is read into a buffer of 1023 bytes and taken as a C string.\<close>

definition read_output :: "string list \<Rightarrow> string" where
  "read_output reads = concat (map c_str reads)"

definition exit_result :: "string \<Rightarrow> os_run \<Rightarrow> job_result" where
  "exit_result job_id os =
     (let (exit_code, success, error_msg) =
            (case os_wait os of
               Exited c \<Rightarrow> (int c, c = 0, '''')
             | Signaled n \<Rightarrow> (128 + int n, False, ''Process killed by signal '' @ to_string n)
             | Other_status \<Rightarrow> (-1, False, ''''))
      in \<lparr>res_job_id = job_id, res_exit_code = exit_code, res_error_message = error_msg,
          res_stdout_data = read_output (os_reads os), res_stderr_data = '''', res_success = success\<rparr>)"

definition deregister :: "job_executor \<Rightarrow> string \<Rightarrow> job_executor" where
  "deregister ex job_id =
     (if map_of (running_jobs ex) job_id \<noteq> None
      then ex\<lparr>running_jobs := AList.delete job_id (running_jobs ex)\<rparr> else ex)"

text \<open>
  \<open>create_directories\<close> throws when the sandbox cannot be made.  Nothing in the thread catches it, so
  \<open>std::terminate\<close> ends the process, before any report and with the threads of all other jobs.
\<close>

definition sandbox_throws :: "os_run \<Rightarrow> job_spec \<Rightarrow> bool" where
  "sandbox_throws os spec \<longleftrightarrow> os_pipe_ok os \<and> spec_archive_path spec \<noteq> '''' \<and> \<not> os_sandbox_ok os"

datatype thread_end = Returned | Never_returned | Process_terminated

text \<open>
  The whole thread.  \<open>before\<close> and \<open>during\<close> are what the other threads do to the table between the
  start of the thread and the registration, and while the job runs.
\<close>

definition execution_thread ::
  "(job_executor \<Rightarrow> job_executor) \<Rightarrow> (job_executor \<Rightarrow> job_executor) \<Rightarrow> os_run \<Rightarrow> job_executor
     \<Rightarrow> string \<Rightarrow> job_spec \<Rightarrow> thread_end \<times> job_executor \<times> exec_event list" where
  "execution_thread before during os ex job_id spec =
     (if sandbox_throws os spec then (Process_terminated, before ex, [])
      else case early_failure job_id os of
        Some r \<Rightarrow> (Returned, before ex, [Completed r])
      | None \<Rightarrow>
          (let ex1 = register_pid (before ex) job_id (os_fork os);
               logs = (if log_chunks_wanted ex1 then map (\<lambda>c. Log_chunk job_id (c_str c)) (os_reads os) else [])
           in if \<not> os_ends os
              then (Never_returned, during ex1, [Started job_id (os_fork os)] @ logs)
              else (Returned, deregister (during ex1) job_id,
                    [Started job_id (os_fork os)] @ logs @ [Completed (exit_result job_id os)])))"

section \<open>Lemmas\<close>

named_theorems exec_simps \<open>the table of running jobs after each operation\<close>

definition running :: "job_executor \<Rightarrow> string \<Rightarrow> bool" where
  "running ex job_id \<longleftrightarrow> map_of (running_jobs ex) job_id \<noteq> None"

lemma fst_execute_async [exec_simps]: "fst (execute_async ex i) \<longleftrightarrow> \<not> running ex i"
  by (simp add: execute_async_def running_def)

lemma running_execute [exec_simps]: "running (snd (execute_async ex i)) k \<longleftrightarrow> k = i \<or> running ex k"
  by (auto simp: execute_async_def running_def table_simps)

lemma running_register [exec_simps]: "running (register_pid ex i p) k \<longleftrightarrow> running ex k"
  by (auto simp: register_pid_def running_def table_simps split: option.splits)

lemma running_deregister [exec_simps]: "running (deregister ex i) k \<longleftrightarrow> k \<noteq> i \<and> running ex k"
  by (auto simp: deregister_def running_def table_simps)

lemma cancel_execute [exec_simps]: "cancel (snd (execute_async ex i)) k = cancel ex k"
  by (auto simp: execute_async_def cancel_def table_simps split: option.splits)

lemma cancel_register [exec_simps]:
  "cancel (register_pid ex i p) k = (if k = i \<and> running ex i then if p > 0 then Some p else None else cancel ex k)"
  by (auto simp: register_pid_def cancel_def running_def table_simps split: option.splits)

lemma cancel_deregister [exec_simps]: "cancel (deregister ex i) k = (if k = i then None else cancel ex k)"
  by (auto simp: deregister_def cancel_def table_simps split: option.splits)

lemma cancel_running: "cancel ex i = Some p \<Longrightarrow> running ex i \<and> p > 0"
  by (auto simp: cancel_def running_def split: option.splits if_splits)

definition distinct_jobs :: "job_executor \<Rightarrow> bool" where
  "distinct_jobs ex \<longleftrightarrow> distinct (map fst (running_jobs ex))"

lemma distinct_jobs_ops [intro]:
  "distinct_jobs (new_executor dir)"
  "distinct_jobs ex \<Longrightarrow> distinct_jobs (snd (execute_async ex i))"
  "distinct_jobs ex \<Longrightarrow> distinct_jobs (register_pid ex i p)"
  "distinct_jobs ex \<Longrightarrow> distinct_jobs (deregister ex i)"
  by (auto simp: distinct_jobs_def new_executor_def execute_async_def register_pid_def deregister_def
      distinct_update distinct_delete split: option.split)

section \<open>Properties\<close>

text \<open>
  A job is in at most one execution at a time and can be reached while it runs.  Starting a job
  succeeds exactly when it is not running; from its start until its thread removes it, a second
  start is refused; a cancel from the registration of its pid until then signals exactly that pid,
  and before the registration and after the removal signals nothing, so a cancellation that arrives
  before the pid is registered is dropped.
\<close>

theorem execution_exclusive:
  assumes "execute_async ex i = (ok, ex1)"
  shows "(ok \<longleftrightarrow> \<not> running ex i) \<and>
    \<not> fst (execute_async ex1 i) \<and>
    \<not> fst (execute_async (register_pid ex1 i p) i) \<and>
    fst (execute_async (deregister (register_pid ex1 i p) i) i) \<and>
    (ok \<longrightarrow> cancel ex1 i = None) \<and>
    (p > 0 \<longrightarrow> cancel (register_pid ex1 i p) i = Some p) \<and>
    cancel (deregister (register_pid ex1 i p) i) i = None \<and>
    (k \<noteq> i \<longrightarrow> cancel (deregister (register_pid ex1 i p) i) k = cancel ex k)"
proof (rule conj_goals(7); (intro impI)?)
  have ex1: "ex1 = snd (execute_async ex i)" and ok: "ok = fst (execute_async ex i)"
    using assms by simp_all
  show "ok \<longleftrightarrow> \<not> running ex i" by (simp add: ok exec_simps)
  show "\<not> fst (execute_async ex1 i)" "\<not> fst (execute_async (register_pid ex1 i p) i)"
    "fst (execute_async (deregister (register_pid ex1 i p) i) i)"
    by (simp_all add: ex1 exec_simps)
  show "ok \<Longrightarrow> cancel ex1 i = None"
    using cancel_running [of ex i] by (cases "cancel ex i") (auto simp: ex1 ok exec_simps)
  show "p > 0 \<Longrightarrow> cancel (register_pid ex1 i p) i = Some p"
    "cancel (deregister (register_pid ex1 i p) i) i = None"
    "k \<noteq> i \<Longrightarrow> cancel (deregister (register_pid ex1 i p) i) k = cancel ex k"
    by (simp_all add: ex1 exec_simps)
qed

theorem execution_exclusive_witness:
  "cancel (register_pid (snd (execute_async (new_executor ''/tmp'') ''job-1'')) ''job-1'' 42) ''job-1'' = Some 42"
  using execution_exclusive [THEN conjunct2, THEN conjunct2, THEN conjunct2, THEN conjunct2, THEN conjunct2, THEN conjunct1, THEN mp, OF prod.collapse [symmetric], of 42] by simp


definition failing_os :: os_run where
  "failing_os = \<lparr>os_pipe_ok = True, os_sandbox_ok = True, os_fork = -1, os_reads = [], os_ends = True, os_wait = Other_status\<rparr>"


end
