(* ===== verification/System_Monitor.thy ===== *)
theory System_Monitor
  imports Certos_Prelude
begin

text \<open>
  The system monitor of an agent (\<open>lib/metrics/src/system_monitor.cpp\<close>).  What the kernel answers is
  the record \<open>host\<close>: the text of \<open>/proc/stat\<close> and \<open>/proc/net/dev\<close> (\<open>None\<close> where the file cannot be
  opened), the two \<open>sysinfo\<close> calls and \<open>statvfs\<close> (\<open>None\<close> where they fail), the entries of \<open>/proc\<close> and
  the clock.  Counters are 64-bit words whose sums and differences wrap; a \<open>double\<close> is read as a
  real.  A variable that the stream did not assign is uninitialised: using it is the result \<open>None\<close>.
\<close>

section \<open>Formatted input\<close>

text \<open>A stream at the end of its text, or in error, is \<open>Spent\<close>: no further extraction succeeds.\<close>

datatype istream = Spent | Good string

definition stream_of :: "string \<Rightarrow> istream" where
  "stream_of t = (if t = [] then Spent else Good t)"

definition is_space :: "char \<Rightarrow> bool" where
  "is_space c \<longleftrightarrow> (of_char c :: nat) = 32 \<or> 9 \<le> (of_char c :: nat) \<and> (of_char c :: nat) \<le> 13"

definition is_digit :: "char \<Rightarrow> bool" where
  "is_digit c \<longleftrightarrow> 48 \<le> (of_char c :: nat) \<and> (of_char c :: nat) < 58"

text \<open>\<open>stream >> word\<close>, into an empty string.\<close>

fun next_word :: "istream \<Rightarrow> string \<times> istream" where
  "next_word Spent = ('''', Spent)"
| "next_word (Good t) =
     (let u = dropWhile is_space t
      in (takeWhile (\<lambda>c. \<not> is_space c) u, stream_of (dropWhile (\<lambda>c. \<not> is_space c) u)))"

definition digits_value :: "string \<Rightarrow> nat" where
  "digits_value ds = foldl (\<lambda>n c. 10 * n + (of_char c - 48)) 0 ds"

text \<open>
  \<open>stream >> n\<close> for an unsigned 64-bit \<open>n\<close>: \<open>None\<close> leaves it as it was; text that is no number
  stores 0 and a number that is too large the maximum, and both put the stream in error.
\<close>

fun next_u64 :: "istream \<Rightarrow> u64 option \<times> istream" where
  "next_u64 Spent = (None, Spent)"
| "next_u64 (Good t) =
     (case dropWhile is_space t of
        [] \<Rightarrow> (None, Spent)
      | c # cs \<Rightarrow>
          (let body = (if c = CHR ''+'' \<or> c = CHR ''-'' then cs else c # cs);
               n = digits_value (takeWhile is_digit body)
           in if takeWhile is_digit body = [] then (Some 0, Spent)
              else if 2 ^ 64 \<le> n then (Some (- 1), Spent)
              else (Some (if c = CHR ''-'' then - of_nat n else of_nat n), stream_of (dropWhile is_digit body))))"

text \<open>\<open>stream >> a >> b >> ...\<close>, the values of \<open>k\<close> variables.\<close>

fun scan :: "nat \<Rightarrow> istream \<Rightarrow> u64 option list" where
  "scan 0 s = []"
| "scan (Suc k) s = (let (v, s') = next_u64 s in v # scan k s')"

section \<open>The monitor\<close>

record system_monitor =
  last_cpu_total :: u64
  last_cpu_idle :: u64
  last_net_rx :: u64
  last_net_tx :: u64
  last_collection_time :: int

definition new_monitor :: system_monitor where
  "new_monitor = \<lparr>last_cpu_total = 0, last_cpu_idle = 0, last_net_rx = 0, last_net_tx = 0,
     last_collection_time = 0\<rparr>"

record sysinfo =
  si_totalram :: u64
  si_freeram :: u64
  si_mem_unit :: u32
  si_loads :: "u64 \<times> u64 \<times> u64"

record statvfs =
  f_blocks :: u64
  f_bfree :: u64
  f_frsize :: u64

text \<open>The entries of \<open>/proc\<close> are those read before the end of the directory or the first exception.\<close>

record host =
  h_now :: unix_time
  h_now_ms :: int
  h_stat :: "string option"
  h_meminfo :: "sysinfo option"
  h_statvfs :: "string \<Rightarrow> statvfs option"
  h_loadinfo :: "sysinfo option"
  h_net_dev :: "string option"
  h_proc :: "(string \<times> bool) list"

definition get_cpu_usage :: "string option \<Rightarrow> system_monitor \<Rightarrow> (real \<times> system_monitor) option" where
  "get_cpu_usage file mon =
     (case file of
        None \<Rightarrow> Some (0, mon)
      | Some content \<Rightarrow>
          (let line = takeWhile (\<lambda>c. c \<noteq> CHR 0x0A) content;
               (cpu_label, s) = next_word (stream_of line)
           in if cpu_label \<noteq> ''cpu'' then Some (0, mon)
              else case those (scan 8 s) of
                     None \<Rightarrow> None
                   | Some v \<Rightarrow>
                       (let user = v ! 0; nice = v ! 1; system = v ! 2; idle = v ! 3;
                            iowait = v ! 4; irq = v ! 5; softirq = v ! 6; steal = v ! 7;
                            total_idle = idle + iowait;
                            total_non_idle = user + nice + system + irq + softirq + steal;
                            total = total_idle + total_non_idle;
                            diff_total = real (unat (total - last_cpu_total mon));
                            diff_idle = real (unat (total_idle - last_cpu_idle mon));
                            mon' = mon\<lparr>last_cpu_total := total, last_cpu_idle := total_idle\<rparr>
                        in Some (if diff_total = 0 then 0 else (1 - diff_idle / diff_total) * 100, mon'))))"

text \<open>Used and total megabytes and the percentage, as both memory and disk compute them.\<close>

definition usage_mb :: "u64 \<Rightarrow> u64 \<Rightarrow> u64 \<times> u64 \<times> real" where
  "usage_mb total_bytes free_bytes =
     (let used = total_bytes - free_bytes
      in (used div (1024 * 1024), total_bytes div (1024 * 1024),
          if total_bytes > 0 then real (unat used) / real (unat total_bytes) * 100 else 0))"

definition get_ram_usage :: "sysinfo option \<Rightarrow> u64 \<times> u64 \<times> real" where
  "get_ram_usage res =
     (case res of
        None \<Rightarrow> (0, 0, 0)
      | Some info \<Rightarrow> usage_mb (si_totalram info * ucast (si_mem_unit info)) (si_freeram info * ucast (si_mem_unit info)))"

definition get_disk_usage :: "(string \<Rightarrow> statvfs option) \<Rightarrow> string \<Rightarrow> u64 \<times> u64 \<times> real" where
  "get_disk_usage vfs path =
     (case vfs path of
        None \<Rightarrow> (0, 0, 0)
      | Some stat \<Rightarrow> usage_mb (f_blocks stat * f_frsize stat) (f_bfree stat * f_frsize stat))"

definition get_load_avg :: "sysinfo option \<Rightarrow> real \<times> real \<times> real" where
  "get_load_avg res =
     (case res of
        None \<Rightarrow> (0, 0, 0)
      | Some info \<Rightarrow> (let (a, b, c) = si_loads info
                     in (real (unat a) / 65536, real (unat b) / 65536, real (unat c) / 65536)))"

text \<open>The loop over the lines after the two of the header.\<close>

fun add_interfaces :: "string list \<Rightarrow> u64 \<Rightarrow> u64 \<Rightarrow> (u64 \<times> u64) option" where
  "add_interfaces [] total_rx total_tx = Some (total_rx, total_tx)"
| "add_interfaces (line # lines) total_rx total_tx =
     (let (iface, s) = next_word (stream_of line)
      in if str_find ''lo:'' iface \<noteq> None then add_interfaces lines total_rx total_tx
         else let v = scan 9 s
              in case (v ! 0, v ! 8) of
                   (Some rx_bytes, Some tx_bytes) \<Rightarrow> add_interfaces lines (total_rx + rx_bytes) (total_tx + tx_bytes)
                 | _ \<Rightarrow> None)"

definition net_totals :: "string \<Rightarrow> (u64 \<times> u64) option" where
  "net_totals content = add_interfaces (drop 2 (getline_all (CHR 0x0A) content)) 0 0"

definition get_net_io :: "string option \<Rightarrow> int \<Rightarrow> system_monitor \<Rightarrow> ((real \<times> real) \<times> system_monitor) option" where
  "get_net_io file time_delta_ms mon =
     (case file of
        None \<Rightarrow> Some ((0, 0), mon)
      | Some content \<Rightarrow>
          map_option (\<lambda>(total_rx, total_tx).
            (if time_delta_ms > 0 \<and> last_net_rx mon > 0
             then (real (unat (total_rx - last_net_rx mon)) / (real_of_int time_delta_ms / 1000),
                   real (unat (total_tx - last_net_tx mon)) / (real_of_int time_delta_ms / 1000))
             else (0, 0),
             mon\<lparr>last_net_rx := total_rx, last_net_tx := total_tx\<rparr>)) (net_totals content))"

definition process_count :: "(string \<times> bool) list \<Rightarrow> u32" where
  "process_count entries = of_nat (length (filter (\<lambda>(name, is_dir). is_dir \<and> list_all is_digit name) entries))"

record metrics_snapshot =
  ms_node_id :: string
  ms_cpu_usage_percent :: real
  ms_ram_usage_percent :: real
  ms_ram_used_mb :: u64
  ms_ram_total_mb :: u64
  ms_gpu_usage_percent :: real
  ms_disk_usage_percent :: real
  ms_disk_used_mb :: u64
  ms_disk_total_mb :: u64
  ms_load_avg :: "real \<times> real \<times> real"
  ms_process_count :: u32
  ms_timestamp :: unix_time
  ms_network_rx_bytes_sec :: real
  ms_network_tx_bytes_sec :: real

definition collect :: "host \<Rightarrow> string \<Rightarrow> system_monitor \<Rightarrow> (metrics_snapshot \<times> system_monitor) option" where
  "collect h node_id mon =
     (case get_cpu_usage (h_stat h) mon of
        None \<Rightarrow> None
      | Some (cpu, mon1) \<Rightarrow>
          (let (ram_used, ram_total, ram_pct) = get_ram_usage (h_meminfo h);
               (disk_used, disk_total, disk_pct) = get_disk_usage (h_statvfs h) ''/''
           in case get_net_io (h_net_dev h) (h_now_ms h - last_collection_time mon) mon1 of
                None \<Rightarrow> None
              | Some ((rx_sec, tx_sec), mon2) \<Rightarrow>
                  Some (\<lparr>ms_node_id = node_id, ms_cpu_usage_percent = cpu, ms_ram_usage_percent = ram_pct,
                         ms_ram_used_mb = ram_used, ms_ram_total_mb = ram_total, ms_gpu_usage_percent = 0,
                         ms_disk_usage_percent = disk_pct, ms_disk_used_mb = disk_used, ms_disk_total_mb = disk_total,
                         ms_load_avg = get_load_avg (h_loadinfo h), ms_process_count = process_count (h_proc h),
                         ms_timestamp = h_now h, ms_network_rx_bytes_sec = rx_sec, ms_network_tx_bytes_sec = tx_sec\<rparr>,
                        mon2\<lparr>last_collection_time := h_now_ms h\<rparr>)))"

text \<open>One collection after the other, as the heartbeat loop makes them.\<close>

fun collects :: "host list \<Rightarrow> string \<Rightarrow> system_monitor \<Rightarrow> (metrics_snapshot list \<times> system_monitor) option" where
  "collects [] node_id mon = Some ([], mon)"
| "collects (h # hs) node_id mon =
     (case collect h node_id mon of
        None \<Rightarrow> None
      | Some (snap, mon') \<Rightarrow> map_option (\<lambda>(snaps, mon''). (snap # snaps, mon'')) (collects hs node_id mon'))"

section \<open>Reading the kernel's tables\<close>

text \<open>Numbers as the kernel prints them, each after some spaces; \<open>(k, n)\<close> is \<open>n\<close> after \<open>k + 1\<close> spaces.\<close>

definition numbers :: "(nat \<times> nat) list \<Rightarrow> string" where
  "numbers ns = concat (map (\<lambda>(k, n). replicate (Suc k) CHR '' '' @ to_string n) ns)"

abbreviation fit64 :: "(nat \<times> nat) list \<Rightarrow> bool" where
  "fit64 ns \<equiv> list_all (\<lambda>(k, n). n < 2 ^ 64) ns"

lemma stream_of_simps [simp]:
  "stream_of [] = Spent" "stream_of (c # cs) = Good (c # cs)"
  by (simp_all add: stream_of_def)

lemma chars_class [simp]:
  "is_space CHR '' ''" "is_space CHR 0x0A" "\<not> is_digit CHR '' ''" "\<not> is_digit CHR 0x0A" "\<not> is_space CHR '':''"
  by (simp_all add: is_space_def is_digit_def)

lemma to_string_class:
  "c \<in> set (to_string n) \<Longrightarrow> is_digit c" "c \<in> set (to_string n) \<Longrightarrow> \<not> is_space c"
  "to_string n \<noteq> []"
  using to_string_digits [of c n] to_string.simps [of n]
  by (auto simp: is_digit_def is_space_def)

lemma digits_value_snoc: "digits_value (ds @ [c]) = 10 * digits_value ds + (of_char c - 48)"
  by (simp add: digits_value_def)

lemma digits_value_to_string [simp]: "digits_value (to_string n) = n"
proof (induction n rule: to_string.induct)
  case (1 n)
  have d: "of_char (digit_char m) = 48 + m" if "m < 10" for m :: nat
    using digit_char_code [OF that] .
  show ?case
  proof (cases "n < 10")
    case True
    then have "to_string n = [digit_char n]" by (simp add: to_string.simps [of n])
    then show ?thesis using d [OF True] by (simp add: digits_value_def del: digit_char.simps)
  next
    case False
    then have "to_string n = to_string (n div 10) @ [digit_char (n mod 10)]" by (subst to_string.simps) simp
    then show ?thesis
      using 1 [OF False] d [of "n mod 10"] by (simp add: digits_value_snoc del: digit_char.simps)
  qed
qed

lemma dropWhile_all: "\<forall>x\<in>set xs. P x \<Longrightarrow> ys = [] \<or> \<not> P (hd ys) \<Longrightarrow> dropWhile P (xs @ ys) = ys"
  by (cases ys) (auto simp: dropWhile_append2)

lemma takeWhile_all: "\<forall>x\<in>set xs. P x \<Longrightarrow> ys = [] \<or> \<not> P (hd ys) \<Longrightarrow> takeWhile P (xs @ ys) = xs"
  by (cases ys) (auto simp: takeWhile_append2)

lemma next_u64_number:
  assumes "n < 2 ^ 64" "r = [] \<or> \<not> is_digit (hd r)"
  shows "next_u64 (stream_of (replicate (Suc k) CHR '' '' @ to_string n @ r)) = (Some (of_nat n), stream_of r)"
proof -
  obtain c cs where s: "to_string n = c # cs" using to_string_class(3) by (cases "to_string n") auto
  then have c: "is_digit c" "\<not> is_space c" using to_string_class(1,2) [of c n] by auto
  then have sign: "c \<noteq> CHR ''+''" "c \<noteq> CHR ''-''" by (auto simp: is_digit_def)
  have "dropWhile is_space (replicate (Suc k) CHR '' '' @ to_string n @ r) = to_string n @ r"
    by (rule dropWhile_all) (auto simp: s c)
  moreover have "takeWhile is_digit (to_string n @ r) = to_string n" "dropWhile is_digit (to_string n @ r) = r"
    using assms(2) by (auto intro!: takeWhile_all dropWhile_all to_string_class(1))
  ultimately show ?thesis
    using assms(1) sign digits_value_to_string [of n]
    by (simp add: s Let_def del: digits_value_to_string)
qed

lemma scan_numbers:
  assumes "fit64 ns" "k \<le> length ns" "r = [] \<or> \<not> is_digit (hd r)"
  shows "scan k (stream_of (numbers ns @ r)) = map (\<lambda>(_, n). Some (of_nat n)) (take k ns)"
  using assms(1,2)
proof (induction k arbitrary: ns)
  case (Suc k)
  then obtain p n ns' where ns: "ns = (p, n) # ns'" by (cases ns) auto
  have tail: "numbers ns' @ r = [] \<or> \<not> is_digit (hd (numbers ns' @ r))"
    using assms(3) by (cases ns') (auto simp: numbers_def)
  have "numbers ns @ r = replicate (Suc p) CHR '' '' @ to_string n @ (numbers ns' @ r)"
    by (simp add: numbers_def ns)
  then show ?case
    using next_u64_number [OF _ tail, of n p] Suc by (simp add: ns Let_def)
qed simp

lemma scan_numbers_all:
  assumes "fit64 ns" "k \<le> length ns" "r = [] \<or> \<not> is_digit (hd r)"
  shows "those (scan k (stream_of (numbers ns @ r))) = Some (map (of_nat \<circ> snd) (take k ns))"
proof -
  have "those (map (\<lambda>(_, n). Some (of_nat n)) xs) = Some (map (of_nat \<circ> snd) xs)" for xs :: "(nat \<times> nat) list"
    by (induction xs) auto
  then show ?thesis by (simp add: scan_numbers [OF assms])
qed

lemma next_word_text:
  assumes "w \<noteq> []" "\<forall>c\<in>set w. \<not> is_space c" "r = [] \<or> is_space (hd r)"
  shows "next_word (stream_of (replicate p CHR '' '' @ w @ r)) = (w, stream_of r)"
proof -
  obtain c cs where w: "w = c # cs" using assms(1) by (cases w) auto
  have "dropWhile is_space (replicate p CHR '' '' @ w @ r) = w @ r"
    by (rule dropWhile_all) (use assms(2) in \<open>auto simp: w\<close>)
  moreover have "takeWhile (\<lambda>c. \<not> is_space c) (w @ r) = w" "dropWhile (\<lambda>c. \<not> is_space c) (w @ r) = r"
    using assms(2,3) by (cases r; auto intro!: takeWhile_all dropWhile_all)+
  moreover have "stream_of (replicate p CHR '' '' @ w @ r) = Good (replicate p CHR '' '' @ w @ r)"
    by (simp add: stream_of_def w)
  ultimately show ?thesis by (simp add: Let_def)
qed

lemma numbers_chars: "c \<in> set (numbers ns) \<Longrightarrow> is_digit c \<or> c = CHR '' ''"
  by (auto simp: numbers_def dest: to_string_class(1))

lemma numbers_no_newline: "CHR 0x0A \<notin> set (numbers ns)"
  using numbers_chars [of "CHR 0x0A" ns] by auto

lemma numbers_hd: "numbers ns = [] \<or> is_space (hd (numbers ns))"
  by (cases ns) (auto simp: numbers_def)

text \<open>The first line of \<open>/proc/stat\<close>: user, nice, system, idle, iowait, irq, softirq, steal and more.\<close>

definition stat_text :: "(nat \<times> nat) list \<Rightarrow> string \<Rightarrow> string" where
  "stat_text ns rest = ''cpu'' @ numbers ns @ CHR 0x0A # rest"

definition cpu_ticks :: "(nat \<times> nat) list \<Rightarrow> nat" where
  "cpu_ticks ns = sum_list (map snd (take 8 ns))"

definition idle_ticks :: "(nat \<times> nat) list \<Rightarrow> nat" where
  "idle_ticks ns = snd (ns ! 3) + snd (ns ! 4)"

lemma unsigned_real_0 [simp]: "(unsigned (w :: u64) :: real) = 0 \<longleftrightarrow> w = 0"
  by (rule unsigned_eq_0_iff)

definition cpu_percent :: "u64 \<Rightarrow> u64 \<Rightarrow> real" where
  "cpu_percent ticks idle = (if ticks = 0 then 0 else (1 - real (unat idle) / real (unat ticks)) * 100)"

lemma list_of_8: "8 \<le> length xs \<Longrightarrow> \<exists>a b c d e f g h ys. xs = a # b # c # d # e # f # g # h # ys"
  by (simp add: numeral_eq_Suc Suc_le_length_iff) blast

lemma get_cpu_usage_stat:
  assumes "fit64 ns" "8 \<le> length ns"
  shows "get_cpu_usage (Some (stat_text ns rest)) mon =
    Some (cpu_percent (of_nat (cpu_ticks ns) - last_cpu_total mon) (of_nat (idle_ticks ns) - last_cpu_idle mon),
      mon\<lparr>last_cpu_total := of_nat (cpu_ticks ns), last_cpu_idle := of_nat (idle_ticks ns)\<rparr>)"
proof -
  have line: "takeWhile (\<lambda>c. c \<noteq> CHR 0x0A) (stat_text ns rest) = ''cpu'' @ numbers ns"
  proof -
    have "stat_text ns rest = (''cpu'' @ numbers ns) @ CHR 0x0A # rest" by (simp add: stat_text_def)
    moreover have "takeWhile (\<lambda>c. c \<noteq> CHR 0x0A) \<dots> = ''cpu'' @ numbers ns"
      by (rule takeWhile_all) (use numbers_no_newline [of ns] in auto)
    ultimately show ?thesis by simp
  qed
  have word: "next_word (stream_of (''cpu'' @ numbers ns)) = (''cpu'', stream_of (numbers ns))"
    using next_word_text [of "''cpu''" "numbers ns" 0] numbers_hd [of ns] by (simp add: is_space_def)
  obtain a b c d e f g h ys where ns: "ns = a # b # c # d # e # f # g # h # ys"
    using list_of_8 [OF assms(2)] by blast
  have vals: "those (scan 8 (stream_of (numbers ns))) = Some (map (of_nat \<circ> snd) (take 8 ns))"
    using scan_numbers_all [OF assms, of "[]"] by simp
  have "those (scan 8 (stream_of (numbers ns))) = Some [of_nat (snd a), of_nat (snd b), of_nat (snd c), of_nat (snd d),
      of_nat (snd e), of_nat (snd f), of_nat (snd g), of_nat (snd h)]"
    unfolding vals by (simp add: ns)
  then show ?thesis
    unfolding get_cpu_usage_def option.case line word Let_def prod.case
    by (simp add: cpu_percent_def cpu_ticks_def idle_ticks_def ns ac_simps cong: if_cong)
qed

section \<open>Percentages\<close>

lemma of_nat_minus_u64:
  assumes "unat (w :: u64) \<le> n" "n < 2 ^ 64"
  shows "unat (of_nat n - w) = n - unat w"
proof -
  have "unat (of_nat n :: u64) = n" using assms(2) by (simp add: unat_of_nat)
  moreover have "w \<le> of_nat n" using calculation assms(1) by (simp add: word_le_nat_alt)
  ultimately show ?thesis by (simp add: unat_sub)
qed

lemma percent_range:
  assumes "u \<le> (t :: nat)"
  shows "0 \<le> real u / real t * 100 \<and> real u / real t * 100 \<le> 100"
  using assms by (cases "t = 0") (auto simp: divide_le_eq)

lemma usage_mb_range:
  assumes "free_bytes \<le> total_bytes" "usage_mb total_bytes free_bytes = (used_mb, total_mb, pct)"
  shows "0 \<le> pct \<and> pct \<le> 100" "used_mb \<le> total_mb"
proof -
  have le: "total_bytes - free_bytes \<le> total_bytes"
    using assms(1) by (simp add: word_le_nat_alt unat_sub)
  then have "unat (total_bytes - free_bytes) \<le> unat total_bytes" by (simp add: word_le_nat_alt)
  then show "0 \<le> pct \<and> pct \<le> 100"
    using assms(2) percent_range [of "unat (total_bytes - free_bytes)" "unat total_bytes"]
    by (auto simp: usage_mb_def Let_def split: if_splits)
  have "(total_bytes - free_bytes) div (1024 * 1024) \<le> total_bytes div (1024 * 1024)"
    using le by (simp add: word_le_nat_alt unat_div div_le_mono)
  then show "used_mb \<le> total_mb"
    using assms(2) by (auto simp: usage_mb_def Let_def)
qed

section \<open>The interfaces\<close>

text \<open>A line of \<open>/proc/net/dev\<close>: padding, the name with a colon, and the counters.\<close>

type_synonym interface_line = "nat \<times> string \<times> (nat \<times> nat) list"

definition net_line :: "interface_line \<Rightarrow> string" where
  "net_line = (\<lambda>(p, iface, ns). replicate p CHR '' '' @ iface @ '':'' @ numbers ns)"

definition net_dev_text :: "string \<Rightarrow> string \<Rightarrow> interface_line list \<Rightarrow> string" where
  "net_dev_text h1 h2 lines = concat (map (\<lambda>l. l @ [CHR 0x0A]) (h1 # h2 # map net_line lines))"

definition well_formed_line :: "interface_line \<Rightarrow> bool" where
  "well_formed_line = (\<lambda>(p, iface, ns). fit64 ns \<and> 9 \<le> length ns \<and> list_all (\<lambda>c. \<not> is_space c) iface
     \<and> CHR '':'' \<notin> set iface)"

text \<open>The test for the loopback device excludes every name that ends in \<open>lo\<close>.\<close>

definition counted :: "interface_line \<Rightarrow> bool" where
  "counted = (\<lambda>(p, iface, ns). \<not> suffix ''lo'' iface)"

definition rx_of :: "interface_line \<Rightarrow> nat" where "rx_of = (\<lambda>(p, iface, ns). snd (ns ! 0))"
definition tx_of :: "interface_line \<Rightarrow> nat" where "tx_of = (\<lambda>(p, iface, ns). snd (ns ! 8))"

lemma getline_all_lines:
  "list_all (\<lambda>l. d \<notin> set l) ls \<Longrightarrow> getline_all d (concat (map (\<lambda>l. l @ [d]) ls)) = ls"
  by (induction ls) (simp_all add: getline_all_sep)

lemma find_loopback:
  assumes "CHR '':'' \<notin> set iface"
  shows "str_find ''lo:'' (iface @ '':'') = None \<longleftrightarrow> \<not> suffix ''lo'' iface"
proof -
  have "sublist ''lo:'' (iface @ '':'') \<longleftrightarrow> suffix ''lo'' iface"
  proof
    assume "sublist ''lo:'' (iface @ '':'')"
    then obtain xs ys where eq: "iface @ '':'' = xs @ ''lo:'' @ ys" by (auto simp: sublist_def)
    have "ys = []"
    proof (rule ccontr)
      assume "ys \<noteq> []"
      then have "iface = xs @ ''lo:'' @ butlast ys"
        using arg_cong [OF eq, of butlast] by (simp add: butlast_append)
      then show False using assms by simp
    qed
    then show "suffix ''lo'' iface" using eq by (auto simp: suffix_def)
  next
    assume "suffix ''lo'' iface"
    then obtain xs where "iface = xs @ ''lo''" by (auto simp: suffix_def)
    then have "iface @ '':'' = xs @ ''lo:'' @ []" by simp
    then show "sublist ''lo:'' (iface @ '':'')" unfolding sublist_def by blast
  qed
  then show ?thesis by (simp add: str_find_None)
qed

lemma add_interfaces_line:
  assumes "well_formed_line l"
  shows "add_interfaces (net_line l # ls) a b =
    (if counted l then add_interfaces ls (a + of_nat (rx_of l)) (b + of_nat (tx_of l)) else add_interfaces ls a b)"
proof -
  obtain p iface ns where l: "l = (p, iface, ns)" by (cases l)
  then have wf: "fit64 ns" "9 \<le> length ns" "\<forall>c\<in>set iface. \<not> is_space c" "CHR '':'' \<notin> set iface"
    using assms by (auto simp: well_formed_line_def list_all_iff)
  have word: "next_word (stream_of (net_line l)) = (iface @ '':'', stream_of (numbers ns))"
    using next_word_text [of "iface @ '':''" "numbers ns" p] wf(3) numbers_hd [of ns]
    by (auto simp: l net_line_def)
  have "scan 9 (stream_of (numbers ns)) = map (\<lambda>(_, n). Some (of_nat n)) (take 9 ns)"
    using scan_numbers [OF wf(1,2), of "[]"] by simp
  then have vals: "scan 9 (stream_of (numbers ns)) ! 0 = Some (of_nat (snd (ns ! 0)))"
    "scan 9 (stream_of (numbers ns)) ! 8 = Some (of_nat (snd (ns ! 8)))"
    using wf(2) by (simp_all add: case_prod_unfold)
  have "rx_of l = snd (ns ! 0)" "tx_of l = snd (ns ! 8)" "counted l \<longleftrightarrow> str_find ''lo:'' (iface @ '':'') = None"
    by (simp_all add: rx_of_def tx_of_def counted_def l find_loopback [OF wf(4)])
  then show ?thesis
    unfolding add_interfaces.simps word Let_def prod.case vals option.case by simp
qed

lemma add_interfaces_lines:
  "list_all well_formed_line lines \<Longrightarrow> add_interfaces (map net_line lines) a b =
     Some (a + of_nat (sum_list (map rx_of (filter counted lines))),
           b + of_nat (sum_list (map tx_of (filter counted lines))))"
  by (induction lines arbitrary: a b) (simp_all add: add_interfaces_line del: add_interfaces.simps(2))

lemma net_totals_lines:
  assumes "list_all well_formed_line lines" "CHR 0x0A \<notin> set h1" "CHR 0x0A \<notin> set h2"
  shows "net_totals (net_dev_text h1 h2 lines) = Some (of_nat (sum_list (map rx_of (filter counted lines))),
    of_nat (sum_list (map tx_of (filter counted lines))))"
proof -
  have "CHR 0x0A \<notin> set (net_line l)" if "well_formed_line l" for l
    using that numbers_no_newline
    by (cases l) (auto simp: well_formed_line_def net_line_def list_all_iff)
  then have "list_all (\<lambda>l. CHR 0x0A \<notin> set l) (h1 # h2 # map net_line lines)"
    using assms by (auto simp: list_all_iff)
  from getline_all_lines [OF this] show ?thesis
    using add_interfaces_lines [OF assms(1), of 0 0] by (simp add: net_totals_def net_dev_text_def)
qed

lemma busy_share:
  fixes i t :: nat
  shows "i \<le> t \<Longrightarrow> 0 \<le> (1 - real i / real t) * 100 \<and> (1 - real i / real t) * 100 \<le> 100"
    and "0 < t \<Longrightarrow> t < i \<Longrightarrow> (1 - real i / real t) * 100 < 0"
  by (cases "t = 0"; simp add: divide_le_eq) (simp add: less_divide_eq)

lemma cpu_percent_steady:
  assumes "unat idle \<le> unat ticks"
  shows "0 \<le> cpu_percent ticks idle \<and> cpu_percent ticks idle \<le> 100"
  using busy_share(1) [OF assms] by (simp add: cpu_percent_def)

lemma cpu_percent_negative:
  assumes "unat ticks < unat idle" "0 < unat ticks"
  shows "cpu_percent ticks idle < 0"
  using busy_share(2) [OF assms(2,1)] assms(2) by (auto simp: cpu_percent_def)

lemma unat_of_nat_u64: "n < 2 ^ 64 \<Longrightarrow> unat (of_nat n :: u64) = n"
  by (simp add: unat_of_nat)

lemma unat_wrap_sub:
  assumes "n < unat (w :: u64)"
  shows "unat (of_nat n - w) + (unat w - n) = 2 ^ 64"
proof -
  have "n < 2 ^ 64" using assms unsigned_less [of w, where 'a = nat] by simp
  then have "unat (of_nat n :: u64) = n" by (rule unat_of_nat_u64)
  then show ?thesis
    using assms unsigned_less [of w, where 'a = nat] by (simp add: unat_sub_if' word_le_nat_alt)
qed

text \<open>
  The CPU percentage.  For \<open>/proc/stat\<close> as the kernel prints it, whatever the spacing and the
  further fields, the counters are read exactly and remembered for the next call.  When the busy
  and the idle time did not go backwards, the result is the busy share of the ticks since the last
  call, between 0 and 100.  When the idle time fell (the iowait counter of Linux may), the
  difference wraps and a negative percentage is reported.
\<close>

theorem cpu_usage_measured:
  assumes "fit64 ns" "8 \<le> length ns" "cpu_ticks ns < 2 ^ 64"
    and new: "unat (last_cpu_total mon) < cpu_ticks ns"
    and T: "T = cpu_ticks ns - unat (last_cpu_total mon)"
  shows "\<exists>u. get_cpu_usage (Some (stat_text ns rest)) mon =
      Some (u, mon\<lparr>last_cpu_total := of_nat (cpu_ticks ns), last_cpu_idle := of_nat (idle_ticks ns)\<rparr>) \<and>
    (unat (last_cpu_idle mon) \<le> idle_ticks ns \<and> idle_ticks ns - unat (last_cpu_idle mon) \<le> T \<longrightarrow>
       u = (1 - real (idle_ticks ns - unat (last_cpu_idle mon)) / real T) * 100 \<and> 0 \<le> u \<and> u \<le> 100) \<and>
    (idle_ticks ns < unat (last_cpu_idle mon) \<and> unat (last_cpu_idle mon) - idle_ticks ns + T < 2 ^ 64 \<longrightarrow> u < 0)"
proof -
  let ?ticks = "of_nat (cpu_ticks ns) - last_cpu_total mon" and ?idle = "of_nat (idle_ticks ns) - last_cpu_idle mon"
  have t: "unat ?ticks = T" "0 < T"
    using of_nat_minus_u64 [of "last_cpu_total mon" "cpu_ticks ns"] assms(3) new T by simp_all
  have idle_fits: "idle_ticks ns < 2 ^ 64"
  proof -
    obtain a b c d e f g h ys where "ns = a # b # c # d # e # f # g # h # ys"
      using list_of_8 [OF assms(2)] by blast
    then have "idle_ticks ns \<le> cpu_ticks ns" by (simp add: idle_ticks_def cpu_ticks_def)
    then show ?thesis using assms(3) by simp
  qed
  have "cpu_percent ?ticks ?idle = (1 - real (idle_ticks ns - unat (last_cpu_idle mon)) / real T) * 100
      \<and> 0 \<le> cpu_percent ?ticks ?idle \<and> cpu_percent ?ticks ?idle \<le> 100"
    if "unat (last_cpu_idle mon) \<le> idle_ticks ns" "idle_ticks ns - unat (last_cpu_idle mon) \<le> T"
  proof -
    have i: "unat ?idle = idle_ticks ns - unat (last_cpu_idle mon)"
      using of_nat_minus_u64 that(1) idle_fits by blast
    moreover have "?ticks \<noteq> 0" using t by (metis unat_0 less_irrefl)
    ultimately show ?thesis
      using cpu_percent_steady [of ?idle ?ticks] that(2) t(1) unfolding cpu_percent_def by (simp del: of_nat_unat)
  qed
  moreover have "cpu_percent ?ticks ?idle < 0"
    if "idle_ticks ns < unat (last_cpu_idle mon)" "unat (last_cpu_idle mon) - idle_ticks ns + T < 2 ^ 64"
    using cpu_percent_negative [of ?ticks ?idle] unat_wrap_sub [OF that(1)] that(2) t by simp
  ultimately show ?thesis
    using get_cpu_usage_stat [OF assms(1,2)] by blast
qed

definition demo_ticks :: "nat \<Rightarrow> (nat \<times> nat) list" where
  "demo_ticks iowait = [(1, 100), (0, 0), (0, 50), (0, 400), (0, iowait), (0, 0), (0, 1), (0, 0), (0, 7)]"

theorem cpu_usage_measured_witness:
  "\<exists>u. get_cpu_usage (Some (stat_text (demo_ticks 30) ''rest'')) (new_monitor\<lparr>last_cpu_total := 481, last_cpu_idle := 440\<rparr>) =
     Some (u, new_monitor\<lparr>last_cpu_total := 581, last_cpu_idle := 430\<rparr>) \<and> u < 0"
proof -
  have "fit64 (demo_ticks 30)" "8 \<le> length (demo_ticks 30)" "cpu_ticks (demo_ticks 30) = 581" "idle_ticks (demo_ticks 30) = 430"
    by (simp_all add: demo_ticks_def cpu_ticks_def idle_ticks_def)
  with cpu_usage_measured [of "demo_ticks 30" "new_monitor\<lparr>last_cpu_total := 481, last_cpu_idle := 440\<rparr>" 100 "''rest''"]
  show ?thesis by (simp add: new_monitor_def)
qed

lemma get_cpu_usage_keeps:
  assumes "get_cpu_usage file mon = Some (u, mon')"
  shows "last_net_rx mon' = last_net_rx mon" "last_net_tx mon' = last_net_tx mon"
    "last_collection_time mon' = last_collection_time mon"
  using assms by (auto simp: get_cpu_usage_def Let_def case_prod_unfold split: option.splits if_splits)

lemma usage_zero [simp]: "get_ram_usage None = (0, 0, 0)" "vfs p = None \<Longrightarrow> get_disk_usage vfs p = (0, 0, 0)"
  by (simp_all add: get_ram_usage_def get_disk_usage_def)

text \<open>What the kernel says of memory: no more is free than there is, and the bytes fit 64 bits.\<close>

definition sane_blocks :: "u64 \<Rightarrow> u64 \<Rightarrow> u64 \<Rightarrow> bool" where
  "sane_blocks all free unit \<longleftrightarrow> free \<le> all \<and> unat all * unat unit < 2 ^ 64"

lemma sane_blocks_le: "sane_blocks all free unit \<Longrightarrow> free * unit \<le> all * unit"
proof -
  assume sane: "sane_blocks all free unit"
  then have le: "unat free * unat unit \<le> unat all * unat unit" and fits: "unat all * unat unit < 2 ^ 64"
    by (simp_all add: sane_blocks_def word_le_nat_alt)
  moreover from this have "unat free * unat unit < 2 ^ 64" by (rule le_less_trans)
  ultimately have "unat (free * unit) = unat free * unat unit" "unat (all * unit) = unat all * unat unit"
    by (simp_all add: unat_word_ariths)
  with le show ?thesis by (simp add: word_le_nat_alt)
qed

definition sane_usage :: "host \<Rightarrow> bool" where
  "sane_usage h \<longleftrightarrow>
     (case h_meminfo h of None \<Rightarrow> True | Some i \<Rightarrow> sane_blocks (si_totalram i) (si_freeram i) (ucast (si_mem_unit i))) \<and>
     (case h_statvfs h ''/'' of None \<Rightarrow> True | Some v \<Rightarrow> sane_blocks (f_blocks v) (f_bfree v) (f_frsize v))"

lemma sane_usage_range:
  assumes "sane_usage h"
  shows "get_ram_usage (h_meminfo h) = (used, tot, pct) \<Longrightarrow> 0 \<le> pct \<and> pct \<le> 100 \<and> used \<le> tot"
    and "get_disk_usage (h_statvfs h) ''/'' = (used, tot, pct) \<Longrightarrow> 0 \<le> pct \<and> pct \<le> 100 \<and> used \<le> tot"
  using assms usage_mb_range [OF sane_blocks_le]
  by (auto simp: sane_usage_def get_ram_usage_def get_disk_usage_def split: option.splits)

text \<open>\<open>/proc/stat\<close> read twice, with no counter of the first eight lower the second time.\<close>

definition not_fallen :: "(nat \<times> nat) list \<Rightarrow> (nat \<times> nat) list \<Rightarrow> bool" where
  "not_fallen old new \<longleftrightarrow> list_all2 (\<lambda>x y. snd x \<le> snd y) (take 8 old) (take 8 new)"

lemma ticks_advance:
  assumes "8 \<le> length old" "8 \<le> length new" "not_fallen old new"
  shows "cpu_ticks old \<le> cpu_ticks new" "idle_ticks old \<le> idle_ticks new"
    and "idle_ticks new - idle_ticks old \<le> cpu_ticks new - cpu_ticks old"
proof -
  obtain a b c d e f g h ys where old: "old = a # b # c # d # e # f # g # h # ys" using list_of_8 [OF assms(1)] by blast
  obtain a' b' c' d' e' f' g' h' ys' where new: "new = a' # b' # c' # d' # e' # f' # g' # h' # ys'"
    using list_of_8 [OF assms(2)] by blast
  show "cpu_ticks old \<le> cpu_ticks new" "idle_ticks old \<le> idle_ticks new"
    using assms(3) by (simp_all add: not_fallen_def old new cpu_ticks_def idle_ticks_def)
  have "idle_ticks new + cpu_ticks old \<le> cpu_ticks new + idle_ticks old"
    using assms(3) by (simp add: not_fallen_def old new cpu_ticks_def idle_ticks_def)
  then show "idle_ticks new - idle_ticks old \<le> cpu_ticks new - cpu_ticks old"
    using \<open>idle_ticks old \<le> idle_ticks new\<close> by linarith
qed

text \<open>
  C37: A snapshot is taken and its percentages lie between 0 and 100.  The conditions: \<open>/proc/stat\<close> and
  \<open>/proc/net/dev\<close> have the kernel's format with counters of 64 bits; the monitor holds the reading \<open>old\<close> of
  the same host (eight zeros, for a new monitor) and none of the eight CPU counters has fallen since;
  and neither memory nor disk reports more free than there is.  Then the collection returns, the
  three percentages are in range, no more is used than there is, and the monitor holds the counters
  just read, so that the next collection can rely on them.  (Where the idle counters fall, as that
  of iowait may, a negative percentage is reported: \<open>cpu_usage_measured\<close>.)
\<close>

theorem snapshot_in_range:
  assumes cpu: "h_stat h = Some (stat_text ns rest)" "fit64 ns" "8 \<le> length ns" "cpu_ticks ns < 2 ^ 64"
    and before: "unat (last_cpu_total mon) = cpu_ticks old" "unat (last_cpu_idle mon) = idle_ticks old"
      "8 \<le> length old" "not_fallen old ns"
    and net: "h_net_dev h = Some (net_dev_text h1 h2 lines)" "list_all well_formed_line lines"
      "CHR 0x0A \<notin> set h1" "CHR 0x0A \<notin> set h2"
    and sane: "sane_usage h"
  shows "\<exists>snap mon'. collect h node_id mon = Some (snap, mon') \<and>
    list_all (\<lambda>p. 0 \<le> p \<and> p \<le> 100) [ms_cpu_usage_percent snap, ms_ram_usage_percent snap, ms_disk_usage_percent snap] \<and>
    ms_ram_used_mb snap \<le> ms_ram_total_mb snap \<and> ms_disk_used_mb snap \<le> ms_disk_total_mb snap \<and>
    unat (last_cpu_total mon') = cpu_ticks ns \<and> unat (last_cpu_idle mon') = idle_ticks ns \<and>
    last_net_rx mon' = of_nat (sum_list (map rx_of (filter counted lines))) \<and>
    last_collection_time mon' = h_now_ms h"
proof -
  let ?cpu = "cpu_percent (of_nat (cpu_ticks ns) - last_cpu_total mon) (of_nat (idle_ticks ns) - last_cpu_idle mon)"
  have idle: "idle_ticks ns < 2 ^ 64"
    using list_of_8 [OF cpu(3)] cpu(4) by (auto simp: idle_ticks_def cpu_ticks_def)
  have range: "0 \<le> ?cpu \<and> ?cpu \<le> 100"
    by (rule cpu_percent_steady)
       (use of_nat_minus_u64 [of "last_cpu_total mon" "cpu_ticks ns"] of_nat_minus_u64 [of "last_cpu_idle mon" "idle_ticks ns"]
          ticks_advance [OF before(3) cpu(3) before(4)] before(1,2) cpu(4) idle in simp)
  obtain ram_used ram_total ram_pct where ram: "get_ram_usage (h_meminfo h) = (ram_used, ram_total, ram_pct)"
    by (metis prod_cases3)
  obtain disk_used disk_total disk_pct where disk: "get_disk_usage (h_statvfs h) ''/'' = (disk_used, disk_total, disk_pct)"
    by (metis prod_cases3)
  show ?thesis
    using range sane_usage_range(1) [OF sane ram] sane_usage_range(2) [OF sane disk] cpu(4) idle
    by (simp add: collect_def cpu(1) get_cpu_usage_stat [OF cpu(2,3)] ram disk net(1) get_net_io_def
        net_totals_lines [OF net(2-4)] unat_of_nat_u64 case_prod_unfold)
qed

definition demo_host :: "int \<Rightarrow> nat \<Rightarrow> host" where
  "demo_host t rx = \<lparr>h_now = t div 1000, h_now_ms = t, h_stat = Some (stat_text (demo_ticks 30) ''''),
     h_meminfo = Some \<lparr>si_totalram = 4096, si_freeram = 1024, si_mem_unit = 4096, si_loads = (65536, 32768, 0)\<rparr>,
     h_statvfs = (\<lambda>_. None), h_loadinfo = None,
     h_net_dev = Some (net_dev_text ''Inter-'' ''face''
       [(1, ''lo'', replicate 16 (0, 5)), (0, ''eth0'', (0, rx) # replicate 15 (0, 7))]),
     h_proc = [(''1'', True), (''self'', True), (''42'', True)]\<rparr>"

abbreviation no_ticks :: "(nat \<times> nat) list" where
  "no_ticks \<equiv> [(0, 0), (0, 0), (0, 0), (0, 0), (0, 0), (0, 0), (0, 0), (0, 0)]"

theorem snapshot_in_range_witness:
  "\<exists>snap mon'. collect (demo_host 1000 9000) ''n'' new_monitor = Some (snap, mon') \<and> last_net_rx mon' = 9000"
proof -
  have "fit64 (demo_ticks 30)" "8 \<le> length (demo_ticks 30)" "cpu_ticks (demo_ticks 30) < 2 ^ 64"
    "unat (last_cpu_total new_monitor) = cpu_ticks no_ticks"
    "unat (last_cpu_idle new_monitor) = idle_ticks no_ticks"
    "8 \<le> length no_ticks" "not_fallen no_ticks (demo_ticks 30)"
    by (simp_all add: demo_ticks_def cpu_ticks_def idle_ticks_def new_monitor_def not_fallen_def)
  moreover have "list_all well_formed_line [(1, ''lo'', replicate 16 (0, 5)), (0, ''eth0'', (0, 9000) # replicate 15 (0, 7))]"
    by (simp add: well_formed_line_def is_space_def list_all_iff)
  moreover have "sane_usage (demo_host 1000 9000)"
    by (simp add: sane_usage_def demo_host_def sane_blocks_def)
  ultimately have "\<exists>snap mon'. collect (demo_host 1000 9000) ''n'' new_monitor = Some (snap, mon') \<and>
      last_net_rx mon' = of_nat (sum_list (map rx_of (filter counted
        [(1, ''lo'', replicate 16 (0, 5)), (0, ''eth0'', (0, 9000) # replicate 15 (0, 7))])))"
    using snapshot_in_range [of "demo_host 1000 9000" "demo_ticks 30" "''''" new_monitor no_ticks "''Inter-''" "''face''"
        "[(1, ''lo'', replicate 16 (0, 5)), (0, ''eth0'', (0, 9000) # replicate 15 (0, 7))]" "''n''"]
    by (auto simp: demo_host_def)
  moreover have "filter counted [(1, ''lo'', replicate 16 (0, 5)), (0, ''eth0'', (0, 9000) # replicate 15 (0, 7))] =
      [(0, ''eth0'', (0, 9000) # replicate 15 (0, 7))]"
    by (simp add: counted_def suffix_def)
  ultimately show ?thesis by (simp add: rx_of_def)
qed

section \<open>The network rates\<close>

definition totals_of :: "host \<Rightarrow> (u64 \<times> u64) option" where
  "totals_of h = Option.bind (h_net_dev h) net_totals"

lemma collect_net:
  assumes "collect h node_id mon = Some (snap, mon')" "totals_of h = Some (rx, tx)"
  shows "last_net_rx mon' = rx" "last_net_tx mon' = tx" "last_collection_time mon' = h_now_ms h"
    and "ms_network_rx_bytes_sec snap = (if h_now_ms h > last_collection_time mon \<and> last_net_rx mon > 0
      then real (unat (rx - last_net_rx mon)) / (real_of_int (h_now_ms h - last_collection_time mon) / 1000) else 0)"
    and "ms_network_tx_bytes_sec snap = (if h_now_ms h > last_collection_time mon \<and> last_net_rx mon > 0
      then real (unat (tx - last_net_tx mon)) / (real_of_int (h_now_ms h - last_collection_time mon) / 1000) else 0)"
  using assms get_cpu_usage_keeps [of "h_stat h" mon]
  by (auto simp: collect_def totals_of_def get_net_io_def case_prod_unfold Let_def
      split: option.splits Option.bind_splits if_splits)

text \<open>What the rates of a run of snapshots add up to, each over its own interval.\<close>

fun traffic :: "(metrics_snapshot \<Rightarrow> real) \<Rightarrow> int \<Rightarrow> host list \<Rightarrow> metrics_snapshot list \<Rightarrow> real" where
  "traffic rate t (h # hs) (s # ss) =
     rate s * (real_of_int (h_now_ms h - t) / 1000) + traffic rate (h_now_ms h) hs ss"
| "traffic rate t _ _ = 0"

text \<open>Later and later hosts whose counters are read and do not fall.\<close>

fun advancing :: "int \<Rightarrow> u64 \<Rightarrow> u64 \<Rightarrow> host list \<Rightarrow> bool" where
  "advancing t rx tx [] = True"
| "advancing t rx tx (h # hs) =
     (t < h_now_ms h \<and>
      (case totals_of h of
         None \<Rightarrow> False
       | Some (rx', tx') \<Rightarrow> rx \<le> rx' \<and> tx \<le> tx' \<and> advancing (h_now_ms h) rx' tx' hs))"

lemma real_word_sub: "(w :: u64) \<le> v \<Longrightarrow> real (unat (v - w)) = real (unat v) - real (unat w)"
  by (simp only: unat_sub of_nat_diff word_le_nat_alt)

lemma real_of_wrap: "a + (b - c) = 2 ^ 64 \<Longrightarrow> c < b \<Longrightarrow> real a = 2 ^ 64 - (real b - real c)"
proof -
  assume "a + (b - c) = 2 ^ 64" "c < b"
  then have "real a + real (b - c) = 2 ^ 64" "real (b - c) = real b - real c"
    by (simp_all flip: of_nat_add add: of_nat_diff)
  then show ?thesis by simp
qed


text \<open>
  The rates of one collection on every branch.  The first sample, a clock that did not advance
  and an earlier total of zero report no traffic.  When the total of the received bytes fell, as
  after the removal of an interface, the difference wraps: over the interval the rate stands for
  2^64 bytes less the decrease.  A table that cannot be opened leaves the remembered totals, but
  the clock advances, so the traffic of that interval is divided by the next one alone.
\<close>

theorem network_rate_cases:
  assumes "collect h node_id mon = Some (snap, mon')"
  shows "(totals_of h = Some (rx, tx) \<and> (last_net_rx mon = 0 \<or> h_now_ms h \<le> last_collection_time mon) \<longrightarrow>
      ms_network_rx_bytes_sec snap = 0 \<and> ms_network_tx_bytes_sec snap = 0 \<and> last_net_rx mon' = rx) \<and>
    (totals_of h = Some (rx, tx) \<and> rx < last_net_rx mon \<and> last_collection_time mon < h_now_ms h \<longrightarrow>
      ms_network_rx_bytes_sec snap * (real_of_int (h_now_ms h - last_collection_time mon) / 1000)
        = 2 ^ 64 - (real (unat (last_net_rx mon)) - real (unat rx))) \<and>
    (h_net_dev h = None \<longrightarrow> ms_network_rx_bytes_sec snap = 0 \<and> last_net_rx mon' = last_net_rx mon \<and>
      last_net_tx mon' = last_net_tx mon \<and> last_collection_time mon' = h_now_ms h)"
proof (rule conj_goals(2); (intro impI)?)
  assume "totals_of h = Some (rx, tx) \<and> (last_net_rx mon = 0 \<or> h_now_ms h \<le> last_collection_time mon)"
  then show "ms_network_rx_bytes_sec snap = 0 \<and> ms_network_tx_bytes_sec snap = 0 \<and> last_net_rx mon' = rx"
    using collect_net [OF assms, of rx tx] by auto
next
  assume fall: "totals_of h = Some (rx, tx) \<and> rx < last_net_rx mon \<and> last_collection_time mon < h_now_ms h"
  then have lt: "unat rx < unat (last_net_rx mon)" by (simp add: word_less_nat_alt)
  have same: "(of_nat (unat rx) :: u64) = rx" by simp
  have "real (unat (rx - last_net_rx mon)) = 2 ^ 64 - (real (unat (last_net_rx mon)) - real (unat rx))"
    by (rule real_of_wrap [OF unat_wrap_sub [OF lt, unfolded same] lt])
  moreover have "0 < last_net_rx mon" using fall by (meson le_less_trans word_zero_le)
  ultimately show "ms_network_rx_bytes_sec snap * (real_of_int (h_now_ms h - last_collection_time mon) / 1000)
        = 2 ^ 64 - (real (unat (last_net_rx mon)) - real (unat rx))"
    using collect_net(4) [OF assms, of rx tx] fall by simp
next
  assume "h_net_dev h = None"
  then show "ms_network_rx_bytes_sec snap = 0 \<and> last_net_rx mon' = last_net_rx mon \<and>
      last_net_tx mon' = last_net_tx mon \<and> last_collection_time mon' = h_now_ms h"
    using assms get_cpu_usage_keeps [of "h_stat h" mon]
    by (auto simp: collect_def get_net_io_def case_prod_unfold Let_def split: option.splits)
qed

lemma demo_totals:
  assumes "rx < 2 ^ 64"
  shows "totals_of (demo_host t rx) = Some (of_nat rx, 7)"
proof -
  let ?lines = "[(1, ''lo'', replicate 16 (0, 5)), (0, ''eth0'', (0, rx) # replicate 15 (0, 7))]"
  have "list_all well_formed_line ?lines" using assms by (simp add: well_formed_line_def is_space_def list_all_iff)
  moreover have "filter counted ?lines = [(0, ''eth0'', (0, rx) # replicate 15 (0, 7))]"
    by (simp add: counted_def suffix_def)
  ultimately show ?thesis
    using net_totals_lines [of ?lines "''Inter-''" "''face''"]
    by (simp add: totals_of_def demo_host_def rx_of_def tx_of_def)
qed

lemma collect_demo:
  assumes "rx < 2 ^ 64"
  shows "\<exists>snap mon'. collect (demo_host t rx) node_id mon = Some (snap, mon')"
proof -
  have "fit64 (demo_ticks 30)" "8 \<le> length (demo_ticks 30)" by (simp_all add: demo_ticks_def)
  from get_cpu_usage_stat [OF this] obtain u mon1 where cpu: "get_cpu_usage (h_stat (demo_host t rx)) mon = Some (u, mon1)"
    by (simp add: demo_host_def)
  obtain r where net: "get_net_io (h_net_dev (demo_host t rx)) (h_now_ms (demo_host t rx) - last_collection_time mon) mon1 = Some r"
    using demo_totals [OF assms, of t] by (auto simp: get_net_io_def totals_of_def split: Option.bind_splits)
  show ?thesis
    by (simp add: collect_def cpu net case_prod_unfold Let_def)
qed


theorem network_rate_cases_witness:
  "\<exists>snap mon'. collect (demo_host 2000 4000) ''n''
      (new_monitor\<lparr>last_net_rx := 9000, last_net_tx := 7, last_collection_time := 1000\<rparr>) = Some (snap, mon') \<and>
    ms_network_rx_bytes_sec snap = 2 ^ 64 - 5000"
proof -
  let ?m = "new_monitor\<lparr>last_net_rx := 9000, last_net_tx := 7, last_collection_time := 1000\<rparr>"
  have now: "h_now_ms (demo_host 2000 4000) = 2000" by (simp add: demo_host_def)
  have tot: "totals_of (demo_host 2000 4000) = Some (4000, 7)" by (simp add: demo_totals)
  obtain s1 m1 where c1: "collect (demo_host 2000 4000) ''n'' ?m = Some (s1, m1)"
    using collect_demo [of 4000 2000 "''n''" ?m] by auto
  then show ?thesis
    using network_rate_cases [OF c1, THEN conjunct2, THEN conjunct1, THEN mp, of 4000 7] tot now
    by (simp add: new_monitor_def)
qed

end
