(* ===== verification/Agent_Daemon.thy ===== *)
theory Agent_Daemon
  imports Agent_Service Config Job_Executor System_Monitor
begin

text \<open>
  \<open>AgentGrpcClient\<close> and \<open>AgentDaemon\<close> (\<open>agent/src/agent_grpc_client.cpp\<close>,
  \<open>agent/src/agent_daemon.cpp\<close>).  A client call is the request it builds and the reading of the
  reply; the transport in between may answer with any status.  The two loops of the daemon are
  given by their bodies: one heartbeat, one poll.
\<close>

section \<open>The client\<close>

definition register_request :: "string \<Rightarrow> string \<Rightarrow> u16 \<Rightarrow> resource_spec \<Rightarrow> register_node_request" where
  "register_request hostname ip port total_res =
     \<lparr>rn_hostname = hostname, rn_ip_address = ip, rn_port = ucast port,
      rn_total_resources = total_res, rn_os_info = ''Linux (Agent)''\<rparr>"

definition heartbeat_message ::
  "string \<Rightarrow> resource_spec \<Rightarrow> u32 \<Rightarrow> real \<Rightarrow> real \<Rightarrow> unix_time \<Rightarrow> heartbeat_request" where
  "heartbeat_message node_id avail_res jobs cpu_pct ram_pct now =
     \<lparr>hb_node_id = node_id, hb_available_resources = avail_res, hb_running_jobs = jobs, hb_timestamp = now,
      hb_cpu_usage_percent = cpu_pct, hb_ram_usage_percent = ram_pct\<rparr>"

definition register_reply :: "grpc_status \<Rightarrow> register_node_response \<Rightarrow> string option" where
  "register_reply status res = (if status_ok status \<and> rr_success res then Some (rr_node_id res) else None)"

definition heartbeat_reply :: "grpc_status \<Rightarrow> heartbeat_response \<Rightarrow> bool \<times> string list" where
  "heartbeat_reply status res =
     (let ok = status_ok status \<and> hr_acknowledged res in (ok, if ok then hr_jobs_to_cancel res else []))"

definition fetch_reply :: "grpc_status \<Rightarrow> fetch_job_response \<Rightarrow> (string \<times> job_spec) option" where
  "fetch_reply status res = (if status_ok status \<and> fj_has_job res then Some (fj_job_id res, fj_spec res) else None)"

definition report_reply :: "grpc_status \<Rightarrow> status_response \<Rightarrow> bool" where
  "report_reply status res \<longleftrightarrow> status_ok status \<and> sr_success res"

section \<open>The daemon\<close>

record agent_daemon =
  ad_config :: agent_config
  ad_node_id :: string
  ad_active :: bool
  ad_executor :: job_executor
  ad_monitor :: system_monitor

definition master_target :: "agent_config \<Rightarrow> string" where
  "master_target cfg = ac_master_address cfg @ '':'' @ to_string (unat (ac_master_port cfg))"

definition new_daemon :: "agent_config \<Rightarrow> agent_daemon" where
  "new_daemon cfg = \<lparr>ad_config = cfg, ad_node_id = '''', ad_active = False,
     ad_executor = new_executor (ac_work_dir cfg), ad_monitor = new_monitor\<rparr>"

definition total_resources :: "agent_config \<Rightarrow> resource_spec" where
  "total_resources cfg = default_resource_spec
     \<lparr>cpu_cores := (if ac_cpu_cores cfg > 0 then ac_cpu_cores cfg else 4),
      ram_mb := (if ac_ram_mb cfg > 0 then ac_ram_mb cfg else 8192),
      gpu_count := ac_gpu_count cfg\<rparr>"

definition start_request :: "agent_daemon \<Rightarrow> register_node_request" where
  "start_request d = register_request ''agent-host'' ''127.0.0.1'' 0 (total_resources (ad_config d))"

text \<open>\<open>start()\<close> after the registration call; \<open>Inl\<close> is the \<open>std::runtime_error\<close>.\<close>

definition start :: "agent_daemon \<Rightarrow> grpc_status \<Rightarrow> register_node_response \<Rightarrow> string + agent_daemon" where
  "start d status res =
     (if ad_active d then Inr d
      else case register_reply status res of
             None \<Rightarrow> Inl ''Failed to register with master node''
           | Some node_id \<Rightarrow> Inr (d\<lparr>ad_node_id := node_id, ad_active := True\<rparr>))"

definition stop :: "agent_daemon \<Rightarrow> agent_daemon" where
  "stop d = (if \<not> ad_active d then d else d\<lparr>ad_active := False\<rparr>)"

text \<open>"Fake available", as both loops report it.\<close>

definition available_resources :: resource_spec where
  "available_resources = default_resource_spec\<lparr>cpu_cores := 4, ram_mb := 8192\<rparr>"

definition heartbeat_request_of :: "agent_daemon \<Rightarrow> unix_time \<Rightarrow> metrics_snapshot \<Rightarrow> heartbeat_request" where
  "heartbeat_request_of d now snap =
     heartbeat_message (ad_node_id d) available_resources (get_running_count (ad_executor d))
       (ms_cpu_usage_percent snap) (ms_ram_usage_percent snap) now"

text \<open>The first half of a turn of the heartbeat loop: the metrics are collected and sent.\<close>

definition heartbeat_begin :: "host \<Rightarrow> unix_time \<Rightarrow> agent_daemon \<Rightarrow> (heartbeat_request \<times> agent_daemon) option" where
  "heartbeat_begin h now d =
     map_option (\<lambda>(snap, mon). (heartbeat_request_of d now snap, d\<lparr>ad_monitor := mon\<rparr>))
       (collect h (ad_node_id d) (ad_monitor d))"

text \<open>The pids signalled after one heartbeat, in order.\<close>

definition heartbeat_cancels :: "agent_daemon \<Rightarrow> grpc_status \<Rightarrow> heartbeat_response \<Rightarrow> int list" where
  "heartbeat_cancels d status res =
     (let (ok, jobs_to_cancel) = heartbeat_reply status res
      in if \<not> ok then [] else List.map_filter (cancel (ad_executor d)) jobs_to_cancel)"

text \<open>The 100 ms sleeps between two heartbeats; the product is a \<open>uint32_t\<close>.\<close>

definition heartbeat_sleeps :: "agent_daemon \<Rightarrow> nat" where
  "heartbeat_sleeps d = unat (ac_heartbeat_interval_sec (ad_config d) * 10)"

text \<open>One poll: whether an execution thread is started, and for which job.\<close>

definition poll :: "agent_daemon \<Rightarrow> grpc_status \<Rightarrow> fetch_job_response \<Rightarrow> (string \<times> job_spec) option \<times> agent_daemon" where
  "poll d status res =
     (case fetch_reply status res of
        None \<Rightarrow> (None, d)
      | Some (job_id, spec) \<Rightarrow>
          (let (ok, ex) = execute_async (ad_executor d) job_id
           in (if ok then Some (job_id, spec) else None, d\<lparr>ad_executor := ex\<rparr>)))"

datatype agent_report =
    Report_started job_report int
  | Report_completed job_report int string
  | Report_failed job_report string int

text \<open>The two callbacks of the executor; there is none for log chunks.\<close>

fun callback :: "agent_daemon \<Rightarrow> exec_event \<Rightarrow> agent_report option" where
  "callback d (Started jid pid) = Some (Report_started \<lparr>rp_node_id = ad_node_id d, rp_job_id = jid\<rparr> pid)"
| "callback d (Log_chunk jid chunk) = None"
| "callback d (Completed res) =
     (if res_success res \<or> res_exit_code res \<noteq> -1
      then Some (Report_completed \<lparr>rp_node_id = ad_node_id d, rp_job_id = res_job_id res\<rparr>
                   (res_exit_code res) (res_stdout_data res))
      else Some (Report_failed \<lparr>rp_node_id = ad_node_id d, rp_job_id = res_job_id res\<rparr>
                   (res_error_message res) (res_exit_code res)))"

text \<open>A report at the master.\<close>

primrec deliver :: "'db master \<Rightarrow> unix_time \<Rightarrow> agent_report \<Rightarrow> 'db master" where
  "deliver m now (Report_started r pid) = snd (snd (report_job_started_rpc m now r))"
| "deliver m now (Report_completed r code out) = snd (snd (report_job_completed_rpc m now r))"
| "deliver m now (Report_failed r msg code) = snd (snd (report_job_failed_rpc m now r))"

section \<open>Properties\<close>

text \<open>What the master records of an execution that ends this way.\<close>

definition recorded_status :: "os_run \<Rightarrow> job_status" where
  "recorded_status os =
     (if os_pipe_ok os \<and> os_fork os \<noteq> -1 \<and> os_wait os \<noteq> Other_status then JOB_STATUS_COMPLETED
      else JOB_STATUS_FAILED)"

definition deliver_all :: "'db master \<Rightarrow> unix_time \<Rightarrow> agent_daemon \<Rightarrow> exec_event list \<Rightarrow> 'db master" where
  "deliver_all m now d evs = foldl (\<lambda>m e. case callback d e of None \<Rightarrow> m | Some r \<Rightarrow> deliver m now r) m evs"

lemma deliver_all_simps [simp]:
  "deliver_all m now d [] = m"
  "deliver_all m now d (e # evs) =
     deliver_all (case callback d e of None \<Rightarrow> m | Some r \<Rightarrow> deliver m now r) now d evs"
  "deliver_all m now d (evs @ evs') = deliver_all (deliver_all m now d evs) now d evs'"
  by (simp_all add: deliver_all_def)

lemma deliver_all_logs [simp]: "deliver_all m now d (map (\<lambda>c. Log_chunk i (f c)) cs) = m"
  by (induction cs) simp_all

lemma get_job_deliver:
  "get_job (job_mgr (deliver m now (Report_started r p))) k = (if k = rp_job_id r
     then map_option (status_update now JOB_STATUS_RUNNING (rp_node_id r)) (get_job (job_mgr m) k) else get_job (job_mgr m) k)"
  "get_job (job_mgr (deliver m now (Report_completed r c out))) k = (if k = rp_job_id r
     then map_option (status_update now JOB_STATUS_COMPLETED (rp_node_id r)) (get_job (job_mgr m) k) else get_job (job_mgr m) k)"
  "get_job (job_mgr (deliver m now (Report_failed r e c))) k = (if k = rp_job_id r
     then map_option (status_update now JOB_STATUS_FAILED (rp_node_id r)) (get_job (job_mgr m) k) else get_job (job_mgr m) k)"
  by (simp_all add: report_rpc_eqs job_simps)

lemma callback_completed:
  "callback d (Completed r) =
     Some (if res_success r \<or> res_exit_code r \<noteq> -1
       then Report_completed \<lparr>rp_node_id = ad_node_id d, rp_job_id = res_job_id r\<rparr> (res_exit_code r) (res_stdout_data r)
       else Report_failed \<lparr>rp_node_id = ad_node_id d, rp_job_id = res_job_id r\<rparr> (res_error_message r) (res_exit_code r))"
  by simp

lemma exit_result_code:
  "res_exit_code (exit_result i os) = -1 \<longleftrightarrow> os_wait os = Other_status" "res_job_id (exit_result i os) = i"
  "res_success (exit_result i os) \<Longrightarrow> os_wait os \<noteq> Other_status"
  by (auto simp: exit_result_def split: wait_status.split)

lemma execution_result:
  assumes "execution_thread before during os ex i spec = (Returned, ex', evs)" "get_job (job_mgr m) i = Some job"
  shows "map_option ji_status (get_job (job_mgr (deliver_all m now d evs)) i) = Some (recorded_status os)
      \<and> (\<forall>k. k \<noteq> i \<longrightarrow> get_job (job_mgr (deliver_all m now d evs)) k = get_job (job_mgr m) k)
      \<and> (\<exists>job'. get_job (job_mgr (deliver_all m now d evs)) i = Some job' \<and> ji_completed_at job' = now
        \<and> ji_spec job' = ji_spec job \<and> ji_exit_code job' = ji_exit_code job)"
proof -
  have frame: "ji_completed_at (status_update t JOB_STATUS_COMPLETED n x) = t"
    "ji_completed_at (status_update t JOB_STATUS_FAILED n x) = t"
    "ji_exit_code (status_update t s n x) = ji_exit_code x" for t s n x
    by (simp_all add: status_update_def Let_def)
  have no_throw: "\<not> sandbox_throws os spec" using assms(1) by (auto simp: execution_thread_def)
  show ?thesis
  proof (cases "early_failure i os")
    case None
    then have os: "os_pipe_ok os" "os_fork os \<noteq> -1" by (auto simp: early_failure_def split: if_splits)
    obtain cs where "evs = Started i (os_fork os) # map (\<lambda>c. Log_chunk i (c_str c)) cs @ [Completed (exit_result i os)]"
      using assms(1) None no_throw by (auto simp: execution_thread_def Let_def intro: that [of "[]"] that split: if_splits)
    then show ?thesis
      using os assms(2) exit_result_code(3) [of i os]
      by (cases "os_wait os = Other_status")
         (auto simp: callback_completed get_job_deliver exit_result_code recorded_status_def frame
           simp del: callback.simps(3) deliver.simps)
  next
    case (Some r)
    then have r: "res_job_id r = i" "res_exit_code r = -1" "\<not> res_success r" and os: "\<not> os_pipe_ok os \<or> os_fork os = -1"
      by (auto simp: early_failure_def Let_def split: if_splits)
    have "evs = [Completed r]" using assms(1) Some no_throw by (simp add: execution_thread_def)
    then show ?thesis
      using r os assms(2)
      by (auto simp: callback_completed get_job_deliver recorded_status_def frame
          simp del: callback.simps(3) deliver.simps)
  qed
qed

lemma execution_endless:
  assumes "execution_thread before during os ex i spec = (how, ex', evs)" "how \<noteq> Returned" "get_job (job_mgr m) i = Some job"
  shows "get_job (job_mgr (deliver_all m now d evs)) k =
    (if k = i \<and> how = Never_returned then Some (status_update now JOB_STATUS_RUNNING (ad_node_id d) job) else get_job (job_mgr m) k)"
proof (cases "sandbox_throws os spec")
  case False
  obtain cs where "evs = Started i (os_fork os) # map (\<lambda>c. Log_chunk i (c_str c)) cs" "how = Never_returned"
    using assms(1,2) False
    by (auto simp: execution_thread_def Let_def intro: that [of "[]"] that split: if_splits option.splits)
  then show ?thesis using assms(3) by (simp add: get_job_deliver del: deliver.simps)
qed (use assms(1) in \<open>simp add: execution_thread_def\<close>)


definition killed_os :: os_run where
  "killed_os = \<lparr>os_pipe_ok = True, os_sandbox_ok = True, os_fork = 42, os_reads = [''out''], os_ends = True, os_wait = Signaled 15\<rparr>"


text \<open>What a daemon announces, and its registration.\<close>

definition announced_info :: "agent_config \<Rightarrow> node_info" where
  "announced_info cfg = default_node_info \<lparr>ni_hostname := ''agent-host'', ni_ip_address := ''127.0.0.1'',
    ni_port := 0, ni_os_info := ''Linux (Agent)'', ni_total_resources := total_resources cfg\<rparr>"

lemma announced_same [simp]:
  "same_host (announced_info cfg) (announced_info cfg')" "ni_total_resources (announced_info cfg) = total_resources cfg"
  by (simp_all add: same_host_def announced_info_def)

lemma daemon_registers:
  assumes "register_node_rpc m uuid now (start_request d) = (st, res, m')"
  shows "st = Status_OK" "rr_success res"
    and "register_node (node_reg m) uuid now (announced_info (ad_config d)) = (rr_node_id res, node_reg m')"
    and "m' = m\<lparr>node_reg := node_reg m'\<rparr>"
proof -
  have "default_node_info \<lparr>ni_hostname := rn_hostname (start_request d), ni_ip_address := rn_ip_address (start_request d),
      ni_port := rn_port (start_request d), ni_os_info := rn_os_info (start_request d),
      ni_total_resources := rn_total_resources (start_request d)\<rparr> = announced_info (ad_config d)"
    by (simp add: announced_info_def start_request_def register_request_def)
  note eq = register_node_rpc_eq [OF assms, unfolded this]
  then show "st = Status_OK" "rr_success res" "m' = m\<lparr>node_reg := node_reg m'\<rparr>"
    "register_node (node_reg m) uuid now (announced_info (ad_config d)) = (rr_node_id res, node_reg m')"
    by (simp_all add: prod_eq_iff)
qed

text \<open>Two daemons that start one after the other get the same node id.\<close>

lemma daemons_share_node:
  assumes "registry_ok (node_reg m)"
    and "register_node_rpc m uuid1 t1 (start_request (new_daemon cfg1)) = (st1, res1, m1)"
    and "register_node_rpc m1 uuid2 t2 (start_request (new_daemon cfg2)) = (st2, res2, m2)"
    and "start (new_daemon cfg1) st1 res1 = Inr d1" "start (new_daemon cfg2) st2 res2 = Inr d2"
  shows "ad_node_id d2 = ad_node_id d1 \<and>
    map_option ni_total_resources (get_node (node_reg m2) (ad_node_id d1)) = Some (total_resources cfg2) \<and>
    map_option ni_available_resources (get_node (node_reg m2) (ad_node_id d1)) = Some (total_resources cfg2)"
proof -
  note reg1 = daemon_registers [OF assms(2)] and reg2 = daemon_registers [OF assms(3)]
  have "rr_node_id res2 = rr_node_id res1"
    using register_again [OF assms(1) reg1(3), of "announced_info cfg2" uuid2 t2] reg2(3) by (simp add: new_daemon_def)
  moreover have "ad_node_id d1 = rr_node_id res1" "ad_node_id d2 = rr_node_id res2"
    using assms(4,5) reg1(1,2) reg2(1,2) by (auto simp: start_def new_daemon_def register_reply_def)
  moreover have "registry_ok (node_reg m1)"
    using register_node_ok [OF assms(1)] reg1(3) by (metis snd_conv)
  from registered_entry [OF this reg2(3)]
  have "map_option ni_total_resources (get_node (node_reg m2) (rr_node_id res2)) = Some (total_resources cfg2)"
    "map_option ni_available_resources (get_node (node_reg m2) (rr_node_id res2)) = Some (total_resources cfg2)"
    by (auto simp: new_daemon_def)
  ultimately show ?thesis by simp
qed

definition large_agent :: agent_config where
  "large_agent = default_agent_config\<lparr>ac_cpu_cores := 64\<rparr>"

text \<open>
  All agents are one node, and a job can run on several of them.  Every daemon announces itself
  as \<open>agent-host\<close> at \<open>127.0.0.1\<close>, so two daemons that start one after the other at the same master get
  the same node id, and the second replaces the first one's resources in the registry.  From then on
  both are offered the same jobs: a job that is assigned to the node is started by each of them that
  polls before a start report, however the master and the daemons got there.
\<close>

theorem agents_run_job_twice:
  assumes registered: "registry_ok (node_reg m)"
      "register_node_rpc m uuid1 t1 (start_request (new_daemon cfg1)) = (st1, res1, m1)"
      "register_node_rpc m1 uuid2 t2 (start_request (new_daemon cfg2)) = (st2, res2, m2)"
      "start (new_daemon cfg1) st1 res1 = Inr d1" "start (new_daemon cfg2) st2 res2 = Inr d2"
    and later: "ad_node_id e1 = ad_node_id d1" "ad_node_id e2 = ad_node_id d2"
      "fetch_job_rpc m3 (ad_node_id e1) = (st, offer)" "fj_has_job offer"
      "\<not> running (ad_executor e1) (fj_job_id offer)" "\<not> running (ad_executor e2) (fj_job_id offer)"
  shows "map_option ni_total_resources (get_node (node_reg m2) (ad_node_id e1)) = Some (total_resources cfg2) \<and>
    fetch_job_rpc m3 (ad_node_id e2) = (st, offer) \<and>
    fst (poll e1 st offer) = Some (fj_job_id offer, fj_spec offer) \<and>
    fst (poll e2 st offer) = Some (fj_job_id offer, fj_spec offer)"
proof -
  note same = daemons_share_node [OF registered]
  have "status_ok st"
    using later(3) by (auto simp: fetch_job_rpc_def split: option.splits)
  then have "fst (poll e st offer) = Some (fj_job_id offer, fj_spec offer)"
    if "\<not> running (ad_executor e) (fj_job_id offer)" for e
    using that later(4) fst_execute_async [of "ad_executor e" "fj_job_id offer"]
    by (simp add: poll_def fetch_reply_def case_prod_unfold Let_def)
  with same later show ?thesis by simp
qed

definition shared_master :: "tables master" where
  "shared_master = ref_master\<lparr>job_mgr :=
     \<lparr>jm_jobs = [(''job-1'', status_update 3 JOB_STATUS_ASSIGNED ''node-00000000'' (demo_job ''job-1''))],
      jm_db = None\<rparr>\<rparr>"

theorem agents_run_job_twice_witness:
  "\<exists>spec. fst (poll (new_daemon default_agent_config\<lparr>ad_node_id := ''node-00000000'', ad_active := True\<rparr>)
       Status_OK (snd (fetch_job_rpc shared_master ''node-00000000''))) = Some (''job-1'', spec)
   \<and> fst (poll (new_daemon large_agent\<lparr>ad_node_id := ''node-00000000'', ad_active := True\<rparr>)
       Status_OK (snd (fetch_job_rpc shared_master ''node-00000000''))) = Some (''job-1'', spec)"
proof -
  let ?d1 = "new_daemon default_agent_config\<lparr>ad_node_id := ''node-00000000'', ad_active := True\<rparr>"
  let ?d2 = "new_daemon large_agent\<lparr>ad_node_id := ''node-00000000'', ad_active := True\<rparr>"
  have ok: "registry_ok (node_reg ref_master)" by (simp add: ref_master_def)
  obtain st1 res1 m1 where r1: "register_node_rpc ref_master ''00000000'' 1 (start_request (new_daemon default_agent_config))
      = (st1, res1, m1)" by (metis prod_cases3)
  obtain st2 res2 m2 where r2: "register_node_rpc m1 ''11111111'' 2 (start_request (new_daemon large_agent))
      = (st2, res2, m2)" by (metis prod_cases3)
  have started: "start (new_daemon cfg) st res = Inr (new_daemon cfg\<lparr>ad_node_id := rr_node_id res, ad_active := True\<rparr>)"
    if "register_node_rpc m u t q = (st, res, m')" for cfg and m m' :: "tables master" and u t q st res
    using register_node_rpc_eq(1,2) [OF that] by (simp add: start_def new_daemon_def register_reply_def)
  have id1: "rr_node_id res1 = ''node-00000000''"
    using r1 by (auto simp: register_node_rpc_def ref_master_def register_node_def node_id_of_uuid_def Let_def)
  note same = daemons_share_node [THEN conjunct1, OF ok r1 r2 started [OF r1] started [OF r2]]
  have "fetch_job_rpc shared_master (ad_node_id ?d1) = (Status_OK, \<lparr>fj_has_job = True, fj_job_id = ''job-1'',
      fj_spec = default_job_spec\<rparr>)"
    by (simp add: fetch_job_rpc_def shared_master_def list_jobs_def demo_job_def new_job_info_def status_update_def
        new_daemon_def default_job_info_def)
  from agents_run_job_twice [OF ok r1 r2 started [OF r1] started [OF r2] _ _ this, of ?d2] same id1
  show ?thesis
    by (simp add: running_def new_daemon_def new_executor_def)
qed

end
