(* ===== verification/Cluster.thy ===== *)
theory Cluster
  imports Master_Server Agent_Daemon
begin

text \<open>
  The running master as a state machine.  Every RPC handler is one atomic step; \<open>Threaded_Master\<close>
  takes the handlers apart at the mutexes of the components.  The scheduler thread is not atomic:
  a pass first reads the queue and the nodes and then calls \<open>update_job_status\<close> once per placement,
  and the RPCs run in between; \<open>cl_plan\<close> holds the calls a pass in progress has still to make.
  \<open>check_timeouts\<close>, \<open>unregister_node\<close>, \<open>fail_jobs_on_node\<close> and \<open>add_usage\<close> are called nowhere in
  the program and have no step.  The requests are arbitrary, so the clients and agents are too.
\<close>

record 'db cluster =
  cl_master :: "'db master"
  cl_plan :: "(string \<times> string) list" \<comment> \<open>job id, node id\<close>

definition plan_of :: "job_sort \<Rightarrow> 'db master \<Rightarrow> unix_time \<Rightarrow> (string \<times> string) list" where
  "plan_of srt m now =
     map (\<lambda>(job, n). (ji_job_id job, n))
       (fst (pass_plan srt (fair_share_mgr m) (job_mgr m) (node_reg m) now))"

inductive cluster_step ::
  "'db sqlite_api \<Rightarrow> (job_request \<Rightarrow> string option) \<Rightarrow> (string \<Rightarrow> bool \<times> job_request) \<Rightarrow> job_sort
     \<Rightarrow> 'db cluster \<Rightarrow> 'db cluster \<Rightarrow> bool"
  for api to_json of_json srt where
  Create_user: "cluster_step api to_json of_json srt c
    (c\<lparr>cl_master := snd (snd (create_user api (cl_master c) now r))\<rparr>)"
| Submit: "cluster_step api to_json of_json srt c
    (c\<lparr>cl_master := snd (snd (submit_job_rpc api (cl_master c) uuid now md spec))\<rparr>)"
| Cancel: "cluster_step api to_json of_json srt c
    (c\<lparr>cl_master := snd (snd (cancel_job_rpc (cl_master c) now job_id))\<rparr>)"
| Public_request: "cluster_step api to_json of_json srt c
    (c\<lparr>cl_master := snd (snd (submit_public_request api to_json (cl_master c) now rnd request))\<rparr>)"
| Update_request: "cluster_step api to_json of_json srt c
    (c\<lparr>cl_master := snd (snd (update_job_request api to_json of_json (cl_master c) request))\<rparr>)"
| Review: "cluster_step api to_json of_json srt c
    (c\<lparr>cl_master := snd (snd (admin_review_request api to_json of_json (cl_master c) uuid now rv))\<rparr>)"
| Register: "cluster_step api to_json of_json srt c
    (c\<lparr>cl_master := snd (snd (register_node_rpc (cl_master c) uuid now reg))\<rparr>)"
| Heartbeat: "cluster_step api to_json of_json srt c
    (c\<lparr>cl_master := snd (snd (send_heartbeat_rpc (cl_master c) now hb))\<rparr>)"
| Report: "cluster_step api to_json of_json srt c
    (c\<lparr>cl_master := deliver (cl_master c) now report\<rparr>)"
| Pass_begin: "cl_plan c = [] \<Longrightarrow> get_pending_jobs (job_mgr (cl_master c)) \<noteq> [] \<Longrightarrow>
    cluster_step api to_json of_json srt c
      (c\<lparr>cl_master := (cl_master c)\<lparr>fair_share_mgr := apply_decay (fair_share_mgr (cl_master c)) now\<rparr>,
         cl_plan := plan_of srt (cl_master c) now\<rparr>)"
| Pass_assign: "cl_plan c = (i, n) # plan \<Longrightarrow>
    cluster_step api to_json of_json srt c
      (c\<lparr>cl_master := (cl_master c)\<lparr>job_mgr :=
            snd (update_job_status (job_mgr (cl_master c)) now i JOB_STATUS_ASSIGNED n)\<rparr>,
         cl_plan := plan\<rparr>)"

inductive_cases cluster_stepE: "cluster_step api to_json of_json srt c c'"

definition start_cluster :: "'db sqlite_api \<Rightarrow> master_config \<Rightarrow> unix_time \<Rightarrow> 'db \<Rightarrow> 'db \<Rightarrow> 'db cluster" where
  "start_cluster api config now admin jobs =
     \<lparr>cl_master = master_server api config now admin jobs, cl_plan = []\<rparr>"

inductive reachable ::
  "'db sqlite_api \<Rightarrow> (job_request \<Rightarrow> string option) \<Rightarrow> (string \<Rightarrow> bool \<times> job_request) \<Rightarrow> job_sort
     \<Rightarrow> 'db cluster \<Rightarrow> bool"
  for api to_json of_json srt where
  Start: "reachable api to_json of_json srt (start_cluster api config now admin jobs)"
| Step: "reachable api to_json of_json srt c \<Longrightarrow> cluster_step api to_json of_json srt c c' \<Longrightarrow>
    reachable api to_json of_json srt c'"

section \<open>What each step does to the job table\<close>

text \<open>The operations of the job manager a step consists of, on the whole master.\<close>

inductive job_effect :: "'db job_manager \<Rightarrow> 'db job_manager \<Rightarrow> bool" where
  Same: "job_effect jm jm"
| Submitted: "job_effect jm (snd (submit_job put jm uuid now spec u un))"
| Cancelled: "job_effect jm (snd (cancel_job jm now i))"
| Updated: "st \<in> {JOB_STATUS_ASSIGNED, JOB_STATUS_RUNNING, JOB_STATUS_COMPLETED, JOB_STATUS_FAILED} \<Longrightarrow>
    job_effect jm (snd (update_job_status jm now i st n))"

inductive node_effect :: "node_registry \<Rightarrow> node_registry \<Rightarrow> bool" where
  Same_nodes: "node_effect nodes nodes"
| Registered: "node_effect nodes (snd (register_node nodes uuid now info))"
| Beaten: "node_effect nodes (snd (update_heartbeat nodes now i r k))"

lemma review_job_effect:
  "job_effect (job_mgr m) (job_mgr (snd (snd (admin_review_request api to_json of_json m uuid now rv))))"
  by (auto simp: admin_review_request_def Let_def intro: job_effect.intros split: prod.split option.split)

lemma admin_frames [simp]:
  "job_mgr (snd (snd (create_user api m now r))) = job_mgr m"
  "node_reg (snd (snd (create_user api m now r))) = node_reg m"
  "fair_share_mgr (snd (snd (create_user api m now r))) = fair_share_mgr m"
  "job_mgr (snd (snd (submit_public_request api to_json m now rnd q))) = job_mgr m"
  "node_reg (snd (snd (submit_public_request api to_json m now rnd q))) = node_reg m"
  "fair_share_mgr (snd (snd (submit_public_request api to_json m now rnd q))) = fair_share_mgr m"
  "job_mgr (snd (snd (update_job_request api to_json of_json m q))) = job_mgr m"
  "node_reg (snd (snd (update_job_request api to_json of_json m q))) = node_reg m"
  "fair_share_mgr (snd (snd (update_job_request api to_json of_json m q))) = fair_share_mgr m"
  "node_reg (snd (snd (admin_review_request api to_json of_json m uuid now rv))) = node_reg m"
  "fair_share_mgr (snd (snd (admin_review_request api to_json of_json m uuid now rv))) = fair_share_mgr m"
  by (simp_all add: create_user_def submit_public_request_def update_job_request_def admin_review_request_def
      Let_def split: prod.split option.split)

lemma rpc_frames [simp]:
  "job_mgr (snd (snd (submit_job_rpc api m uuid now md spec))) =
     snd (submit_job (set_kv api) (job_mgr m) uuid now spec (caller_of md) (caller_of md))"
  "node_reg (snd (snd (submit_job_rpc api m uuid now md spec))) = node_reg m"
  "fair_share_mgr (snd (snd (submit_job_rpc api m uuid now md spec))) = fair_share_mgr m"
  "job_mgr (snd (snd (cancel_job_rpc m now i))) = snd (cancel_job (job_mgr m) now i)"
  "node_reg (snd (snd (cancel_job_rpc m now i))) = node_reg m"
  "fair_share_mgr (snd (snd (cancel_job_rpc m now i))) = fair_share_mgr m"
  "job_mgr (snd (snd (register_node_rpc m uuid now reg))) = job_mgr m"
  "fair_share_mgr (snd (snd (register_node_rpc m uuid now reg))) = fair_share_mgr m"
  "job_mgr (snd (snd (send_heartbeat_rpc m now hb))) = job_mgr m"
  "fair_share_mgr (snd (snd (send_heartbeat_rpc m now hb))) = fair_share_mgr m"
  "node_reg (deliver m now rep) = node_reg m"
  "fair_share_mgr (deliver m now rep) = fair_share_mgr m"
  by (simp_all add: submit_job_rpc_def cancel_job_rpc_def register_node_rpc_def send_heartbeat_rpc_eq
      report_rpc_eqs Let_def split: prod.split option.split)
     (cases rep; simp add: report_rpc_eqs)+

lemma deliver_job_effect: "job_effect (job_mgr m) (job_mgr (deliver m now rep))"
  by (cases rep) (auto simp: report_rpc_eqs intro: job_effect.Updated)

lemma step_effects:
  assumes "cluster_step api to_json of_json srt c c'"
  shows "job_effect (job_mgr (cl_master c)) (job_mgr (cl_master c'))"
    and "node_effect (node_reg (cl_master c)) (node_reg (cl_master c'))"
    and "fair_share_mgr (cl_master c') = fair_share_mgr (cl_master c)
      \<or> (\<exists>now. fair_share_mgr (cl_master c') = apply_decay (fair_share_mgr (cl_master c)) now)"
proof -
  have nodes: "node_effect (node_reg m) (node_reg (snd (snd (register_node_rpc m uuid now reg))))"
    "node_effect (node_reg m) (node_reg (snd (snd (send_heartbeat_rpc m now hb))))"
    for m :: "'a master" and uuid now reg hb
    by (simp_all add: register_node_rpc_def send_heartbeat_rpc_eq case_prod_unfold Let_def node_effect.intros)
  show "job_effect (job_mgr (cl_master c)) (job_mgr (cl_master c'))"
    using assms by cases (simp_all add: job_effect.intros review_job_effect deliver_job_effect)
  show "node_effect (node_reg (cl_master c)) (node_reg (cl_master c'))"
    using assms by cases (simp_all add: node_effect.Same_nodes nodes)
  show "fair_share_mgr (cl_master c') = fair_share_mgr (cl_master c)
      \<or> (\<exists>now. fair_share_mgr (cl_master c') = apply_decay (fair_share_mgr (cl_master c)) now)"
    using assms by cases auto
qed

section \<open>The invariant of reachable states\<close>

definition job_ok :: "job_info \<Rightarrow> bool" where
  "job_ok job \<longleftrightarrow>
     ji_status job \<in> {JOB_STATUS_QUEUED, JOB_STATUS_ASSIGNED, JOB_STATUS_RUNNING, JOB_STATUS_COMPLETED,
       JOB_STATUS_FAILED, JOB_STATUS_CANCELLED} \<and>
     (ji_status job = JOB_STATUS_QUEUED \<longrightarrow>
        job = new_job_info (ji_job_id job) (ji_submitted_at job) (ji_spec job) (ji_user_id job) (ji_username job))"

definition master_ok :: "'db master \<Rightarrow> bool" where
  "master_ok m \<longleftrightarrow> jobs_keyed (job_mgr m) \<and> registry_ok (node_reg m)
     \<and> fair_share_ok (fair_share_mgr m) \<and> (\<forall>u. usage_of (fair_share_mgr m) u \<le> 0)
     \<and> (\<forall>k job. get_job (job_mgr m) k = Some job \<longrightarrow> job_ok job)
     \<and> (\<forall>k node. get_node (node_reg m) k = Some node \<longrightarrow> ni_status node = NODE_STATUS_ONLINE)"

text \<open>A placement of a known job on a known node.\<close>

definition placeable :: "'db master \<Rightarrow> string \<times> string \<Rightarrow> bool" where
  "placeable m p \<longleftrightarrow> get_job (job_mgr m) (fst p) \<noteq> None \<and> get_node (node_reg m) (snd p) \<noteq> None"

definition plan_ok :: "'db cluster \<Rightarrow> bool" where
  "plan_ok c \<longleftrightarrow> distinct (map fst (cl_plan c)) \<and> (\<forall>p \<in> set (cl_plan c). placeable (cl_master c) p)"

lemma job_effect_keyed: "job_effect jm jm' \<Longrightarrow> jobs_keyed jm \<Longrightarrow> jobs_keyed jm'"
  by (induction rule: job_effect.induct) auto

lemma job_effect_known: "job_effect jm jm' \<Longrightarrow> get_job jm k \<noteq> None \<Longrightarrow> get_job jm' k \<noteq> None"
  by (induction rule: job_effect.induct) (auto simp: job_simps)

lemma job_effect_ok:
  assumes "job_effect jm jm'" "\<And>k job. get_job jm k = Some job \<Longrightarrow> job_ok job" "get_job jm' k = Some job"
  shows "job_ok job"
  using assms
proof (induction rule: job_effect.induct)
  case (Submitted jm put uuid now spec u un)
  then show ?case by (auto simp: job_simps job_ok_def split: if_splits)
next
  case (Cancelled jm now i)
  then obtain old where "get_job jm k = Some old"
    "job = old \<or> job = old\<lparr>ji_status := JOB_STATUS_CANCELLED, ji_completed_at := now\<rparr>"
    by (auto simp: get_job_cancel split: if_splits)
  moreover from this have "job_ok old" by (blast intro: Cancelled(1))
  ultimately show ?case by (auto simp: job_ok_def)
next
  case (Updated st jm now i n)
  then obtain old where "get_job jm k = Some old" "job = old \<or> job = status_update now st n old"
    by (auto simp: get_job_update split: if_splits)
  moreover from this have "job_ok old" by (blast intro: Updated(2))
  moreover have "job_ok (status_update now st n old)" using Updated(1) by (auto simp: job_ok_def)
  ultimately show ?case by auto
qed auto

lemma node_effect_ok: "node_effect nodes nodes' \<Longrightarrow> registry_ok nodes \<Longrightarrow> registry_ok nodes'"
  by (induction rule: node_effect.induct) auto

lemma node_effect_known:
  "node_effect nodes nodes' \<Longrightarrow> registry_ok nodes \<Longrightarrow> get_node nodes k \<noteq> None \<Longrightarrow> get_node nodes' k \<noteq> None"
  by (induction rule: node_effect.induct) (auto simp: node_simps get_node_register)

lemma node_effect_online:
  assumes "node_effect nodes nodes'" "registry_ok nodes"
    and "\<And>k node. get_node nodes k = Some node \<Longrightarrow> ni_status node = NODE_STATUS_ONLINE"
    and "get_node nodes' k = Some node"
  shows "ni_status node = NODE_STATUS_ONLINE"
  using assms
proof (induction rule: node_effect.induct)
  case (Registered nodes uuid now info)
  then show ?case
    by (auto simp: get_node_register re_register_def new_node_def split: if_splits option.splits)
next
  case (Beaten nodes now i r k')
  then show ?case by (auto simp: node_simps beat_def split: if_splits)
qed auto

text \<open>A pass may have read its queue from an older table of jobs.\<close>

lemma queue_plan_ok:
  assumes "comparison_sort srt" "master_ok m" "jobs_keyed jm"
    and plan: "plan = map (\<lambda>(job, n). (ji_job_id job, n)) (fst (pass_plan srt (fair_share_mgr m) jm (node_reg m) now))"
  shows "distinct (map fst plan)"
    and "p \<in> set plan \<Longrightarrow> get_job jm (fst p) \<noteq> None \<and> get_node (node_reg m) (snd p) \<noteq> None"
proof -
  have ready: "pass_ready srt (fair_share_mgr m) jm (node_reg m) now"
    using assms by (simp add: master_ok_def pass_ready_def no_usage_comparable)
  show "distinct (map fst plan)"
    using pass_plan_distinct [OF ready] by (simp add: plan comp_def case_prod_unfold)
  show "p \<in> set plan \<Longrightarrow> get_job jm (fst p) \<noteq> None \<and> get_node (node_reg m) (snd p) \<noteq> None"
    using pass_plan_sound [OF ready] by (fastforce simp: plan)
qed

lemma plan_of_ok:
  assumes "comparison_sort srt" "master_ok m"
  shows "distinct (map fst (plan_of srt m now))"
    and "p \<in> set (plan_of srt m now) \<Longrightarrow> placeable m p"
  using queue_plan_ok [OF assms _ plan_of_def] assms(2) by (simp_all add: master_ok_def placeable_def)

lemma effects_ok:
  assumes jobs: "job_effect (job_mgr m) (job_mgr m')" and nodes: "node_effect (node_reg m) (node_reg m')"
    and share: "fair_share_mgr m' = fair_share_mgr m \<or> (\<exists>now. fair_share_mgr m' = apply_decay (fair_share_mgr m) now)"
    and ok: "master_ok m"
  shows "master_ok m'" and "placeable m p \<Longrightarrow> placeable m' p"
proof -
  have "fair_share_ok (fair_share_mgr m')" "usage_of (fair_share_mgr m') u \<le> 0" for u
    using share ok by (auto simp: master_ok_def usage_decay_sign)
  then show "master_ok m'"
    using ok job_effect_keyed [OF jobs] job_effect_ok [OF jobs] node_effect_ok [OF nodes] node_effect_online [OF nodes]
    unfolding master_ok_def by blast
  show "placeable m p \<Longrightarrow> placeable m' p"
    using job_effect_known [OF jobs] node_effect_known [OF nodes] ok by (simp add: master_ok_def placeable_def)
qed

lemma step_master_ok:
  "cluster_step api to_json of_json srt c c' \<Longrightarrow> master_ok (cl_master c) \<Longrightarrow> master_ok (cl_master c')"
  by (rule effects_ok(1) [OF step_effects])

lemma step_plan_ok:
  assumes step: "cluster_step api to_json of_json srt c c'" and "comparison_sort srt" "master_ok (cl_master c)" "plan_ok c"
  shows "plan_ok c'"
proof -
  have known: "placeable (cl_master c') p" if "placeable (cl_master c) p" for p
    using effects_ok(2) [OF step_effects [OF step] assms(3)] that .
  consider "cl_plan c' = cl_plan c" | "cl_plan c \<noteq> []" "cl_plan c' = tl (cl_plan c)"
    | now where "cl_plan c' = plan_of srt (cl_master c) now"
    using step by (cases rule: cluster_stepE) auto
  then show ?thesis
  proof cases
    case 1
    then show ?thesis using assms(4) known unfolding plan_ok_def by simp
  next
    case 2
    then have "set (cl_plan c') \<subseteq> set (cl_plan c)" by (auto dest: list.set_sel(2))
    moreover have "distinct (map fst (cl_plan c'))"
      using 2 assms(4) by (simp add: plan_ok_def map_tl distinct_tl)
    ultimately show ?thesis using assms(4) known unfolding plan_ok_def by blast
  next
    case 3
    then show ?thesis using plan_of_ok [OF assms(2,3)] known unfolding plan_ok_def by simp
  qed
qed

lemma start_ok: "master_ok (cl_master (start_cluster api config now admin jobs))"
  by (simp add: start_cluster_def master_server_def master_ok_def new_job_manager_def new_fair_share_ok
      get_job_def get_node_def) (simp add: new_fair_share_def usage_of_def)

lemma reachable_ok:
  assumes "reachable api to_json of_json srt c" "comparison_sort srt"
  shows "master_ok (cl_master c) \<and> plan_ok c"
  using assms(1)
proof (induction rule: reachable.induct)
  case (Start config now admin jobs)
  then show ?case by (simp add: start_ok) (simp add: plan_ok_def start_cluster_def)
next
  case (Step c c')
  then show ?case using step_master_ok step_plan_ok [OF _ assms(2)] by blast
qed

section \<open>Jobs that wait for a node\<close>

definition awaits :: "string \<Rightarrow> job_info \<Rightarrow> bool" where
  "awaits n job \<longleftrightarrow> ji_status job = JOB_STATUS_ASSIGNED \<and> ji_assigned_node_id job = n"

definition waiting :: "string \<Rightarrow> 'db master \<Rightarrow> string set" where
  "waiting n m = {j. \<exists>job. get_job (job_mgr m) j = Some job \<and> awaits n job}"

lemma finite_waiting: "finite (waiting n m)"
proof (rule finite_subset)
  show "waiting n m \<subseteq> fst ` set (jm_jobs (job_mgr m))"
    by (force simp: waiting_def get_job_def dest: map_of_SomeD)
qed simp

text \<open>A waiting job is offered to its node once the jobs before it in the table have ended.\<close>

lemma offered_in_the_end:
  assumes "reachable api to_json of_json srt c" "comparison_sort srt"
    and "get_job (job_mgr (cl_master c)) i = Some job" "awaits n job"
  shows "\<exists>c'. (cluster_step api to_json of_json srt)\<^sup>*\<^sup>* c c' \<and> get_job (job_mgr (cl_master c')) i = Some job
    \<and> fetch_job_rpc (cl_master c') n = (Status_OK, \<lparr>fj_has_job = True, fj_job_id = i, fj_spec = ji_spec job\<rparr>)"
  using assms(1,3)
proof (induction "card (waiting n (cl_master c))" arbitrary: c rule: less_induct)
  case less
  have keyed: "jobs_keyed (job_mgr (cl_master c))"
    using reachable_ok [OF less.prems(1) assms(2)] by (simp add: master_ok_def)
  then show ?case
  proof (cases rule: fetch_job_rpc_cases [of "cl_master c" n])
    case none
    then show ?thesis using less.prems(2) assms(4) by (auto simp: awaits_def)
  next
    case (job first)
    let ?j = "ji_job_id first"
    show ?thesis
    proof (cases "?j = i")
      case True
      then show ?thesis using job less.prems(2) by auto
    next
      case False
      let ?c1 = "c\<lparr>cl_master := deliver (cl_master c) 0 (Report_completed \<lparr>rp_node_id = n, rp_job_id = ?j\<rparr> 0 '''')\<rparr>"
      have ends: "cluster_step api to_json of_json srt c ?c1" by (rule cluster_step.Report)
      have found: "get_job (job_mgr (cl_master ?c1)) k = (if k = ?j
          then map_option (status_update 0 JOB_STATUS_COMPLETED n) (get_job (job_mgr (cl_master c)) k)
          else get_job (job_mgr (cl_master c)) k)" for k
        by (simp add: report_rpc_eqs job_simps)
      with job(1) have "waiting n (cl_master ?c1) = waiting n (cl_master c) - {?j}"
        by (auto simp: waiting_def awaits_def split: if_splits)
      moreover have "?j \<in> waiting n (cl_master c)" using job(1-3) by (auto simp: waiting_def awaits_def)
      ultimately have "card (waiting n (cl_master ?c1)) < card (waiting n (cl_master c))"
        using card_Diff1_less [OF finite_waiting] by metis
      moreover have "get_job (job_mgr (cl_master ?c1)) i = Some job"
        using False less.prems(2) found [of i] by simp
      ultimately show ?thesis
        using less.hyps [OF _ reachable.Step [OF less.prems(1) ends]] converse_rtranclp_into_rtranclp [of "cluster_step api to_json of_json srt", OF ends]
        by blast
    qed
  qed
qed

text \<open>A step that leaves a cancelled job cancelled leaves its record alone.\<close>

lemma cancelled_kept:
  assumes "cluster_step api to_json of_json srt c c'" "get_job (job_mgr (cl_master c)) k = Some job"
    and "ji_status job = JOB_STATUS_CANCELLED"
    and "map_option ji_status (get_job (job_mgr (cl_master c')) k) = Some JOB_STATUS_CANCELLED"
  shows "get_job (job_mgr (cl_master c')) k = Some job"
  using step_effects(1) [OF assms(1)]
proof (cases rule: job_effect.cases)
  case (Submitted put uuid now spec u un)
  then show ?thesis using assms(2,4) by (cases "k = job_id_of_uuid uuid") (auto simp: get_job_submit)
next
  case (Cancelled now i)
  then show ?thesis using assms(2,3) by (cases "k = i") (auto simp: get_job_cancel terminal_def)
next
  case (Updated st now i n)
  then show ?thesis using assms(2,4) by (cases "k = i") (auto simp: get_job_update)
qed (use assms(2) in simp)

lemma cancel_rpc_success:
  assumes "cancel_job_rpc m now i = (st, response, m1)" "sr_success response"
  shows "\<exists>job. get_job (job_mgr m) i = Some job \<and> \<not> terminal (ji_status job)
    \<and> get_job (job_mgr m1) i = Some (job\<lparr>ji_status := JOB_STATUS_CANCELLED, ji_completed_at := now\<rparr>)"
    and "node_reg m1 = node_reg m"
proof -
  have m1: "m1 = m\<lparr>job_mgr := snd (cancel_job (job_mgr m) now i)\<rparr>" and ok: "fst (cancel_job (job_mgr m) now i)"
    using assms by (auto simp: cancel_job_rpc_def Let_def split: prod.splits)
  from ok obtain job where "get_job (job_mgr m) i = Some job" "\<not> terminal (ji_status job)" by (auto simp: fst_cancel_job)
  then show "\<exists>job. get_job (job_mgr m) i = Some job \<and> \<not> terminal (ji_status job)
      \<and> get_job (job_mgr m1) i = Some (job\<lparr>ji_status := JOB_STATUS_CANCELLED, ji_completed_at := now\<rparr>)"
    by (simp add: m1 get_job_cancel)
  show "node_reg m1 = node_reg m" by (simp add: m1)
qed

section \<open>Properties\<close>

text \<open>A small run: one agent registers, one job is submitted, and a pass begins.\<close>

definition run0 :: "tables cluster" where
  "run0 = start_cluster ref_api default_master_config 0 no_tables no_tables"

definition run1 :: "tables cluster" where
  "run1 = run0\<lparr>cl_master := snd (snd (register_node_rpc (cl_master run0) ''00000000'' 1
     (start_request (new_daemon default_agent_config))))\<rparr>"

definition run2 :: "tables cluster" where
  "run2 = run1\<lparr>cl_master := snd (snd (submit_job_rpc ref_api (cl_master run1) ''11111111'' 2 [] three_core_spec))\<rparr>"

definition run3 :: "tables cluster" where
  "run3 = run2\<lparr>cl_master := (cl_master run2)\<lparr>fair_share_mgr := apply_decay (fair_share_mgr (cl_master run2)) 3\<rparr>,
     cl_plan := plan_of std_sort (cl_master run2) 3\<rparr>"

abbreviation "no_json \<equiv> (\<lambda>r :: job_request. None :: string option)"
abbreviation "no_parse \<equiv> (\<lambda>j :: string. (False, default_job_request))"
abbreviation "run_job \<equiv> new_job_info ''job-11111111'' 2 three_core_spec ''unknown'' ''unknown''"
abbreviation "run_node \<equiv> new_node ''node-00000000'' 1 (default_node_info
   \<lparr>ni_hostname := ''agent-host'', ni_ip_address := ''127.0.0.1'', ni_port := 0,
    ni_os_info := ''Linux (Agent)'', ni_total_resources := total_resources default_agent_config\<rparr>)"

lemma run2_master:
  "jm_jobs (job_mgr (cl_master run2)) = [(''job-11111111'', run_job)]"
  "node_reg (cl_master run2) = [(''node-00000000'', run_node)]"
  "cl_plan run2 = []"
proof -
  have nodes: "node_reg (cl_master run1) = [(''node-00000000'', run_node)]"
    by (simp add: run1_def run0_def start_cluster_def master_server_def register_node_rpc_def register_node_def
        Let_def node_id_of_uuid_def start_request_def register_request_def new_daemon_def)
  have jobs: "jm_jobs (job_mgr (cl_master run1)) = []"
    by (simp add: run1_def run0_def start_cluster_def master_server_def new_job_manager_def)
  show "node_reg (cl_master run2) = [(''node-00000000'', run_node)]"
    by (simp add: run2_def nodes)
  show "jm_jobs (job_mgr (cl_master run2)) = [(''job-11111111'', run_job)]"
    by (simp add: run2_def submit_job_def Let_def jobs job_id_of_uuid_def caller_of_def)
  show "cl_plan run2 = []"
    by (simp add: run2_def run1_def run0_def start_cluster_def)
qed

lemma run_reachable:
  "reachable ref_api no_json no_parse std_sort run1" "reachable ref_api no_json no_parse std_sort run2"
  "reachable ref_api no_json no_parse std_sort run3"
proof -
  show 1: "reachable ref_api no_json no_parse std_sort run1"
    unfolding run1_def run0_def by (rule reachable.Step [OF reachable.Start cluster_step.Register])
  show 2: "reachable ref_api no_json no_parse std_sort run2"
    unfolding run2_def by (rule reachable.Step [OF 1 cluster_step.Submit])
  show "reachable ref_api no_json no_parse std_sort run3"
    unfolding run3_def by (rule reachable.Step [OF 2 cluster_step.Pass_begin])
      (simp_all add: run2_master get_pending_jobs_def list_jobs_def)
qed

lemma run3_plan: "cl_plan run3 = [(''job-11111111'', ''node-00000000'')]"
proof -
  have "get_pending_jobs (job_mgr (cl_master run2)) = [run_job]"
    by (simp add: get_pending_jobs_def list_jobs_def run2_master)
  moreover have "online_nodes (node_reg (cl_master run2)) = [run_node]"
    by (simp add: online_nodes_def get_all_nodes_def run2_master new_node_def)
  moreover have "fits (spec_resources three_core_spec) (ni_available_resources run_node)"
    by (simp add: fits_def three_core_spec_def new_node_def total_resources_def default_agent_config_def
        default_resource_spec_def word_le_nat_alt)
  ultimately show ?thesis
    by (simp add: run3_def plan_of_def pass_plan_def)
qed

text \<open>
  C2: The invariant of the running master, for every interleaving of RPCs with arbitrary requests
  and scheduler passes.  The job table and the registry stay well-formed; a job is in one of six
  states and a queued one is exactly as it was submitted; every registered node is online for ever,
  since nothing ever takes one offline; no usage is ever recorded; and a pass in progress has only
  placements of known jobs on registered nodes left, no job twice.
\<close>

theorem cluster_invariant:
  assumes "reachable api to_json of_json srt c" "comparison_sort srt"
  shows "jobs_keyed (job_mgr (cl_master c)) \<and>
    registry_ok (node_reg (cl_master c)) \<and>
    (get_job (job_mgr (cl_master c)) k = Some job \<longrightarrow> (ji_status job \<in> {JOB_STATUS_QUEUED, JOB_STATUS_ASSIGNED, JOB_STATUS_RUNNING, JOB_STATUS_COMPLETED,
        JOB_STATUS_FAILED, JOB_STATUS_CANCELLED}
      \<and> (ji_status job = JOB_STATUS_QUEUED \<longrightarrow>
          job = new_job_info k (ji_submitted_at job) (ji_spec job) (ji_user_id job) (ji_username job)))) \<and>
    (get_node (node_reg (cl_master c)) n = Some node \<longrightarrow> ni_status node = NODE_STATUS_ONLINE) \<and>
    usage_of (fair_share_mgr (cl_master c)) u \<le> 0 \<and>
    ((i, n) \<in> set (cl_plan c) \<longrightarrow> (get_job (job_mgr (cl_master c)) i \<noteq> None \<and> get_node (node_reg (cl_master c)) n \<noteq> None)) \<and>
    distinct (map fst (cl_plan c))"
proof (rule conj_goals(6); (intro impI)?)
  have ok: "master_ok (cl_master c)" "plan_ok c"
    using reachable_ok [OF assms] by simp_all
  show keyed: "jobs_keyed (job_mgr (cl_master c))" and "registry_ok (node_reg (cl_master c))"
    and "get_node (node_reg (cl_master c)) n = Some node \<Longrightarrow> ni_status node = NODE_STATUS_ONLINE"
    and "usage_of (fair_share_mgr (cl_master c)) u \<le> 0"
    using ok(1) by (simp_all add: master_ok_def)
  show "ji_status job \<in> {JOB_STATUS_QUEUED, JOB_STATUS_ASSIGNED, JOB_STATUS_RUNNING, JOB_STATUS_COMPLETED,
        JOB_STATUS_FAILED, JOB_STATUS_CANCELLED}
      \<and> (ji_status job = JOB_STATUS_QUEUED \<longrightarrow>
          job = new_job_info k (ji_submitted_at job) (ji_spec job) (ji_user_id job) (ji_username job))"
    if job: "get_job (job_mgr (cl_master c)) k = Some job"
  proof -
    have "ji_job_id job = k" using job keyed by (simp add: get_job_def keyed_map_of)
    moreover have "job_ok job" using ok(1) job by (auto simp: master_ok_def)
    ultimately show ?thesis by (auto simp: job_ok_def)
  qed
  show "(i, n) \<in> set (cl_plan c) \<Longrightarrow>
      get_job (job_mgr (cl_master c)) i \<noteq> None \<and> get_node (node_reg (cl_master c)) n \<noteq> None"
    and "distinct (map fst (cl_plan c))"
    using ok(2) by (auto simp: plan_ok_def placeable_def)
qed

theorem cluster_invariant_witness:
  "get_job (job_mgr (cl_master run3)) ''job-11111111'' \<noteq> None"
  using cluster_invariant [THEN conjunct2, THEN conjunct2, THEN conjunct2, THEN conjunct2, THEN conjunct2, THEN conjunct1, THEN mp, OF run_reachable(3) std.comparison_sort_axioms, of "''job-11111111''" "''node-00000000''"]
  by (simp add: run3_plan)

text \<open>
  C1: Whatever happened before, a scheduling pass of the running master keeps its promises: its queue
  is within the contract of \<open>std::sort\<close>, it places on a node no more than the node's reported free
  resources, and a job that no online node can take after it is the only kind left in the queue.
\<close>

theorem reachable_pass_safe:
  assumes "reachable api to_json of_json srt c" "comparison_sort srt"
    and m: "m = cl_master c"
    and plan: "pass_plan srt (fair_share_mgr m) (job_mgr m) (node_reg m) now = (placed, rest)"
  shows "queue_comparable (fair_share_mgr m) (job_mgr m) now \<and>
    (get_node (node_reg m) n = Some node \<longrightarrow> le_amounts (demand placed n) (amounts_of (ni_available_resources node))) \<and>
    (get_job (job_mgr (scheduler_turn srt now m)) k = Some job \<longrightarrow> ji_status job = JOB_STATUS_QUEUED \<longrightarrow> left \<in> set rest \<longrightarrow> \<not> fits (spec_resources (ji_spec job)) (ni_available_resources left)) \<and>
    ((job', n) \<in> set placed \<longrightarrow> map_option ji_status (get_job (job_mgr (scheduler_turn srt now m)) (ji_job_id job'))
      = Some JOB_STATUS_ASSIGNED)"
proof (rule conj_goals(3); (intro impI)?)
  have ok: "master_ok m" using reachable_ok [OF assms(1,2)] by (simp add: m)
  then show comparable: "queue_comparable (fair_share_mgr m) (job_mgr m) now"
    by (simp add: master_ok_def no_usage_comparable)
  have ready: "pass_ready srt (fair_share_mgr m) (job_mgr m) (node_reg m) now"
    using ok assms(2) comparable by (simp add: pass_ready_def master_ok_def)
  show "le_amounts (demand placed n) (amounts_of (ni_available_resources node))"
    if "get_node (node_reg m) n = Some node"
    using pass_demand [of "node_reg m" n node srt "fair_share_mgr m" "job_mgr m" now] that ok
    by (auto simp: master_ok_def plan)
  have turn: "job_mgr (scheduler_turn srt now m) = snd (schedule_pass srt (fair_share_mgr m) (job_mgr m) (node_reg m) now)"
    by (simp add: scheduler_turn_def case_prod_unfold Let_def)
  show "\<not> fits (spec_resources (ji_spec job)) (ni_available_resources left)"
    if "get_job (job_mgr (scheduler_turn srt now m)) k = Some job" "ji_status job = JOB_STATUS_QUEUED" "left \<in> set rest"
    using pass_leaves_unfit [OF ready that(1) [unfolded turn] that(2)] that(3) by (simp add: plan)
  show "map_option ji_status (get_job (job_mgr (scheduler_turn srt now m)) (ji_job_id job')) = Some JOB_STATUS_ASSIGNED"
    if placed: "(job', n) \<in> set placed"
  proof -
    have known: "get_job (job_mgr m) (ji_job_id job') = Some job'"
      using pass_plan_sound(1) [OF ready] placed by (simp add: plan)
    have "map_of (map (\<lambda>(job, n). (ji_job_id job, n)) placed) (ji_job_id job') = Some n"
      using pass_plan_distinct [OF ready] placed
      by (intro map_of_is_SomeI) (force simp: plan comp_def case_prod_unfold)+
    then show ?thesis
      by (simp add: turn get_job_pass [OF ready] plan known)
  qed
qed

theorem reachable_pass_safe_witness:
  "map_option ji_status (get_job (job_mgr (scheduler_turn std_sort 3 (cl_master run2))) ''job-11111111'')
     = Some JOB_STATUS_ASSIGNED"
proof -
  obtain placed rest where plan: "pass_plan std_sort (fair_share_mgr (cl_master run2)) (job_mgr (cl_master run2))
      (node_reg (cl_master run2)) 3 = (placed, rest)" by fastforce
  have "plan_of std_sort (cl_master run2) 3 = [(''job-11111111'', ''node-00000000'')]"
    using run3_plan by (simp add: run3_def)
  then obtain job' where "(job', ''node-00000000'') \<in> set placed" "ji_job_id job' = ''job-11111111''"
    by (auto simp: plan_of_def plan)
  then show ?thesis
    using reachable_pass_safe [THEN conjunct2, THEN conjunct2, THEN conjunct2, THEN mp, OF run_reachable(2) std.comparison_sort_axioms refl plan] by metis
qed

lemma uninterrupted_assigns:
  assumes "cl_plan c = plan"
  shows "(cluster_step api to_json of_json srt)\<^sup>*\<^sup>* c
    (c\<lparr>cl_master := (cl_master c)\<lparr>job_mgr :=
         fold (\<lambda>(i, n) s. snd (update_job_status s now i JOB_STATUS_ASSIGNED n)) plan (job_mgr (cl_master c))\<rparr>,
       cl_plan := []\<rparr>)"
  using assms
proof (induction plan arbitrary: c)
  case Nil
  then have "c\<lparr>cl_master := (cl_master c)\<lparr>job_mgr := job_mgr (cl_master c)\<rparr>, cl_plan := []\<rparr> = c" by simp
  then show ?case by simp
next
  case (Cons p plan)
  obtain i n where p: "p = (i, n)" by (cases p)
  let ?c1 = "c\<lparr>cl_master := (cl_master c)\<lparr>job_mgr :=
      snd (update_job_status (job_mgr (cl_master c)) now i JOB_STATUS_ASSIGNED n)\<rparr>, cl_plan := plan\<rparr>"
  have "cluster_step api to_json of_json srt c ?c1"
    by (rule cluster_step.Pass_assign) (simp add: Cons.prems p)
  from converse_rtranclp_into_rtranclp [OF this Cons.IH [of ?c1]]
  show ?case by (simp add: p)
qed

text \<open>
  C8: The interleaved pass refines the atomic one: a pass that no RPC interrupts takes the cluster, in
  steps of the machine, from an idle scheduler to exactly the state after
  \<open>SchedulerEngine::schedule_pass\<close>, with an idle scheduler again.
\<close>

theorem uninterrupted_pass:
  assumes "cl_plan c = []" "comparison_sort srt"
  shows "(cluster_step api to_json of_json srt)\<^sup>*\<^sup>* c (c\<lparr>cl_master := scheduler_turn srt now (cl_master c)\<rparr>)"
proof (cases "get_pending_jobs (job_mgr (cl_master c)) = []")
  case True
  then have "c\<lparr>cl_master := scheduler_turn srt now (cl_master c)\<rparr> = c"
    by (simp add: scheduler_turn_def schedule_pass_def)
  then show ?thesis by simp
next
  case False
  let ?m = "cl_master c"
  let ?c1 = "c\<lparr>cl_master := ?m\<lparr>fair_share_mgr := apply_decay (fair_share_mgr ?m) now\<rparr>,
      cl_plan := plan_of srt ?m now\<rparr>"
  have begins: "cluster_step api to_json of_json srt c ?c1"
    using assms(1) False by (rule cluster_step.Pass_begin)
  have fs: "fst (schedule_pass srt (fair_share_mgr ?m) (job_mgr ?m) (node_reg ?m) now) = apply_decay (fair_share_mgr ?m) now"
    using False by (simp add: schedule_pass_def Let_def)
  have jm: "snd (schedule_pass srt (fair_share_mgr ?m) (job_mgr ?m) (node_reg ?m) now) =
      fold (\<lambda>(i, n) s. snd (update_job_status s now i JOB_STATUS_ASSIGNED n)) (plan_of srt ?m now) (job_mgr ?m)"
    by (simp add: schedule_pass_plan [OF assms(2)] jobs.assigned_def plan_of_def fold_map comp_def case_prod_unfold)
  have "?c1\<lparr>cl_master := (cl_master ?c1)\<lparr>job_mgr :=
         fold (\<lambda>(i, n) s. snd (update_job_status s now i JOB_STATUS_ASSIGNED n)) (plan_of srt ?m now) (job_mgr (cl_master ?c1))\<rparr>,
       cl_plan := []\<rparr> = c\<lparr>cl_master := scheduler_turn srt now ?m\<rparr>"
    by (simp add: scheduler_turn_def case_prod_unfold Let_def fs jm assms(1) [symmetric])
  with converse_rtranclp_into_rtranclp [OF begins uninterrupted_assigns [of ?c1 "plan_of srt ?m now" api to_json of_json srt now]]
  show ?thesis by simp
qed

theorem uninterrupted_pass_witness:
  "(cluster_step ref_api no_json no_parse std_sort)\<^sup>*\<^sup>* run2
     (run2\<lparr>cl_master := scheduler_turn std_sort 3 (cl_master run2)\<rparr>)"
  by (rule uninterrupted_pass [OF run2_master(3) std.comparison_sort_axioms])

text \<open>
  C12: A cancellation can be lost to a pass in progress.  A pass has already chosen node \<open>n\<close> for job
  \<open>i\<close> when the job is cancelled and the user is told so.  The pass is not told: its next step can be
  taken, and whenever it is, the job is \<open>ASSIGNED\<close> to \<open>n\<close> with the time of the cancellation still in its
  record, no heartbeat will tell \<open>n\<close> to cancel it, and the master can go on from there, leaving the
  job alone, to a state in which a poll of \<open>n\<close> is handed exactly this job and its specification.
\<close>

theorem cancel_lost_to_pass:
  assumes "reachable api to_json of_json srt c" "comparison_sort srt" "cl_plan c = (i, n) # plan" "n \<noteq> ''''"
    and cancel: "cancel_job_rpc (cl_master c) now i = (st, response, m1)" "sr_success response"
    and c1: "c1 = c\<lparr>cl_master := m1\<rparr>"
  shows "cluster_step api to_json of_json srt c c1
    \<and> map_option ji_status (get_job (job_mgr (cl_master c1)) i) = Some JOB_STATUS_CANCELLED
    \<and> (\<exists>c2. cluster_step api to_json of_json srt c1 c2 \<and> cl_plan c2 = plan)
    \<and> (cluster_step api to_json of_json srt c1 c2 \<longrightarrow> cl_plan c2 = plan \<longrightarrow>
        (\<exists>job. get_job (job_mgr (cl_master c2)) i = Some job \<and> ji_status job = JOB_STATUS_ASSIGNED
           \<and> ji_assigned_node_id job = n \<and> ji_completed_at job = now
           \<and> (\<forall>t. i \<notin> set (get_jobs_to_cancel_for_node (job_mgr (cl_master c2)) t n))
           \<and> (\<exists>c3. (cluster_step api to_json of_json srt)\<^sup>*\<^sup>* c2 c3 \<and> get_job (job_mgr (cl_master c3)) i = Some job
                \<and> fetch_job_rpc (cl_master c3) n =
                    (Status_OK, \<lparr>fj_has_job = True, fj_job_id = i, fj_spec = ji_spec job\<rparr>))))"
proof (rule conj_goals(3); (intro impI)?)
  show s1: "cluster_step api to_json of_json srt c c1"
    using cluster_step.Cancel [of api to_json of_json srt c now i] cancel(1) by (simp add: c1)
  obtain old where old: "get_job (job_mgr (cl_master c1)) i = Some (old\<lparr>ji_status := JOB_STATUS_CANCELLED, ji_completed_at := now\<rparr>)"
    using cancel_rpc_success(1) [OF cancel] by (auto simp: c1)
  then show "map_option ji_status (get_job (job_mgr (cl_master c1)) i) = Some JOB_STATUS_CANCELLED" by simp
  show "\<exists>c2. cluster_step api to_json of_json srt c1 c2 \<and> cl_plan c2 = plan"
    using cluster_step.Pass_assign [of c1 i n plan] assms(3) by (fastforce simp: c1)
  assume s2: "cluster_step api to_json of_json srt c1 c2" and "cl_plan c2 = plan"
  with assms(3) obtain later where
    c2: "job_mgr (cl_master c2) = snd (update_job_status (job_mgr (cl_master c1)) later i JOB_STATUS_ASSIGNED n)"
    by (cases rule: cluster_stepE) (auto simp: c1)
  let ?job = "status_update later JOB_STATUS_ASSIGNED n (old\<lparr>ji_status := JOB_STATUS_CANCELLED, ji_completed_at := now\<rparr>)"
  have job: "get_job (job_mgr (cl_master c2)) i = Some ?job" by (simp add: c2 job_simps old)
  have assigned: "ji_status ?job = JOB_STATUS_ASSIGNED" "ji_assigned_node_id ?job = n" using assms(4) by simp_all
  have completed: "ji_completed_at ?job = now" by (simp add: status_update_def Let_def)
  have r2: "reachable api to_json of_json srt c2" by (rule reachable.Step [OF reachable.Step [OF assms(1) s1] s2])
  from reachable_ok [OF r2 assms(2)] have "jobs_keyed (job_mgr (cl_master c2))"
    by (simp add: master_ok_def)
  then have "\<forall>t. i \<notin> set (get_jobs_to_cancel_for_node (job_mgr (cl_master c2)) t n)"
    by (simp add: in_jobs_to_cancel job)
  with job assigned completed offered_in_the_end [OF r2 assms(2) job] show "\<exists>job. get_job (job_mgr (cl_master c2)) i = Some job
      \<and> ji_status job = JOB_STATUS_ASSIGNED \<and> ji_assigned_node_id job = n \<and> ji_completed_at job = now
      \<and> (\<forall>t. i \<notin> set (get_jobs_to_cancel_for_node (job_mgr (cl_master c2)) t n))
      \<and> (\<exists>c3. (cluster_step api to_json of_json srt)\<^sup>*\<^sup>* c2 c3 \<and> get_job (job_mgr (cl_master c3)) i = Some job
           \<and> fetch_job_rpc (cl_master c3) n = (Status_OK, \<lparr>fj_has_job = True, fj_job_id = i, fj_spec = ji_spec job\<rparr>))"
    by (intro exI [of _ ?job] conjI) (simp_all add: awaits_def)
qed

lemma run3_job: "get_job (job_mgr (cl_master run3)) ''job-11111111'' = Some run_job"
  by (simp add: run3_def get_job_def run2_master)

lemma cancel_succeeds:
  "get_job (job_mgr m) i = Some job \<Longrightarrow> \<not> terminal (ji_status job) \<Longrightarrow> sr_success (fst (snd (cancel_job_rpc m now i)))"
  by (simp add: cancel_job_rpc_def case_prod_unfold fst_cancel_job)

theorem cancel_lost_to_pass_witness:
  "let c1 = run3\<lparr>cl_master := snd (snd (cancel_job_rpc (cl_master run3) 4 ''job-11111111''))\<rparr>
   in map_option ji_status (get_job (job_mgr (cl_master c1)) ''job-11111111'') = Some JOB_STATUS_CANCELLED
     \<and> (\<exists>c2 c3. cluster_step ref_api no_json no_parse std_sort c1 c2
          \<and> (cluster_step ref_api no_json no_parse std_sort)\<^sup>*\<^sup>* c2 c3
          \<and> fj_job_id (snd (fetch_job_rpc (cl_master c3) ''node-00000000'')) = ''job-11111111'')"
proof -
  have "\<not> terminal (ji_status run_job)" by (simp add: terminal_def)
  note ok = cancel_succeeds [OF run3_job this, of 4]
  have "''node-00000000'' \<noteq> ''''" by simp
  note lost = cancel_lost_to_pass [OF run_reachable(3) std.comparison_sort_axioms run3_plan this triple_parts ok refl, THEN conjunct2]
  obtain c2 where c2: "cluster_step ref_api no_json no_parse std_sort
      (run3\<lparr>cl_master := snd (snd (cancel_job_rpc (cl_master run3) 4 ''job-11111111''))\<rparr>) c2" "cl_plan c2 = []"
    using lost [THEN conjunct2, THEN conjunct1] by blast
  obtain job :: job_info and c3 where "(cluster_step ref_api no_json no_parse std_sort)\<^sup>*\<^sup>* c2 c3"
    "fetch_job_rpc (cl_master c3) ''node-00000000'' = (Status_OK, \<lparr>fj_has_job = True, fj_job_id = ''job-11111111'', fj_spec = ji_spec job\<rparr>)"
    using lost [THEN conjunct2, THEN conjunct2, THEN mp, OF c2(1), THEN mp, OF c2(2)] by blast
  then have "(cluster_step ref_api no_json no_parse std_sort)\<^sup>*\<^sup>* c2 c3
      \<and> fj_job_id (snd (fetch_job_rpc (cl_master c3) ''node-00000000'')) = ''job-11111111''" by simp
  with lost [THEN conjunct1] c2(1) show ?thesis unfolding Let_def by blast
qed

text \<open>
  C30: Heartbeats carry a cancellation as long as it stands.  A job assigned to a registered node was
  cancelled, and the master then went through any steps, RPCs and passes, that all left the job
  \<open>CANCELLED\<close>.  A heartbeat of that node is acknowledged and puts the node online with the reported
  resources; a heartbeat names the job exactly if it is of that node and comes less than 60 seconds
  after the cancellation.  And no heartbeat of any node names a job that is not cancelled: a start
  report or a pass that takes the job out of \<open>CANCELLED\<close> ends the delivery.
\<close>

theorem heartbeats_carry_cancel:
  assumes reach: "reachable api to_json of_json srt c" and srt: "comparison_sort srt"
    and job: "get_node (node_reg (cl_master c)) n \<noteq> None" "get_job (job_mgr (cl_master c)) k = Some job"
      "ji_assigned_node_id job = n"
    and cancel: "cancel_job_rpc (cl_master c) now k = (st, response, m1)" "sr_success response"
    and run: "(\<lambda>x y. cluster_step api to_json of_json srt x y
        \<and> map_option ji_status (get_job (job_mgr (cl_master y)) k) = Some JOB_STATUS_CANCELLED)\<^sup>*\<^sup>*
      (c\<lparr>cl_master := m1\<rparr>) c'"
    and beat: "send_heartbeat_rpc (cl_master c') later hb = (st', answer, m2)"
  shows "(hb_node_id hb = n \<longrightarrow> hr_acknowledged answer \<and> (\<exists>node. get_node (node_reg m2) n = Some node
      \<and> ni_status node = NODE_STATUS_ONLINE \<and> ni_available_resources node = hb_available_resources hb
      \<and> ni_last_heartbeat node = later)) \<and>
    (k \<in> set (hr_jobs_to_cancel answer) \<longleftrightarrow> hb_node_id hb = n \<and> later < now + 60) \<and>
    (reachable api to_json of_json srt d \<longrightarrow>
      map_option ji_status (get_job (job_mgr (cl_master d)) i) \<noteq> Some JOB_STATUS_CANCELLED \<longrightarrow>
      i \<notin> set (hr_jobs_to_cancel (fst (snd (send_heartbeat_rpc (cl_master d) t hb')))))"
proof (rule conj_goals(2); (intro impI)?)
  let ?cancelled = "job\<lparr>ji_status := JOB_STATUS_CANCELLED, ji_completed_at := now\<rparr>"
  have "reachable api to_json of_json srt (c\<lparr>cl_master := m1\<rparr>)"
    using reachable.Step [OF reach cluster_step.Cancel [of api to_json of_json srt c now k]] cancel(1) by simp
  with run have stands: "reachable api to_json of_json srt c' \<and> get_job (job_mgr (cl_master c')) k = Some ?cancelled
      \<and> get_node (node_reg (cl_master c')) n \<noteq> None"
  proof (induction rule: rtranclp_induct)
    case base
    obtain old where "get_job (job_mgr (cl_master c)) k = Some old"
      "get_job (job_mgr m1) k = Some (old\<lparr>ji_status := JOB_STATUS_CANCELLED, ji_completed_at := now\<rparr>)"
      using cancel_rpc_success(1) [OF cancel] by blast
    with base job show ?case by (simp add: cancel_rpc_success(2) [OF cancel])
  next
    case (step x y)
    then have x: "reachable api to_json of_json srt x" "get_job (job_mgr (cl_master x)) k = Some ?cancelled"
      "get_node (node_reg (cl_master x)) n \<noteq> None" and xy: "cluster_step api to_json of_json srt x y" by simp_all
    have "registry_ok (node_reg (cl_master x))" using reachable_ok [OF x(1) srt] by (simp add: master_ok_def)
    from node_effect_known [OF step_effects(2) [OF xy] this x(3)] cancelled_kept [OF xy x(2)] step(2) reachable.Step [OF x(1) xy]
    show ?case by simp
  qed
  then have keyed: "jobs_keyed (job_mgr (cl_master c'))"
    using reachable_ok [OF _ srt, of api to_json of_json c'] by (simp add: master_ok_def)
  have answer: "hr_acknowledged answer \<longleftrightarrow> get_node (node_reg (cl_master c')) (hb_node_id hb) \<noteq> None"
    "hr_jobs_to_cancel answer = (if get_node (node_reg (cl_master c')) (hb_node_id hb) \<noteq> None
       then get_jobs_to_cancel_for_node (job_mgr (cl_master c')) later (hb_node_id hb) else [])"
    "m2 = (cl_master c')\<lparr>node_reg := snd (update_heartbeat (node_reg (cl_master c')) later (hb_node_id hb)
       (hb_available_resources hb) (hb_running_jobs hb))\<rparr>"
    using beat by (auto simp: send_heartbeat_rpc_eq)
  show "hb_node_id hb = n \<Longrightarrow> hr_acknowledged answer \<and> (\<exists>node. get_node (node_reg m2) n = Some node
      \<and> ni_status node = NODE_STATUS_ONLINE \<and> ni_available_resources node = hb_available_resources hb
      \<and> ni_last_heartbeat node = later)"
    using stands by (auto simp: answer(1,3) node_simps beat_def)
  show "k \<in> set (hr_jobs_to_cancel answer) \<longleftrightarrow> hb_node_id hb = n \<and> later < now + 60"
    using stands job(3) by (auto simp: answer(2) in_jobs_to_cancel [OF keyed])
  show "i \<notin> set (hr_jobs_to_cancel (fst (snd (send_heartbeat_rpc (cl_master d) t hb'))))"
    if "reachable api to_json of_json srt d" "map_option ji_status (get_job (job_mgr (cl_master d)) i) \<noteq> Some JOB_STATUS_CANCELLED"
  proof -
    have "jobs_keyed (job_mgr (cl_master d))" using reachable_ok [OF that(1) srt] by (simp add: master_ok_def)
    then show ?thesis using that(2) by (auto simp: send_heartbeat_rpc_eq in_jobs_to_cancel)
  qed
qed

text \<open>The job of the small run is assigned, cancelled, and a user is created before its node beats.\<close>

definition run4 :: "tables cluster" where
  "run4 = run3\<lparr>cl_master := (cl_master run3)\<lparr>job_mgr :=
       snd (update_job_status (job_mgr (cl_master run3)) 3 ''job-11111111'' JOB_STATUS_ASSIGNED ''node-00000000'')\<rparr>,
     cl_plan := []\<rparr>"

definition demo_heartbeat :: heartbeat_request where
  "demo_heartbeat = \<lparr>hb_node_id = ''node-00000000'', hb_available_resources = default_resource_spec, hb_running_jobs = 0,
     hb_timestamp = 20, hb_cpu_usage_percent = 0, hb_ram_usage_percent = 0\<rparr>"

theorem heartbeats_carry_cancel_witness:
  "let m1 = snd (snd (cancel_job_rpc (cl_master run4) 10 ''job-11111111''));
       m2 = snd (snd (create_user ref_api m1 11 \<lparr>cu_username = ''bob'', cu_password = ''x'', cu_role = USER_ROLE_UNSPECIFIED\<rparr>))
   in ''job-11111111'' \<in> set (hr_jobs_to_cancel (fst (snd (send_heartbeat_rpc m2 20 demo_heartbeat))))"
proof -
  let ?job = "status_update 3 JOB_STATUS_ASSIGNED ''node-00000000'' run_job"
  let ?c = "cancel_job_rpc (cl_master run4) 10 ''job-11111111''"
  let ?u = "\<lparr>cu_username = ''bob'', cu_password = ''x'', cu_role = USER_ROLE_UNSPECIFIED\<rparr>"
  let ?c1 = "run4\<lparr>cl_master := snd (snd ?c)\<rparr>"
  let ?c2 = "?c1\<lparr>cl_master := snd (snd (create_user ref_api (cl_master ?c1) 11 ?u))\<rparr>"
  have r: "reachable ref_api no_json no_parse std_sort run4"
    unfolding run4_def by (rule reachable.Step [OF run_reachable(3) cluster_step.Pass_assign]) (rule run3_plan)
  have job: "get_job (job_mgr (cl_master run4)) ''job-11111111'' = Some ?job"
    by (simp add: run4_def job_simps run3_job)
  have node: "get_node (node_reg (cl_master run4)) ''node-00000000'' \<noteq> None"
    by (simp add: run4_def run3_def run2_master get_node_def)
  have ok: "sr_success (fst (snd ?c))" by (rule cancel_succeeds [OF job]) (simp add: terminal_def)
  have "cluster_step ref_api no_json no_parse std_sort ?c1 ?c2" by (rule cluster_step.Create_user)
  moreover have "map_option ji_status (get_job (job_mgr (cl_master ?c2)) ''job-11111111'') = Some JOB_STATUS_CANCELLED"
    using cancel_rpc_success(1) [OF triple_parts ok] by auto
  ultimately have run: "(\<lambda>x y. cluster_step ref_api no_json no_parse std_sort x y
        \<and> map_option ji_status (get_job (job_mgr (cl_master y)) ''job-11111111'') = Some JOB_STATUS_CANCELLED)\<^sup>*\<^sup>* ?c1 ?c2"
    by (intro r_into_rtranclp) simp
  have "ji_assigned_node_id ?job = ''node-00000000''" by simp
  note named = heartbeats_carry_cancel [THEN conjunct2, THEN conjunct1, OF r std.comparison_sort_axioms node job this
      triple_parts ok run triple_parts, of 20 demo_heartbeat]
  have "hb_node_id demo_heartbeat = ''node-00000000''" "(20::unix_time) < 10 + 60" by (simp_all add: demo_heartbeat_def)
  with named show ?thesis by (simp add: Let_def)
qed

text \<open>
  C33: What one step can do to a job: it never disappears, and it is unchanged, or cancelled from a
  state that has not ended, or moved to assigned, running, completed or failed (from any state), or
  replaced by a new submission that drew the same id.  Except in the last case its owner, its
  specification and its submission time stay.
\<close>

theorem job_transitions:
  assumes "cluster_step api to_json of_json srt c c'" "get_job (job_mgr (cl_master c)) k = Some old"
  shows "\<exists>new. get_job (job_mgr (cl_master c')) k = Some new
    \<and> (new = old
       \<or> ji_status new = JOB_STATUS_CANCELLED \<and> \<not> terminal (ji_status old)
       \<or> ji_status new \<in> {JOB_STATUS_ASSIGNED, JOB_STATUS_RUNNING, JOB_STATUS_COMPLETED, JOB_STATUS_FAILED}
       \<or> (\<exists>now spec u un. new = new_job_info k now spec u un))
    \<and> ((\<exists>now spec u un. new = new_job_info k now spec u un)
       \<or> ji_user_id new = ji_user_id old \<and> ji_spec new = ji_spec old \<and> ji_submitted_at new = ji_submitted_at old)"
  using step_effects(1) [OF assms(1)] assms(2)
proof (cases rule: job_effect.cases)
  case (Submitted put uuid now spec u un)
  then show ?thesis using assms(2) by (cases "k = job_id_of_uuid uuid") (auto simp: get_job_submit)
next
  case (Cancelled now i)
  then show ?thesis using assms(2) by (cases "k = i \<and> \<not> terminal (ji_status old)") (auto simp: get_job_cancel)
next
  case (Updated st now i n)
  then show ?thesis using assms(2) by (cases "k = i") (auto simp: get_job_update)
qed (use assms(2) in simp)

theorem job_transitions_witness:
  "\<exists>new. get_job (job_mgr (cl_master (run3\<lparr>cl_master :=
     snd (snd (cancel_job_rpc (cl_master run3) 4 ''job-11111111''))\<rparr>))) ''job-11111111'' = Some new"
  using job_transitions [OF cluster_step.Cancel, of run3 "''job-11111111''" run_job 4]
  by (auto simp: run3_def get_job_def run2_master)

end
