(* ===== verification/Rbac.thy ===== *)
theory Rbac
  imports Certos_Prelude
begin

text \<open>
  \<open>RbacManager\<close> (\<open>lib/auth/src/rbac.cpp\<close>): the permissions of the three built-in roles, kept as
  the integer codes of the enumerators in a table from role names.
\<close>

datatype permission =
    JOB_SUBMIT | JOB_VIEW_OWN | JOB_VIEW_ALL | JOB_CANCEL_OWN | JOB_CANCEL_ALL | JOB_SET_PRIORITY
  | NODE_VIEW | NODE_DRAIN | NODE_MANAGE
  | USER_VIEW | USER_CREATE | USER_DELETE
  | CLUSTER_VIEW | CLUSTER_MANAGE
  | NODE_REGISTER | NODE_HEARTBEAT | NODE_REPORT

definition all_permissions :: "permission list" where
  "all_permissions =
     [JOB_SUBMIT, JOB_VIEW_OWN, JOB_VIEW_ALL, JOB_CANCEL_OWN, JOB_CANCEL_ALL, JOB_SET_PRIORITY,
      NODE_VIEW, NODE_DRAIN, NODE_MANAGE, USER_VIEW, USER_CREATE, USER_DELETE,
      CLUSTER_VIEW, CLUSTER_MANAGE, NODE_REGISTER, NODE_HEARTBEAT, NODE_REPORT]"

lemma all_permissions_complete: "p \<in> set all_permissions"
  by (cases p) (simp_all add: all_permissions_def)

text \<open>\<open>static_cast<int>\<close> and back; the latter is used on codes of enumerators only.\<close>

primrec permission_code :: "permission \<Rightarrow> nat" where
  "permission_code JOB_SUBMIT = 0"
| "permission_code JOB_VIEW_OWN = 1"
| "permission_code JOB_VIEW_ALL = 2"
| "permission_code JOB_CANCEL_OWN = 3"
| "permission_code JOB_CANCEL_ALL = 4"
| "permission_code JOB_SET_PRIORITY = 5"
| "permission_code NODE_VIEW = 6"
| "permission_code NODE_DRAIN = 7"
| "permission_code NODE_MANAGE = 8"
| "permission_code USER_VIEW = 9"
| "permission_code USER_CREATE = 10"
| "permission_code USER_DELETE = 11"
| "permission_code CLUSTER_VIEW = 12"
| "permission_code CLUSTER_MANAGE = 13"
| "permission_code NODE_REGISTER = 14"
| "permission_code NODE_HEARTBEAT = 15"
| "permission_code NODE_REPORT = 16"

definition permission_of_code :: "nat \<Rightarrow> permission" where
  "permission_of_code c = all_permissions ! c"

lemma permission_of_code [simp]: "permission_of_code (permission_code p) = p"
  by (cases p) (simp_all add: permission_of_code_def all_permissions_def)

lemma permission_code_inj: "permission_code p = permission_code q \<longleftrightarrow> p = q"
  by (metis permission_of_code)

instantiation permission :: linorder
begin

definition less_eq_permission :: "permission \<Rightarrow> permission \<Rightarrow> bool" where
  "p \<le> q \<longleftrightarrow> permission_code p \<le> permission_code q"

definition less_permission :: "permission \<Rightarrow> permission \<Rightarrow> bool" where
  "p < q \<longleftrightarrow> permission_code p < permission_code q"

instance
  by standard (auto simp: less_eq_permission_def less_permission_def permission_code_inj)

end

type_synonym rbac_manager = "nat list table"

definition init_default_roles :: rbac_manager where
  "init_default_roles =
     [(''user'', map permission_code
         [JOB_SUBMIT, JOB_VIEW_OWN, JOB_CANCEL_OWN, NODE_VIEW, CLUSTER_VIEW]),
      (''admin'', map permission_code
         [JOB_SUBMIT, JOB_VIEW_OWN, JOB_VIEW_ALL, JOB_CANCEL_OWN, JOB_CANCEL_ALL, JOB_SET_PRIORITY,
          NODE_VIEW, NODE_DRAIN, NODE_MANAGE, USER_VIEW, USER_CREATE, USER_DELETE,
          CLUSTER_VIEW, CLUSTER_MANAGE]),
      (''node'', map permission_code [NODE_REGISTER, NODE_HEARTBEAT, NODE_REPORT])]"

definition has_permission :: "rbac_manager \<Rightarrow> string \<Rightarrow> permission \<Rightarrow> bool" where
  "has_permission rbac role perm =
     (case map_of rbac role of
        None \<Rightarrow> False
      | Some perms \<Rightarrow> permission_code perm \<in> set perms)"

definition get_permissions :: "rbac_manager \<Rightarrow> string \<Rightarrow> permission list" where
  "get_permissions rbac role =
     (case map_of rbac role of
        None \<Rightarrow> []
      | Some perms \<Rightarrow> map permission_of_code perms)"

primrec permission_name :: "permission \<Rightarrow> string" where
  "permission_name JOB_SUBMIT = ''job:submit''"
| "permission_name JOB_VIEW_OWN = ''job:view_own''"
| "permission_name JOB_VIEW_ALL = ''job:view_all''"
| "permission_name JOB_CANCEL_OWN = ''job:cancel_own''"
| "permission_name JOB_CANCEL_ALL = ''job:cancel_all''"
| "permission_name JOB_SET_PRIORITY = ''job:set_priority''"
| "permission_name NODE_VIEW = ''node:view''"
| "permission_name NODE_DRAIN = ''node:drain''"
| "permission_name NODE_MANAGE = ''node:manage''"
| "permission_name USER_VIEW = ''user:view''"
| "permission_name USER_CREATE = ''user:create''"
| "permission_name USER_DELETE = ''user:delete''"
| "permission_name CLUSTER_VIEW = ''cluster:view''"
| "permission_name CLUSTER_MANAGE = ''cluster:manage''"
| "permission_name NODE_REGISTER = ''node:register''"
| "permission_name NODE_HEARTBEAT = ''node:heartbeat''"
| "permission_name NODE_REPORT = ''node:report''"

text \<open>The permissions of each role, as a list of enumerators.\<close>

definition role_permissions :: "string \<Rightarrow> permission list" where
  "role_permissions r =
     (if r = ''user'' then [JOB_SUBMIT, JOB_VIEW_OWN, JOB_CANCEL_OWN, NODE_VIEW, CLUSTER_VIEW]
      else if r = ''admin'' then filter (\<lambda>p. p < NODE_REGISTER) all_permissions
      else if r = ''node'' then [NODE_REGISTER, NODE_HEARTBEAT, NODE_REPORT]
      else [])"

lemma code_in_map: "permission_code p \<in> set (map permission_code ps) \<longleftrightarrow> p \<in> set ps"
  by (auto simp: permission_code_inj)

lemma decode_map: "map permission_of_code (map permission_code ps) = ps"
  by (simp add: comp_def)

lemma role_lookup:
  "map_of init_default_roles r =
     (if r \<in> {''user'', ''admin'', ''node''} then Some (map permission_code (role_permissions r)) else None)"
  by (simp add: init_default_roles_def role_permissions_def all_permissions_def less_permission_def)

lemma role_permissions_other: "r \<notin> {''user'', ''admin'', ''node''} \<Longrightarrow> role_permissions r = []"
  by (simp add: role_permissions_def)

lemma has_permission_role: "has_permission init_default_roles r p \<longleftrightarrow> p \<in> set (role_permissions r)"
  by (cases "r \<in> {''user'', ''admin'', ''node''}")
     (simp_all only: has_permission_def role_lookup if_True if_False option.case code_in_map
       role_permissions_other list.set empty_iff not_False_eq_True simp_thms)

lemma get_permissions_role: "get_permissions init_default_roles r = role_permissions r"
  by (cases "r \<in> {''user'', ''admin'', ''node''}")
     (simp_all only: get_permissions_def role_lookup if_True if_False option.case decode_map
       role_permissions_other not_False_eq_True simp_thms)

section \<open>Properties\<close>

text \<open>
  The role table is a separation of duties: an administrator may do everything that is not
  internal to the agents, a user may do only what an administrator may, the agents' role has
  exactly the three internal permissions, and no role other than these three has any.
  \<open>has_permission\<close> agrees with the list \<open>get_permissions\<close> returns, which has no duplicates.
\<close>

theorem roles_separate_duties:
  "has_permission init_default_roles ''user'' p \<le> has_permission init_default_roles ''admin'' p \<and>
    has_permission init_default_roles ''admin'' p \<noteq> has_permission init_default_roles ''node'' p \<and>
    (has_permission init_default_roles ''node'' p \<longleftrightarrow> p \<in> {NODE_REGISTER, NODE_HEARTBEAT, NODE_REPORT}) \<and>
    ({r. \<exists>p. has_permission init_default_roles r p} = {''user'', ''admin'', ''node''}) \<and>
    (has_permission init_default_roles r p \<longleftrightarrow> p \<in> set (get_permissions init_default_roles r)) \<and>
    distinct (get_permissions init_default_roles r)"
proof (rule conj_goals(5); (intro impI)?)
  have admin: "p \<in> set (role_permissions ''admin'') \<longleftrightarrow> p < NODE_REGISTER"
    using all_permissions_complete [of p] by (simp add: role_permissions_def)
  have user: "set (role_permissions ''user'') = {JOB_SUBMIT, JOB_VIEW_OWN, JOB_CANCEL_OWN, NODE_VIEW, CLUSTER_VIEW}"
    and node: "set (role_permissions ''node'') = {NODE_REGISTER, NODE_HEARTBEAT, NODE_REPORT}"
    by (simp_all add: role_permissions_def)
  show "has_permission init_default_roles ''user'' p \<le> has_permission init_default_roles ''admin'' p"
    unfolding has_permission_role admin user by (cases p) (simp_all add: less_permission_def)
  show "has_permission init_default_roles ''admin'' p \<noteq> has_permission init_default_roles ''node'' p"
    unfolding has_permission_role admin node by (cases p) (simp_all add: less_permission_def)
  show "has_permission init_default_roles ''node'' p \<longleftrightarrow> p \<in> {NODE_REGISTER, NODE_HEARTBEAT, NODE_REPORT}"
    unfolding has_permission_role node ..
  have some: "role_permissions r \<noteq> [] \<longleftrightarrow> r \<in> {''user'', ''admin'', ''node''}" for r
  proof (cases "r \<in> {''user'', ''admin'', ''node''}")
    case True
    have "role_permissions ''user'' \<noteq> []" "role_permissions ''admin'' \<noteq> []" "role_permissions ''node'' \<noteq> []"
      by (simp_all add: role_permissions_def all_permissions_def less_permission_def)
    with True show ?thesis by blast
  next
    case False
    then show ?thesis by (simp only: role_permissions_other simp_thms)
  qed
  have "(\<exists>p. p \<in> set (role_permissions r)) \<longleftrightarrow> r \<in> {''user'', ''admin'', ''node''}" for r
    unfolding some [symmetric] by (cases "role_permissions r") auto
  then show "{r. \<exists>p. has_permission init_default_roles r p} = {''user'', ''admin'', ''node''}"
    unfolding has_permission_role by (simp only: Collect_mem_eq)
  show "has_permission init_default_roles r p \<longleftrightarrow> p \<in> set (get_permissions init_default_roles r)"
    by (simp only: has_permission_role get_permissions_role)
  show "distinct (get_permissions init_default_roles r)"
  proof -
    have "distinct all_permissions" by (simp add: all_permissions_def)
    moreover have "distinct [JOB_SUBMIT, JOB_VIEW_OWN, JOB_CANCEL_OWN, NODE_VIEW, CLUSTER_VIEW]"
      "distinct [NODE_REGISTER, NODE_HEARTBEAT, NODE_REPORT]" by simp_all
    ultimately show ?thesis
      by (simp only: get_permissions_role role_permissions_def distinct_filter distinct.simps(1)
          split: if_split) simp
  qed
qed

text \<open>
  The names of the permissions are unique, so a name identifies its permission, and no
  permission falls through to the name \<open>unknown\<close>.
\<close>

theorem permission_names_unique:
  "permission_name p = permission_name q \<longleftrightarrow> p = q"
  "permission_name p \<noteq> ''unknown''"
proof -
  have "distinct (map permission_name all_permissions)"
    by (simp add: all_permissions_def)
  then have "inj_on permission_name UNIV"
    using all_permissions_complete by (auto simp: distinct_map inj_on_def)
  then show "permission_name p = permission_name q \<longleftrightarrow> p = q"
    by (auto dest: injD)
  show "permission_name p \<noteq> ''unknown''"
    by (cases p) simp_all
qed

end
