(* ===== verification/Jwt.thy ===== *)
theory Jwt
  imports Certos_Prelude
begin

text \<open>
  \<open>JwtManager\<close> (\<open>lib/auth/src/jwt_manager.cpp\<close>).  The jwt-cpp library is not under \<open>src/\<close>: its
  calls are the parameter \<open>jwt_api\<close> over a type of tokens, and what the sources rely on is the
  locale \<open>jwt_library\<close>.  The clock is \<open>std::chrono::system_clock\<close>, in nanoseconds; \<open>iat\<close> and \<open>exp\<close> are
  whole seconds.
\<close>

record jwt_payload =
  p_iss :: string
  p_typ :: string
  p_iat :: int
  p_exp :: int
  p_claims :: "(string \<times> string) list"

text \<open>
  \<open>jwt_sign\<close>: HS256 with a secret; \<open>jwt_decode\<close>: the payload, \<open>None\<close> when it throws;
  \<open>jwt_verify\<close>: the verifier for a secret and an issuer at a time, \<open>False\<close> when it throws.
\<close>

record 'tok jwt_api =
  jwt_sign :: "string \<Rightarrow> jwt_payload \<Rightarrow> 'tok"
  jwt_decode :: "'tok \<Rightarrow> jwt_payload option"
  jwt_verify :: "string \<Rightarrow> string \<Rightarrow> int \<Rightarrow> 'tok \<Rightarrow> bool"

record jwt_manager =
  secret :: string
  expiry_seconds :: u32

record token_claims =
  tc_user_id :: string
  tc_username :: string
  tc_role :: string
  tc_expires_at :: unix_time
  tc_issued_at :: unix_time

text \<open>A second, in units of the clock.\<close>

abbreviation second :: int where
  "second \<equiv> 1000000000"

definition create_token ::
  "'tok jwt_api \<Rightarrow> jwt_manager \<Rightarrow> int \<Rightarrow> string \<Rightarrow> string \<Rightarrow> string \<Rightarrow> 'tok" where
  "create_token api mgr now user_id username role =
     jwt_sign api (secret mgr)
       \<lparr>p_iss = ''certosc'', p_typ = ''JWT'', p_iat = now div second,
        p_exp = (now + second * uint (expiry_seconds mgr)) div second,
        p_claims = [(''user_id'', user_id), (''username'', username), (''role'', role)]\<rparr>"

text \<open>A missing claim throws inside the \<open>try\<close> block, as every other failure.\<close>

definition validate_token :: "'tok jwt_api \<Rightarrow> jwt_manager \<Rightarrow> int \<Rightarrow> 'tok \<Rightarrow> token_claims option" where
  "validate_token api mgr now token =
     (case jwt_decode api token of
        None \<Rightarrow> None
      | Some p \<Rightarrow>
          if \<not> jwt_verify api (secret mgr) ''certosc'' now token then None
          else (case (map_of (p_claims p) ''user_id'', map_of (p_claims p) ''username'', map_of (p_claims p) ''role'') of
                  (Some user_id, Some username, Some role) \<Rightarrow>
                    Some \<lparr>tc_user_id = user_id, tc_username = username, tc_role = role,
                          tc_expires_at = p_exp p, tc_issued_at = p_iat p\<rparr>
                | _ \<Rightarrow> None))"

section \<open>What the sources rely on in the library\<close>

text \<open>
  A signed token decodes to its payload.  Under the secret that signed it, it verifies exactly for its
  issuer, not before it was issued and not after it expired; under any other secret it never verifies
  outside of these times.  HMAC pads a secret of at most 64 bytes with zeros, so two such secrets are
  told apart when they differ after the padding.
\<close>

definition hmac_block :: "string \<Rightarrow> string" where
  "hmac_block k = k @ replicate (64 - length k) (CHR 0x00)"

locale jwt_library =
  fixes api :: "'tok jwt_api"
  assumes decode_signed: "jwt_decode api (jwt_sign api k p) = Some p"
    and verify_signed: "jwt_verify api k i now (jwt_sign api k p) \<longleftrightarrow>
      p_iss p = i \<and> second * p_iat p \<le> now \<and> now \<le> second * p_exp p"
    and verify_times: "jwt_verify api k' i now (jwt_sign api k p) \<Longrightarrow>
      p_iss p = i \<and> second * p_iat p \<le> now \<and> now \<le> second * p_exp p"
    and signature_checked: "length k \<le> 64 \<Longrightarrow> length k' \<le> 64 \<Longrightarrow> hmac_block k' \<noteq> hmac_block k \<Longrightarrow>
      \<not> jwt_verify api k' i now (jwt_sign api k p)"
begin

lemma validate_created:
  "validate_token api mgr now' (create_token api mgr now u n r) =
     (if second * (now div second) \<le> now' \<and> now' \<le> second * ((now + second * uint (expiry_seconds mgr)) div second)
      then Some \<lparr>tc_user_id = u, tc_username = n, tc_role = r,
                 tc_expires_at = now div second + uint (expiry_seconds mgr), tc_issued_at = now div second\<rparr>
      else None)"
  by (simp add: validate_token_def create_token_def decode_signed verify_signed)

lemma validate_times:
  assumes "validate_token api mgr' now' (create_token api mgr now u n r) = Some claims"
  shows "second * (now div second) \<le> now' \<and> now' \<le> second * ((now + second * uint (expiry_seconds mgr)) div second) \<and>
    claims = \<lparr>tc_user_id = u, tc_username = n, tc_role = r,
      tc_expires_at = now div second + uint (expiry_seconds mgr), tc_issued_at = now div second\<rparr>"
  using assms by (auto simp: validate_token_def create_token_def decode_signed dest: verify_times split: if_splits)

lemma validate_other_secret:
  assumes "length (secret mgr) \<le> 64" "length (secret mgr') \<le> 64" "hmac_block (secret mgr') \<noteq> hmac_block (secret mgr)"
  shows "validate_token api mgr' now' (create_token api mgr now u n r) = None"
  using assms by (simp add: validate_token_def create_token_def decode_signed signature_checked)

end

text \<open>A reference library: a token is the secret and the payload.\<close>

definition ref_jwt :: "(string \<times> jwt_payload) jwt_api" where
  "ref_jwt = \<lparr>jwt_sign = Pair, jwt_decode = (\<lambda>(k, p). Some p),
     jwt_verify = (\<lambda>k' i now (k, p). hmac_block k' = hmac_block k \<and> p_iss p = i \<and>
       second * p_iat p \<le> now \<and> now \<le> second * p_exp p)\<rparr>"

interpretation ref_jwt: jwt_library ref_jwt
  by unfold_locales (auto simp: ref_jwt_def)

section \<open>Properties\<close>

text \<open>
  C36: Tokens round-trip until they expire.  From the moment of its creation and for as long as the
  expiry says, less the fraction of the second in which it was created, a token validates under
  the manager's secret to the identity it was created for, with the times it was given.  No manager,
  whatever its secret, takes it before the second of its creation or after its expiry, and none ever
  reads another identity from it.
\<close>

theorem token_roundtrip:
  assumes "jwt_library api"
  shows "(now \<le> now' \<longrightarrow> now' \<le> now + second * uint (expiry_seconds mgr) - now mod second \<longrightarrow>
      validate_token api mgr now' (create_token api mgr now u n r)
        = Some \<lparr>tc_user_id = u, tc_username = n, tc_role = r,
                tc_expires_at = now div second + uint (expiry_seconds mgr), tc_issued_at = now div second\<rparr>) \<and>
    (now' < now - now mod second \<or> now + second * uint (expiry_seconds mgr) - now mod second < now' \<longrightarrow>
      validate_token api mgr' now' (create_token api mgr now u n r) = None) \<and>
    (validate_token api mgr' now' (create_token api mgr now u n r) = Some claims \<longrightarrow>
      tc_user_id claims = u \<and> tc_username claims = n \<and> tc_role claims = r)"
proof (rule conj_goals(2); (intro impI)?)
  have secs: "second * ((now + second * x) div second) = now + second * x - now mod second" for x
    using mult_div_mod_eq [of second now] by (simp add: algebra_simps)
  have start: "second * (now div second) = now - now mod second"
    using mult_div_mod_eq [of second now] by linarith
  have mod: "0 \<le> now mod second" by simp
  note eq = jwt_library.validate_created [OF assms, where now = now, unfolded secs start]
  show "validate_token api mgr now' (create_token api mgr now u n r)
        = Some \<lparr>tc_user_id = u, tc_username = n, tc_role = r,
                tc_expires_at = now div second + uint (expiry_seconds mgr), tc_issued_at = now div second\<rparr>"
    if "now \<le> now'" "now' \<le> now + second * uint (expiry_seconds mgr) - now mod second"
  proof -
    have "now - now mod second \<le> now'" using mod that(1) by linarith
    with that(2) show ?thesis by (simp only: eq simp_thms if_True)
  qed
  note times = jwt_library.validate_times [OF assms, where now = now, unfolded secs start]
  show "validate_token api mgr' now' (create_token api mgr now u n r) = None"
    if "now' < now - now mod second \<or> now + second * uint (expiry_seconds mgr) - now mod second < now'"
    using that times by (cases "validate_token api mgr' now' (create_token api mgr now u n r)") force+
  show "tc_user_id claims = u \<and> tc_username claims = n \<and> tc_role claims = r"
    if "validate_token api mgr' now' (create_token api mgr now u n r) = Some claims"
    using times [OF that] by simp
qed

theorem token_roundtrip_witness:
  "map_option tc_username (validate_token ref_jwt \<lparr>secret = ''s'', expiry_seconds = 3600\<rparr> 3600000000000
     (create_token ref_jwt \<lparr>secret = ''s'', expiry_seconds = 3600\<rparr> 1500000000 ''u123'' ''alice'' ''user'')) = Some ''alice''"
  using token_roundtrip [THEN conjunct1, THEN mp, THEN mp, OF ref_jwt.jwt_library_axioms, of 1500000000 3600000000000
      "\<lparr>secret = ''s'', expiry_seconds = 3600\<rparr>" "''u123''" "''alice''" "''user''"]
  by simp

end
