(* ===== verification/Auth_Interceptor.thy ===== *)
theory Auth_Interceptor
  imports Jwt Rbac
begin

text \<open>
  \<open>AuthInterceptor\<close> (\<open>lib/auth/src/auth_interceptor.cpp\<close>): what the server does before a handler
  runs.  The observable actions are \<open>Proceed()\<close> on the batch and the log lines.
\<close>

datatype auth_event = Proceed | Missing_header string | Invalid_token string | Validated string string

definition public_methods :: "string set" where
  "public_methods =
     {''/certosc.MasterService/Login'', ''/certosc.MasterService/SubmitPublicRequest'',
      ''/certosc.MasterService/UpdateJobRequest'', ''/certosc.AgentService/RegisterNode'',
      ''/certosc.AgentService/SendHeartbeat''}"

definition strip_bearer :: "string \<Rightarrow> string" where
  "strip_bearer auth_value =
     (if take 7 auth_value = ''Bearer '' then drop 7 auth_value else auth_value)"

definition intercept ::
  "(string \<Rightarrow> token_claims option) \<Rightarrow> string set \<Rightarrow> bool \<Rightarrow> string \<Rightarrow> (string \<times> string) list
     \<Rightarrow> auth_event list" where
  "intercept validate public post_recv_initial_metadata method_name metadata =
     (if post_recv_initial_metadata then
        (if method_name \<in> public then [Proceed]
         else (case map_of metadata ''authorization'' of
                 None \<Rightarrow> [Missing_header method_name, Proceed]
               | Some auth_value \<Rightarrow>
                   (case validate (strip_bearer auth_value) of
                      None \<Rightarrow> [Invalid_token method_name]
                    | Some c \<Rightarrow> [Validated (tc_username c) (tc_role c)]) @ [Proceed]))
      else [Proceed])"

section \<open>The interceptor of one call\<close>

text \<open>The method is what \<open>info->method()\<close> answers.  The role manager is kept but never asked.\<close>

record auth_interceptor =
  ai_method :: string
  ai_jwt_manager :: jwt_manager
  ai_rbac_manager :: rbac_manager
  ai_public_methods :: "string set"

record auth_interceptor_factory =
  af_jwt_manager :: jwt_manager
  af_rbac_manager :: rbac_manager
  af_public_methods :: "string set"

definition new_interceptor_factory :: "jwt_manager \<Rightarrow> rbac_manager \<Rightarrow> auth_interceptor_factory" where
  "new_interceptor_factory jwt rbac =
     \<lparr>af_jwt_manager = jwt, af_rbac_manager = rbac, af_public_methods = public_methods\<rparr>"

definition new_auth_interceptor ::
  "string \<Rightarrow> jwt_manager \<Rightarrow> rbac_manager \<Rightarrow> string set \<Rightarrow> auth_interceptor" where
  "new_auth_interceptor method jwt rbac public =
     \<lparr>ai_method = method, ai_jwt_manager = jwt, ai_rbac_manager = rbac, ai_public_methods = public\<rparr>"

definition create_server_interceptor :: "auth_interceptor_factory \<Rightarrow> string \<Rightarrow> auth_interceptor" where
  "create_server_interceptor f method =
     new_auth_interceptor method (af_jwt_manager f) (af_rbac_manager f) (af_public_methods f)"

text \<open>\<open>Intercept\<close> on the members; tokens travel as strings.\<close>

definition interceptor_run ::
  "string jwt_api \<Rightarrow> int \<Rightarrow> auth_interceptor \<Rightarrow> bool \<Rightarrow> (string \<times> string) list \<Rightarrow> auth_event list" where
  "interceptor_run api now ai hook metadata =
     intercept (validate_token api (ai_jwt_manager ai) now) (ai_public_methods ai) hook (ai_method ai) metadata"

section \<open>Properties\<close>

text \<open>
  The interceptor never refuses a call: whatever the method, the headers and the verdict on the
  token, the call proceeds, exactly once and as the last action.  It looks at a token only of
  methods that are not public, and the verdict shows in the log alone.
\<close>

theorem interceptor_always_proceeds:
  "last (intercept validate public hook meth metadata) = Proceed \<and>
    count_list (intercept validate public hook meth metadata) Proceed = 1 \<and>
    (filter (\<lambda>e. e = Proceed) (intercept validate public hook meth metadata)
     = filter (\<lambda>e. e = Proceed) (intercept (\<lambda>_. None) public hook meth [])) \<and>
    (intercept validate public hook meth [(''authorization'', ''Bearer '' @ t)]
     = (if hook \<and> meth \<notin> public
        then (case validate t of None \<Rightarrow> [Invalid_token meth] | Some c \<Rightarrow> [Validated (tc_username c) (tc_role c)])
          @ [Proceed]
        else [Proceed]))"
  by (simp_all add: intercept_def strip_bearer_def split: option.split)

end
