(* ===== verification/Logging.thy ===== *)
theory Logging
  imports Certos_Prelude
begin

text \<open>
  \<open>init_logging\<close> (\<open>lib/common/src/logging.cpp\<close>): which sinks the logger gets and at which level.
  Whether the directory and the file can be created is an argument; a failure there is caught.
\<close>

datatype log_level = Trace | Debug | Info | Warn | Err | Critical

datatype log_sink = Console | Rotating_file string nat nat

record logger =
  lg_name :: string
  lg_sinks :: "log_sink list"
  lg_level :: log_level

definition parse_level :: "string \<Rightarrow> log_level" where
  "parse_level level =
     (if level = ''trace'' then Trace
      else if level = ''debug'' then Debug
      else if level = ''info'' then Info
      else if level = ''warn'' then Warn
      else if level = ''error'' then Err
      else if level = ''critical'' then Critical
      else Info)"

definition init_logging :: "(string \<Rightarrow> bool) \<Rightarrow> string \<Rightarrow> string \<Rightarrow> string \<Rightarrow> logger" where
  "init_logging can_open component_name log_dir level =
     (let file_path = log_dir @ ''/'' @ component_name @ ''.log'';
          file_sinks = (if log_dir \<noteq> '''' \<and> can_open file_path
                        then [Rotating_file file_path (10 * 1024 * 1024) 3] else [])
      in \<lparr>lg_name = component_name, lg_sinks = Console # file_sinks, lg_level = parse_level level\<rparr>)"

text \<open>The logger in use; the first access without one makes the default.\<close>

definition get_logger :: "(string \<Rightarrow> bool) \<Rightarrow> logger option \<Rightarrow> logger" where
  "get_logger can_open current =
     (case current of None \<Rightarrow> init_logging can_open ''certosc'' '''' ''info'' | Some l \<Rightarrow> l)"

primrec level_name :: "log_level \<Rightarrow> string" where
  "level_name Trace = ''trace''"
| "level_name Debug = ''debug''"
| "level_name Info = ''info''"
| "level_name Warn = ''warn''"
| "level_name Err = ''error''"
| "level_name Critical = ''critical''"

section \<open>Properties\<close>

text \<open>
  Logging always comes up: the console sink is there whatever happens to the log directory,
  the file sink exactly when a directory was given and the file could be opened, every level name
  selects its level, and any other text selects \<open>info\<close>.
\<close>

theorem init_logging_total:
  "Console \<in> set (lg_sinks (init_logging can_open name dir level))"
  "(\<exists>f m k. Rotating_file f m k \<in> set (lg_sinks (init_logging can_open name dir level)))
     \<longleftrightarrow> dir \<noteq> '''' \<and> can_open (dir @ ''/'' @ name @ ''.log'')"
  "lg_level (init_logging can_open name dir (level_name l)) = l"
  "lg_level (init_logging can_open name dir level) \<noteq> Info \<longrightarrow> level \<in> range level_name"
proof -
  show "Console \<in> set (lg_sinks (init_logging can_open name dir level))"
    by (simp add: init_logging_def Let_def)
  show "(\<exists>f m k. Rotating_file f m k \<in> set (lg_sinks (init_logging can_open name dir level)))
     \<longleftrightarrow> dir \<noteq> '''' \<and> can_open (dir @ ''/'' @ name @ ''.log'')"
    by (simp add: init_logging_def Let_def)
  show "lg_level (init_logging can_open name dir (level_name l)) = l"
    by (cases l) (simp_all add: init_logging_def Let_def parse_level_def)
  have names: "''trace'' = level_name Trace" "''debug'' = level_name Debug" "''warn'' = level_name Warn"
    "''error'' = level_name Err" "''critical'' = level_name Critical" by simp_all
  show "lg_level (init_logging can_open name dir level) \<noteq> Info \<longrightarrow> level \<in> range level_name"
    unfolding init_logging_def Let_def parse_level_def logger.select_convs
    by (simp only: names split: if_split) (blast intro: rangeI)
qed

theorem init_logging_total_witness:
  "''debug'' \<in> range level_name"
  using init_logging_total(4) [of "\<lambda>_. True" "''master''" "''logs''" "''debug''"]
  by (simp add: init_logging_def Let_def parse_level_def)

end
