(* ===== verification/Server_Calls.thy ===== *)
theory Server_Calls
  imports Auth_Interceptor Master_Server
begin

text \<open>
  A call of the master's gRPC server (\<open>master/src/master_server.cpp\<close>): the interceptor made by the
  factory that \<open>start()\<close> registers, with the managers the constructor made, and then the handler.  gRPC
  runs the handler when the interceptor has called \<open>Proceed()\<close>, and never otherwise.
\<close>

definition server_jwt_manager :: "master_config \<Rightarrow> jwt_manager" where
  "server_jwt_manager config = \<lparr>secret = mc_jwt_secret config, expiry_seconds = mc_jwt_expiry_sec config\<rparr>"

definition server_interceptor :: "master_config \<Rightarrow> string \<Rightarrow> auth_interceptor" where
  "server_interceptor config method =
     create_server_interceptor (new_interceptor_factory (server_jwt_manager config) init_default_roles) method"

definition server_call ::
  "string jwt_api \<Rightarrow> int \<Rightarrow> master_config \<Rightarrow> string \<Rightarrow> metadata \<Rightarrow> 'r \<Rightarrow> auth_event list \<times> 'r option" where
  "server_call jwt clock config method metadata result =
     (let events = interceptor_run jwt clock (server_interceptor config method) True metadata
      in (events, if Proceed \<in> set events then Some result else None))"

lemma server_call_runs: "snd (server_call jwt clock config method md result) = Some result"
  by (auto simp: server_call_def Let_def interceptor_run_def intercept_def split: option.split)

text \<open>
  C21: Whoever a token names is believed.  A call of \<open>SubmitJob\<close> with the token \<open>mock-jwt-for-<u>\<close>,
  which is what \<open>Login\<close> hands out but anybody can write down, is found invalid by the interceptor, which
  expects a signed JWT (with dots), and yet the handler runs, and the job it queues belongs to \<open>u\<close>,
  whether or not there is such a user and whether or not anyone has logged in.
\<close>

theorem invalid_token_believed:
  assumes decode: "\<And>t. CHR ''.'' \<notin> set t \<Longrightarrow> jwt_decode jwt t = None" and u: "CHR ''.'' \<notin> set u"
    and md: "map_of md ''authorization'' = Some (''Bearer mock-jwt-for-'' @ u)"
  shows "server_call jwt clock config ''/certosc.MasterService/SubmitJob'' md (submit_job_rpc api m uuid now md spec) =
      ([Invalid_token ''/certosc.MasterService/SubmitJob'', Proceed], Some (submit_job_rpc api m uuid now md spec)) \<and>
    (submit_job_rpc api m uuid now md spec = (st, job, m') \<longrightarrow> status_ok st \<and> ji_user_id job = u \<and>
      get_job (job_mgr m') (job_id_of_uuid uuid) = Some job) \<and>
    (login api m0 c = (st0, tok) \<longrightarrow> status_ok st0 \<longrightarrow> cr_username c = u \<longrightarrow>
      ''Bearer '' @ at_access_token tok = ''Bearer mock-jwt-for-'' @ u)"
proof (rule conj_goals(2); (intro impI)?)
  have "CHR ''.'' \<notin> set (''mock-jwt-for-'' @ u)" using u by simp
  from decode [OF this] have "validate_token jwt mgr clock (strip_bearer (''Bearer mock-jwt-for-'' @ u)) = None" for mgr
    by (simp add: validate_token_def strip_bearer_def)
  then show "server_call jwt clock config ''/certosc.MasterService/SubmitJob'' md (submit_job_rpc api m uuid now md spec) =
      ([Invalid_token ''/certosc.MasterService/SubmitJob'', Proceed], Some (submit_job_rpc api m uuid now md spec))"
    by (simp add: server_call_def interceptor_run_def intercept_def server_interceptor_def create_server_interceptor_def
        new_interceptor_factory_def new_auth_interceptor_def public_methods_def md del: append_Cons)
  show "status_ok st \<and> ji_user_id job = u \<and> get_job (job_mgr m') (job_id_of_uuid uuid) = Some job"
    if "submit_job_rpc api m uuid now md spec = (st, job, m')"
    using that
    by (auto simp: submit_job_rpc_def caller_of_bearer [OF md] case_prod_unfold Let_def job_simps new_job_info_def)
  show "''Bearer '' @ at_access_token tok = ''Bearer mock-jwt-for-'' @ u"
    if "login api m0 c = (st0, tok)" "status_ok st0" "cr_username c = u"
    using login_token(1) [of api m0 c] that by simp
qed

definition dotted_jwt :: "string jwt_api" where
  "dotted_jwt = \<lparr>jwt_sign = (\<lambda>k p. k @ ''.'' @ p_iss p @ ''.''),
     jwt_decode = (\<lambda>t. if CHR ''.'' \<in> set t then Some \<lparr>p_iss = ''certosc'', p_typ = ''JWT'', p_iat = 0, p_exp = 0, p_claims = []\<rparr> else None),
     jwt_verify = (\<lambda>k i now t. False)\<rparr>"

theorem invalid_token_believed_witness:
  "server_call dotted_jwt 7 default_master_config ''/certosc.MasterService/SubmitJob''
     [(''authorization'', ''Bearer mock-jwt-for-nobody'')]
     (submit_job_rpc ref_api ref_master ''0123456789'' 7 [(''authorization'', ''Bearer mock-jwt-for-nobody'')] default_job_spec) =
   ([Invalid_token ''/certosc.MasterService/SubmitJob'', Proceed],
    Some (submit_job_rpc ref_api ref_master ''0123456789'' 7 [(''authorization'', ''Bearer mock-jwt-for-nobody'')] default_job_spec))"
  by (rule invalid_token_believed [THEN conjunct1, of _ "''nobody''"]) (simp_all add: dotted_jwt_def)

end
