(* ===== verification/Json_Data.thy ===== *)
theory Json_Data
  imports Certos_Prelude
begin

text \<open>
  The JSON values the gateway reads and builds.  The kinds are those of \<open>boost::json::kind\<close>; an
  object is the list of its members in insertion order.  The accessors are the checked ones of the
  library, whose exceptions are values of \<open>exn\<close>; the text of an exception (\<open>what()\<close>), the parser
  and the serialiser are parameters where they are used.
\<close>

datatype json =
    JNull
  | JBool bool
  | JInt int
  | JUint nat
  | JDouble real
  | JString string
  | JArray "json list"
  | JObject "(string \<times> json) list"

type_synonym json_object = "(string \<times> json) list"

datatype exn =
    Wrong_kind string \<comment> \<open>the kind an accessor asked for\<close>
  | No_member string
  | Syntax_error
  | Out_of_range
  | Filesystem_error
  | Runtime_error string

section \<open>Computations that may throw\<close>

fun exn_bind :: "exn + 'a \<Rightarrow> ('a \<Rightarrow> exn + 'b) \<Rightarrow> exn + 'b" where
  "exn_bind (Inl e) f = Inl e"
| "exn_bind (Inr x) f = f x"

lemma exn_bind_Inr_iff: "exn_bind m f = Inr y \<longleftrightarrow> (\<exists>x. m = Inr x \<and> f x = Inr y)"
  by (cases m) auto

lemma exn_bind_Inl_iff: "exn_bind m f = Inl e \<longleftrightarrow> m = Inl e \<or> (\<exists>x. m = Inr x \<and> f x = Inl e)"
  by (cases m) auto

section \<open>Accessors\<close>

definition contains :: "json_object \<Rightarrow> string \<Rightarrow> bool" where
  "contains obj key \<longleftrightarrow> map_of obj key \<noteq> None"

text \<open>\<open>obj.at(key)\<close>; and \<open>obj[key]\<close>, which inserts a null when the key is missing.\<close>

definition member_at :: "json_object \<Rightarrow> string \<Rightarrow> exn + json" where
  "member_at obj key = (case map_of obj key of None \<Rightarrow> Inl (No_member key) | Some v \<Rightarrow> Inr v)"

definition member :: "json_object \<Rightarrow> string \<Rightarrow> json" where
  "member obj key = (case map_of obj key of None \<Rightarrow> JNull | Some v \<Rightarrow> v)"

fun get_object :: "json \<Rightarrow> exn + json_object" where
  "get_object (JObject obj) = Inr obj"
| "get_object v = Inl (Wrong_kind ''object'')"

fun get_string :: "json \<Rightarrow> exn + string" where
  "get_string (JString s) = Inr s"
| "get_string v = Inl (Wrong_kind ''string'')"

fun get_int64 :: "json \<Rightarrow> exn + int" where
  "get_int64 (JInt n) = Inr n"
| "get_int64 v = Inl (Wrong_kind ''int64'')"

fun get_bool :: "json \<Rightarrow> exn + bool" where
  "get_bool (JBool b) = Inr b"
| "get_bool v = Inl (Wrong_kind ''bool'')"

text \<open>\<open>if (o.contains(k)) ... value_to<string>(o.at(k))\<close>, with the default of the field otherwise.\<close>

definition optional_string :: "json_object \<Rightarrow> string \<Rightarrow> exn + string" where
  "optional_string obj key =
     (if contains obj key then exn_bind (member_at obj key) get_string else Inr '''')"

lemma optional_string_cases:
  "optional_string obj key =
     (case map_of obj key of None \<Rightarrow> Inr '''' | Some (JString s) \<Rightarrow> Inr s | Some v \<Rightarrow> Inl (Wrong_kind ''string''))"
  by (auto simp: optional_string_def contains_def member_at_def split: option.split json.split)

section \<open>Well-formed replies\<close>

text \<open>
  The schema the web pages rely on: a boolean \<open>success\<close>, and a text under \<open>error\<close> or \<open>message\<close>
  when it is false.
\<close>

definition has_text :: "json_object \<Rightarrow> string \<Rightarrow> bool" where
  "has_text obj key \<longleftrightarrow> (\<exists>s. map_of obj key = Some (JString s))"

definition reply_typed :: "json_object \<Rightarrow> bool" where
  "reply_typed obj \<longleftrightarrow> distinct (map fst obj) \<and>
     (map_of obj ''success'' = Some (JBool True) \<or>
      map_of obj ''success'' = Some (JBool False) \<and> (has_text obj ''error'' \<or> has_text obj ''message''))"

definition succeeded :: "json_object \<Rightarrow> bool" where
  "succeeded obj \<longleftrightarrow> map_of obj ''success'' = Some (JBool True)"

end
