(* ===== verification/Grpc_Bridge.thy ===== *)
theory Grpc_Bridge
  imports Json_Data Master_Service
begin

text \<open>
  \<open>GrpcBridge\<close> (\<open>gateway/src/grpc_bridge.cpp\<close>): the gateway's calls of the master.  Each method
  builds a request from the JSON body, calls one RPC on the stub and renders the status and the
  response as a JSON object.  The stub is a record of functions on the state of the master, one per
  RPC the bridge uses; \<open>master_stub_of\<close> connects it to the handlers of \<open>Master_Service\<close>.  Only the
  building of a request can throw, and it does so before the call.
\<close>

section \<open>The stub\<close>

record cluster_info =
  ci_online_nodes :: u32
  ci_running_jobs :: u32
  ci_queued_jobs :: u32

record 's master_stub =
  stub_login :: "'s \<Rightarrow> metadata \<Rightarrow> credentials \<Rightarrow> grpc_status \<times> auth_token \<times> 's"
  stub_list_nodes :: "'s \<Rightarrow> metadata \<Rightarrow> grpc_status \<times> node_info list \<times> 's"
  stub_list_jobs :: "'s \<Rightarrow> metadata \<Rightarrow> job_status \<Rightarrow> grpc_status \<times> job_info list \<times> 's"
  stub_submit_job :: "'s \<Rightarrow> metadata \<Rightarrow> job_spec \<Rightarrow> grpc_status \<times> job_info \<times> 's"
  stub_cluster_status :: "'s \<Rightarrow> metadata \<Rightarrow> grpc_status \<times> cluster_info \<times> 's"
  stub_cancel_job :: "'s \<Rightarrow> metadata \<Rightarrow> string \<Rightarrow> grpc_status \<times> status_response \<times> 's"
  stub_public_request :: "'s \<Rightarrow> metadata \<Rightarrow> job_request \<Rightarrow> grpc_status \<times> status_response \<times> 's"
  stub_update_request :: "'s \<Rightarrow> metadata \<Rightarrow> job_request \<Rightarrow> grpc_status \<times> status_response \<times> 's"
  stub_list_requests :: "'s \<Rightarrow> metadata \<Rightarrow> grpc_status \<times> job_request list \<times> 's"
  stub_review :: "'s \<Rightarrow> metadata \<Rightarrow> review_request \<Rightarrow> grpc_status \<times> status_response \<times> 's"
  stub_create_user :: "'s \<Rightarrow> metadata \<Rightarrow> create_user_request \<Rightarrow> grpc_status \<times> user_info \<times> 's"
  stub_list_users :: "'s \<Rightarrow> metadata \<Rightarrow> grpc_status \<times> user_info list \<times> 's"
  stub_delete_user :: "'s \<Rightarrow> metadata \<Rightarrow> string \<Rightarrow> grpc_status \<times> status_response \<times> 's"

text \<open>
  \<open>setup_context\<close>: the metadata of a call.  The token is taken to consist of bytes that gRPC allows in
  the value of a metadata entry (printable ASCII); the code does not check, and the library does not
  send a call with others.  Such a token is outside what \<open>master_stub_of\<close> describes.
\<close>

definition setup_context :: "string \<Rightarrow> metadata" where
  "setup_context token =
     (if token \<noteq> '''' then [(''authorization'', ''Bearer '' @ token)] else [])"

type_synonym 's bridge_result = "(exn + json_object) \<times> 's"

section \<open>Rendering\<close>

definition failed :: "grpc_status \<Rightarrow> json_object" where
  "failed status = [(''success'', JBool False), (''error'', JString (error_message status))]"

text \<open>The text of the error when success is the conjunction of the status and the response's flag.\<close>

definition failure_text :: "grpc_status \<Rightarrow> status_response \<Rightarrow> json" where
  "failure_text status res =
     JString (if status_ok status then sr_message res else error_message status)"

definition role_json :: "user_role \<Rightarrow> json" where
  "role_json r = JString (if r = USER_ROLE_ADMIN then ''admin'' else ''user'')"

definition node_json :: "node_info \<Rightarrow> json" where
  "node_json n = JObject
     [(''id'', JString (ni_node_id n)), (''hostname'', JString (ni_hostname n)),
      (''ip'', JString (ni_ip_address n)),
      (''status'', JString (if ni_status n = NODE_STATUS_ONLINE then ''online'' else ''offline'')),
      (''resources'', JObject
         [(''cpu_cores'', JUint (unat (cpu_cores (ni_available_resources n)))),
          (''ram_mb'', JUint (unat (ram_mb (ni_available_resources n))))])]"

definition job_json :: "job_info \<Rightarrow> json" where
  "job_json j = JObject
     [(''job_id'', JString (ji_job_id j)), (''username'', JString (ji_username j)),
      (''status'', JInt (int (job_status_number (ji_status j)))),
      (''submitted_at'', JInt (ji_submitted_at j)),
      (''spec'', JObject
         [(''name'', JString (spec_name (ji_spec j))), (''command'', JString (spec_command (ji_spec j)))]),
      (''assigned_node_id'', JString (ji_assigned_node_id j))]"

definition request_json :: "job_request \<Rightarrow> json" where
  "request_json r = JObject
     [(''request_id'', JString (jr_request_id r)), (''applicant_name'', JString (jr_applicant_name r)),
      (''applicant_email'', JString (jr_applicant_email r)), (''project_goal'', JString (jr_project_goal r)),
      (''status'', JInt (job_request_status_number (jr_status r))),
      (''submitted_at'', JInt (jr_submitted_at r)),
      (''requested_spec'', JObject
         [(''resources'', JObject
            [(''cpu_cores'', JUint (unat (cpu_cores (spec_resources (jr_requested_spec r))))),
             (''ram_mb'', JUint (unat (ram_mb (spec_resources (jr_requested_spec r)))))])])]"

definition user_json :: "user_info \<Rightarrow> json" where
  "user_json u = JObject [(''username'', JString (ui_username u)), (''role'', role_json (ui_role u))]"

section \<open>The methods\<close>

definition login_request :: "json_object \<Rightarrow> exn + credentials" where
  "login_request req_body =
     exn_bind (optional_string req_body ''username'') (\<lambda>u.
     exn_bind (optional_string req_body ''password'') (\<lambda>p.
     Inr \<lparr>cr_username = u, cr_password = p\<rparr>))"

definition bridge_login :: "'s master_stub \<Rightarrow> 's \<Rightarrow> json_object \<Rightarrow> 's bridge_result" where
  "bridge_login stub s req_body =
     (case login_request req_body of
        Inl e \<Rightarrow> (Inl e, s)
      | Inr req \<Rightarrow>
          (let (status, res, s') = stub_login stub s [] req
           in (Inr (if status_ok status
                    then [(''success'', JBool True), (''access_token'', JString (at_access_token res)),
                          (''user'', JObject [(''username'', JString (ui_username (at_user res))),
                                              (''role'', role_json (ui_role (at_user res)))])]
                    else failed status), s')))"

definition bridge_list_nodes :: "'s master_stub \<Rightarrow> 's \<Rightarrow> string \<Rightarrow> 's bridge_result" where
  "bridge_list_nodes stub s token =
     (let (status, nodes, s') = stub_list_nodes stub s (setup_context token)
      in (Inr (if status_ok status
               then [(''success'', JBool True), (''nodes'', JArray (map node_json nodes))]
               else failed status), s'))"

text \<open>The request is the default instance: no filter, and no paging.\<close>

definition bridge_list_jobs :: "'s master_stub \<Rightarrow> 's \<Rightarrow> string \<Rightarrow> 's bridge_result" where
  "bridge_list_jobs stub s token =
     (let (status, jobs, s') = stub_list_jobs stub s (setup_context token) JOB_STATUS_UNSPECIFIED
      in (Inr (if status_ok status
               then [(''success'', JBool True), (''jobs'', JArray (map job_json jobs))]
               else failed status), s'))"

text \<open>The name and the command are taken from the body, the resources are fixed.\<close>

definition submit_request :: "json_object \<Rightarrow> exn + job_spec" where
  "submit_request req_body =
     exn_bind (optional_string req_body ''name'') (\<lambda>n.
     exn_bind (optional_string req_body ''command'') (\<lambda>c.
     Inr (default_job_spec\<lparr>spec_name := n, spec_command := c,
       spec_resources := default_resource_spec\<lparr>cpu_cores := 1, ram_mb := 1024\<rparr>\<rparr>)))"

definition bridge_submit_job :: "'s master_stub \<Rightarrow> 's \<Rightarrow> string \<Rightarrow> json_object \<Rightarrow> 's bridge_result" where
  "bridge_submit_job stub s token req_body =
     (case submit_request req_body of
        Inl e \<Rightarrow> (Inl e, s)
      | Inr spec \<Rightarrow>
          (let (status, job, s') = stub_submit_job stub s (setup_context token) spec
           in (Inr (if status_ok status
                    then [(''success'', JBool True), (''job_id'', JString (ji_job_id job))]
                    else failed status), s')))"

definition bridge_cluster_status :: "'s master_stub \<Rightarrow> 's \<Rightarrow> string \<Rightarrow> 's bridge_result" where
  "bridge_cluster_status stub s token =
     (let (status, res, s') = stub_cluster_status stub s (setup_context token)
      in (Inr (if status_ok status
               then [(''success'', JBool True), (''online_nodes'', JUint (unat (ci_online_nodes res))),
                     (''running_jobs'', JUint (unat (ci_running_jobs res))),
                     (''queued_jobs'', JUint (unat (ci_queued_jobs res)))]
               else failed status), s'))"

definition bridge_cancel_job :: "'s master_stub \<Rightarrow> 's \<Rightarrow> string \<Rightarrow> string \<Rightarrow> 's bridge_result" where
  "bridge_cancel_job stub s token job_id =
     (let (status, res, s') = stub_cancel_job stub s (setup_context token) job_id
      in (Inr (if status_ok status
               then [(''success'', JBool (sr_success res)), (''message'', JString (sr_message res))]
               else failed status), s'))"

text \<open>The answered id is the one of the request as it was sent, not the one the master chose.\<close>

definition bridge_public_request :: "'s master_stub \<Rightarrow> 's \<Rightarrow> job_request \<Rightarrow> 's bridge_result" where
  "bridge_public_request stub s request =
     (let (status, res, s') = stub_public_request stub s [] request;
          success = (status_ok status \<and> sr_success res)
      in (Inr ((''success'', JBool success) #
               (if success
                then [(''request_id'', JString (jr_request_id request)), (''message'', JString (sr_message res))]
                else [(''error'', failure_text status res)])), s'))"

definition bridge_list_requests :: "'s master_stub \<Rightarrow> 's \<Rightarrow> string \<Rightarrow> 's bridge_result" where
  "bridge_list_requests stub s token =
     (let (status, requests, s') = stub_list_requests stub s (setup_context token)
      in (Inr (if status_ok status
               then [(''success'', JBool True), (''requests'', JArray (map request_json requests))]
               else failed status), s'))"

definition bridge_review :: "'s master_stub \<Rightarrow> 's \<Rightarrow> string \<Rightarrow> string \<Rightarrow> bool \<Rightarrow> string \<Rightarrow> 's bridge_result" where
  "bridge_review stub s token req_id approve comment =
     (let (status, res, s') = stub_review stub s (setup_context token)
            \<lparr>rv_request_id = req_id, rv_approve = approve, rv_comment = comment\<rparr>;
          success = (status_ok status \<and> sr_success res)
      in (Inr ((''success'', JBool success) #
               (if \<not> success then [(''error'', failure_text status res)]
                else [(''message'', JString (sr_message res))])), s'))"

definition bridge_update_archive :: "'s master_stub \<Rightarrow> 's \<Rightarrow> string \<Rightarrow> string \<Rightarrow> 's bridge_result" where
  "bridge_update_archive stub s req_id archive_path =
     (let (status, res, s') = stub_update_request stub s []
            (default_job_request\<lparr>jr_request_id := req_id,
               jr_requested_spec := default_job_spec\<lparr>spec_archive_path := archive_path\<rparr>\<rparr>);
          success = (status_ok status \<and> sr_success res)
      in (Inr ((''success'', JBool success) #
               (if \<not> success then [(''error'', failure_text status res)] else [])), s'))"

definition user_request :: "json_object \<Rightarrow> exn + create_user_request" where
  "user_request req_body =
     exn_bind (exn_bind (member_at req_body ''username'') get_string) (\<lambda>u.
     exn_bind (exn_bind (member_at req_body ''password'') get_string) (\<lambda>p.
     exn_bind (exn_bind (member_at req_body ''role'') get_string) (\<lambda>r.
     Inr \<lparr>cu_username = u, cu_password = p,
          cu_role = (if r = ''admin'' then USER_ROLE_ADMIN else USER_ROLE_USER)\<rparr>)))"

definition bridge_create_user :: "'s master_stub \<Rightarrow> 's \<Rightarrow> string \<Rightarrow> json_object \<Rightarrow> 's bridge_result" where
  "bridge_create_user stub s token req_body =
     (case user_request req_body of
        Inl e \<Rightarrow> (Inl e, s)
      | Inr req \<Rightarrow>
          (let (status, res, s') = stub_create_user stub s (setup_context token) req
           in (Inr (if status_ok status
                    then [(''success'', JBool True), (''username'', JString (ui_username res))]
                    else failed status), s')))"

definition bridge_list_users :: "'s master_stub \<Rightarrow> 's \<Rightarrow> string \<Rightarrow> 's bridge_result" where
  "bridge_list_users stub s token =
     (let (status, users, s') = stub_list_users stub s (setup_context token)
      in (Inr (if status_ok status
               then [(''success'', JBool True), (''users'', JArray (map user_json users))]
               else failed status), s'))"

definition bridge_delete_user :: "'s master_stub \<Rightarrow> 's \<Rightarrow> string \<Rightarrow> string \<Rightarrow> 's bridge_result" where
  "bridge_delete_user stub s token username =
     (let (status, res, s') = stub_delete_user stub s (setup_context token) username;
          success = (status_ok status \<and> sr_success res)
      in (Inr ((''success'', JBool success) #
               (if \<not> success then [(''error'', failure_text status res)] else [])), s'))"

lemmas bridge_defs =
  bridge_login_def bridge_list_nodes_def bridge_list_jobs_def bridge_submit_job_def
  bridge_cluster_status_def bridge_cancel_job_def bridge_public_request_def bridge_list_requests_def
  bridge_review_def bridge_update_archive_def bridge_create_user_def bridge_list_users_def
  bridge_delete_user_def

section \<open>The stub of the running master\<close>

text \<open>
  A call reaches the handler and brings back its status and response.  The UUID, the clock and the
  random number of the handler are arguments.  \<open>GetClusterStatus\<close> has no handler in
  \<open>MasterServiceImpl\<close>: the generated service answers \<open>UNIMPLEMENTED\<close>.
\<close>

definition master_stub_of ::
  "'db sqlite_api \<Rightarrow> (job_request \<Rightarrow> string option) \<Rightarrow> (string \<Rightarrow> bool \<times> job_request)
     \<Rightarrow> string \<Rightarrow> unix_time \<Rightarrow> nat \<Rightarrow> 'db master master_stub" where
  "master_stub_of api to_json of_json uuid now rnd =
     \<lparr>stub_login = (\<lambda>m md req. let (st, res) = login api m req in (st, res, m)),
      stub_list_nodes = (\<lambda>m md. let (st, res) = list_nodes_rpc m in (st, res, m)),
      stub_list_jobs = (\<lambda>m md flt. let (st, res, n) = list_jobs_rpc m flt in (st, res, m)),
      stub_submit_job = (\<lambda>m md spec. submit_job_rpc api m uuid now md spec),
      stub_cluster_status = (\<lambda>m md. (Status_error UNIMPLEMENTED '''',
         \<lparr>ci_online_nodes = 0, ci_running_jobs = 0, ci_queued_jobs = 0\<rparr>, m)),
      stub_cancel_job = (\<lambda>m md job_id. cancel_job_rpc m now job_id),
      stub_public_request = (\<lambda>m md req. submit_public_request api to_json m now rnd req),
      stub_update_request = (\<lambda>m md req. update_job_request api to_json of_json m req),
      stub_list_requests = (\<lambda>m md. let (st, res) = admin_list_requests api of_json m in (st, res, m)),
      stub_review = (\<lambda>m md req. admin_review_request api to_json of_json m uuid now req),
      stub_create_user = (\<lambda>m md req. create_user api m now req),
      stub_list_users = (\<lambda>m md. let (st, res) = admin_list_users api m in (st, res, m)),
      stub_delete_user = (\<lambda>m md u. admin_delete_user m u)\<rparr>"

lemma master_stub_simps [simp]:
  "stub_login (master_stub_of api tj oj uuid now rnd) m md c = (fst (login api m c), snd (login api m c), m)"
  "stub_list_nodes (master_stub_of api tj oj uuid now rnd) m md = (Status_OK, get_all_nodes (node_reg m), m)"
  "stub_list_jobs (master_stub_of api tj oj uuid now rnd) m md flt = (Status_OK, list_jobs (job_mgr m) flt, m)"
  "stub_submit_job (master_stub_of api tj oj uuid now rnd) m md spec = submit_job_rpc api m uuid now md spec"
  "stub_cluster_status (master_stub_of api tj oj uuid now rnd) m md = (Status_error UNIMPLEMENTED '''',
     \<lparr>ci_online_nodes = 0, ci_running_jobs = 0, ci_queued_jobs = 0\<rparr>, m)"
  "stub_cancel_job (master_stub_of api tj oj uuid now rnd) m md i = cancel_job_rpc m now i"
  "stub_public_request (master_stub_of api tj oj uuid now rnd) m md q = submit_public_request api tj m now rnd q"
  "stub_update_request (master_stub_of api tj oj uuid now rnd) m md q = update_job_request api tj oj m q"
  "stub_list_requests (master_stub_of api tj oj uuid now rnd) m md =
     (Status_OK, snd (admin_list_requests api oj m), m)"
  "stub_review (master_stub_of api tj oj uuid now rnd) m md rv = admin_review_request api tj oj m uuid now rv"
  "stub_create_user (master_stub_of api tj oj uuid now rnd) m md r = create_user api m now r"
  "stub_list_users (master_stub_of api tj oj uuid now rnd) m md = (Status_OK, snd (admin_list_users api m), m)"
  "stub_delete_user (master_stub_of api tj oj uuid now rnd) m md u = admin_delete_user m u"
  by (simp_all add: master_stub_of_def case_prod_unfold list_nodes_rpc_def list_jobs_rpc_def
      admin_list_requests_def admin_list_users_def Let_def)

end
