(* ===== verification/Rest_Routes.thy ===== *)
theory Rest_Routes
  imports Grpc_Bridge Config
begin

text \<open>
  \<open>RestRoutes::handle\<close> (\<open>gateway/src/rest_routes.cpp\<close>): one HTTP request to one response.  The file
  system, the JSON parser and serialiser and the texts of exceptions are the record
  \<open>gateway_env\<close>; the calls go to the stub of \<open>Grpc_Bridge\<close>.  The code is modelled in its three
  steps, the static files, the choice of the route, and the call behind the route; an exception of
  the last two becomes an answer with status 500, one of the first escapes.
\<close>

section \<open>Requests, responses and the environment\<close>

datatype verb = GET | POST | DELETE | OPTIONS | Other_verb

record http_request =
  rq_method :: verb
  rq_target :: string
  rq_authorization :: "string option"
  rq_body :: string

record http_response =
  rs_status :: nat
  rs_headers :: "(string \<times> string) list"
  rs_body :: string

datatype file_effect = Make_directory string | Write_file string string

record gateway_env =
  env_parse :: "string \<Rightarrow> exn + json"
  env_serialize :: "json_object \<Rightarrow> string"
  env_what :: "exn \<Rightarrow> string"
  env_file :: "string \<Rightarrow> exn + string option" \<comment> \<open>content, if it exists and is no directory\<close>
  env_mkdir :: "string \<Rightarrow> bool"
  env_open :: "string \<Rightarrow> bool"

section \<open>Paths (\<open>std::filesystem::path\<close>)\<close>

text \<open>\<open>a / b\<close>: an absolute right-hand side replaces the left-hand side.\<close>

definition path_append :: "string \<Rightarrow> string \<Rightarrow> string" where
  "path_append a b =
     (if prefix ''/'' b then b
      else if a = '''' \<or> last a = CHR ''/'' then a @ b
      else a @ ''/'' @ b)"

definition path_filename :: "string \<Rightarrow> string" where
  "path_filename p = rev (takeWhile (\<lambda>c. c \<noteq> CHR ''/'') (rev p))"

definition path_extension :: "string \<Rightarrow> string" where
  "path_extension p =
     (let name = path_filename p;
          suffix = rev (takeWhile (\<lambda>c. c \<noteq> CHR ''.'') (rev name))
      in if name = ''.'' \<or> name = ''..'' \<or> length suffix + 1 \<ge> length name then ''''
         else CHR ''.'' # suffix)"

section \<open>Static files\<close>

definition content_type_of :: "string \<Rightarrow> string" where
  "content_type_of ext =
     (if ext = ''.html'' then ''text/html''
      else if ext = ''.css'' then ''text/css''
      else if ext = ''.js'' then ''application/javascript''
      else if ext = ''.png'' then ''image/png''
      else ''application/octet-stream'')"

definition serve_static :: "gateway_config \<Rightarrow> gateway_env \<Rightarrow> string \<Rightarrow> exn + http_response" where
  "serve_static config env path =
     (if path = ''/favicon.ico'' then Inr \<lparr>rs_status = 204, rs_headers = [], rs_body = ''''\<rparr>
      else let path = (if path = ''/'' \<or> path = ''/index.html'' then ''/login.html'' else path)
           in case substr_from path 1 of
                None \<Rightarrow> Inl Out_of_range
              | Some rel \<Rightarrow>
                  (let full_path = path_append (gc_web_root config) rel
                   in exn_bind (env_file env full_path) (\<lambda>file.
                      Inr (case file of
                             Some content \<Rightarrow>
                               \<lparr>rs_status = 200,
                                rs_headers = [(''Content-Type'', content_type_of (path_extension full_path))],
                                rs_body = content\<rparr>
                           | None \<Rightarrow> \<lparr>rs_status = 404, rs_headers = [], rs_body = ''404 Not Found''\<rparr>))))"

section \<open>Routes\<close>

datatype route =
    Login | Public_request | Upload string | Cluster_status | List_nodes | List_jobs | Submit_job
  | Cancel_job string | List_requests | Review string | List_users | Create_user | Delete_user string
  | No_route

definition norm_path_of :: "string \<Rightarrow> string" where
  "norm_path_of path = (if length path > 1 \<and> last path = CHR ''/'' then butlast path else path)"

text \<open>
  \<open>norm_path.substr(start, end - start)\<close> with \<open>end = norm_path.find(marker)\<close>; the difference is a
  \<open>size_t\<close> and wraps when the marker begins before \<open>start\<close>.
\<close>

definition id_between :: "string \<Rightarrow> nat \<Rightarrow> string \<Rightarrow> string option" where
  "id_between norm_path start marker =
     (case str_find marker norm_path of
        None \<Rightarrow> None
      | Some e \<Rightarrow> substr_len norm_path start (if start \<le> e then e - start else 2 ^ 64 - (start - e)))"

text \<open>The chain of conditions, in the order of the code; \<open>Inl\<close> is an exception of \<open>substr\<close>.\<close>

definition route_of :: "verb \<Rightarrow> string \<Rightarrow> exn + route" where
  "route_of meth norm_path =
     (let starts = (\<lambda>p. str_find p norm_path = Some 0);
          has = (\<lambda>p. str_find p norm_path \<noteq> None);
          cut = (\<lambda>r s. case s of None \<Rightarrow> Inl Out_of_range | Some x \<Rightarrow> Inr (r x))
      in if meth = POST \<and> norm_path = ''/api/v1/auth/login'' then Inr Login
         else if meth = POST \<and> norm_path = ''/api/v1/public/request'' then Inr Public_request
         else if meth = POST \<and> starts ''/api/v1/public/request/'' \<and> has ''/upload''
           then cut Upload (id_between norm_path 22 ''/upload'')
         else if meth = GET \<and> norm_path = ''/api/v1/cluster'' then Inr Cluster_status
         else if meth = GET \<and> norm_path = ''/api/v1/nodes'' then Inr List_nodes
         else if meth = GET \<and> norm_path = ''/api/v1/jobs'' then Inr List_jobs
         else if meth = POST \<and> norm_path = ''/api/v1/jobs'' then Inr Submit_job
         else if meth = DELETE \<and> starts ''/api/v1/jobs/'' then cut Cancel_job (substr_from norm_path 13)
         else if meth = GET \<and> norm_path = ''/api/v1/admin/requests'' then Inr List_requests
         else if meth = POST \<and> starts ''/api/v1/admin/requests/'' \<and> has ''/review''
           then cut Review (id_between norm_path 24 ''/review'')
         else if meth = GET \<and> norm_path = ''/api/v1/admin/users'' then Inr List_users
         else if meth = POST \<and> norm_path = ''/api/v1/admin/users'' then Inr Create_user
         else if meth = DELETE \<and> starts ''/api/v1/admin/users/'' then cut Delete_user (substr_from norm_path 20)
         else Inr No_route)"

section \<open>The calls behind the routes\<close>

text \<open>\<open>json::parse(req.body()).as_object()\<close>\<close>

definition body_object :: "gateway_env \<Rightarrow> string \<Rightarrow> exn + json_object" where
  "body_object env body = exn_bind (env_parse env body) get_object"

text \<open>\<open>static_cast<int32_t>\<close> of an \<open>int64_t\<close>, then stored in an unsigned field of the message.\<close>

definition int32_cast :: "64 word \<Rightarrow> i32" where
  "int32_cast n = ucast n"

definition public_request_of :: "json_object \<Rightarrow> exn + job_request" where
  "public_request_of body =
     exn_bind (get_string (member body ''name'')) (\<lambda>name.
     exn_bind (get_string (member body ''email'')) (\<lambda>email.
     exn_bind (get_string (member body ''goal'')) (\<lambda>goal.
     exn_bind (get_int64 (member body ''cpu'')) (\<lambda>cpu.
     exn_bind (get_int64 (member body ''ram'')) (\<lambda>ram.
     exn_bind (get_int64 (member body ''time'')) (\<lambda>time.
     exn_bind (if contains body ''container'' then get_string (member body ''container'') else Inr '''')
       (\<lambda>container.
     Inr (default_job_request
       \<lparr>jr_applicant_name := name, jr_applicant_email := email, jr_project_goal := goal,
        jr_requested_spec := default_job_spec
          \<lparr>spec_name := ''Public Request: '' @ name,
           spec_resources := default_resource_spec
             \<lparr>cpu_cores := int32_cast (word_of_int cpu),
              ram_mb := scast (int32_cast (word_of_int ram * 1024))\<rparr>,
           spec_time_limit_seconds := int32_cast (word_of_int time * 3600),
           spec_container_image := container\<rparr>\<rparr>))))))))"

text \<open>The upload writes the file before it tells the master.\<close>

definition upload_archive ::
  "gateway_env \<Rightarrow> 's master_stub \<Rightarrow> 's \<Rightarrow> string \<Rightarrow> string
     \<Rightarrow> (exn + json_object) \<times> 's \<times> file_effect list" where
  "upload_archive env stub s req_id body =
     (let upload_dir = ''./uploads'';
          file_path = upload_dir @ ''/'' @ req_id @ ''.tar.gz''
      in if \<not> env_mkdir env upload_dir then (Inl Filesystem_error, s, [])
         else if \<not> env_open env file_path
         then (Inl (Runtime_error ''Could not open file for writing''), s, [Make_directory upload_dir])
         else let (update_res, s') = bridge_update_archive stub s req_id file_path
              in (exn_bind update_res (\<lambda>res.
                    exn_bind (get_bool (member res ''success'')) (\<lambda>ok.
                      Inr [(''success'', member res ''success''),
                           if \<not> ok then (''error'', member res ''error'')
                           else (''message'', JString ''File uploaded and linked successfully'')])),
                  s', [Make_directory upload_dir, Write_file file_path body]))"

definition dispatch ::
  "gateway_env \<Rightarrow> 's master_stub \<Rightarrow> 's \<Rightarrow> string \<Rightarrow> string \<Rightarrow> route
     \<Rightarrow> (exn + json_object) \<times> 's \<times> file_effect list" where
  "dispatch env stub s token body r =
     (let call = (\<lambda>(res, s'). (res, s', []));
          with_body = (\<lambda>f. case body_object env body of Inl e \<Rightarrow> (Inl e, s, []) | Inr obj \<Rightarrow> f obj)
      in case r of
           Login \<Rightarrow> with_body (\<lambda>obj. call (bridge_login stub s obj))
         | Public_request \<Rightarrow> with_body (\<lambda>obj.
             (case public_request_of obj of
                Inl e \<Rightarrow> (Inl e, s, [])
              | Inr pb_req \<Rightarrow> call (bridge_public_request stub s pb_req)))
         | Upload req_id \<Rightarrow> upload_archive env stub s req_id body
         | Cluster_status \<Rightarrow> call (bridge_cluster_status stub s token)
         | List_nodes \<Rightarrow> call (bridge_list_nodes stub s token)
         | List_jobs \<Rightarrow> call (bridge_list_jobs stub s token)
         | Submit_job \<Rightarrow> with_body (\<lambda>obj. call (bridge_submit_job stub s token obj))
         | Cancel_job job_id \<Rightarrow> call (bridge_cancel_job stub s token job_id)
         | List_requests \<Rightarrow> call (bridge_list_requests stub s token)
         | Review req_id \<Rightarrow> with_body (\<lambda>obj.
             (case exn_bind (get_bool (member obj ''approve'')) (\<lambda>approve.
                   exn_bind (get_string (member obj ''comment'')) (\<lambda>comment. Inr (approve, comment))) of
                Inl e \<Rightarrow> (Inl e, s, [])
              | Inr (approve, comment) \<Rightarrow> call (bridge_review stub s token req_id approve comment)))
         | List_users \<Rightarrow> call (bridge_list_users stub s token)
         | Create_user \<Rightarrow> with_body (\<lambda>obj. call (bridge_create_user stub s token obj))
         | Delete_user uname \<Rightarrow> call (bridge_delete_user stub s token uname)
         | No_route \<Rightarrow> (Inr [], s, []))"

section \<open>The handler\<close>

definition cors_headers :: "string \<Rightarrow> (string \<times> string) list" where
  "cors_headers origin =
     [(''Access-Control-Allow-Origin'', origin),
      (''Access-Control-Allow-Methods'', ''GET, POST, PUT, DELETE, OPTIONS''),
      (''Access-Control-Allow-Headers'', ''Content-Type, Authorization'')]"

definition api_headers :: "gateway_config \<Rightarrow> (string \<times> string) list" where
  "api_headers config =
     cors_headers (gc_cors_origin config)
       @ [(''Server'', ''CertOS Gateway''), (''Content-Type'', ''application/json'')]"

definition bearer_token :: "http_request \<Rightarrow> string" where
  "bearer_token req =
     (case rq_authorization req of
        None \<Rightarrow> ''''
      | Some val \<Rightarrow> if str_find ''Bearer '' val = Some 0 then drop 7 val else '''')"

text \<open>What the \<open>catch\<close> clause makes of an exception.\<close>

definition internal_error :: "gateway_env \<Rightarrow> exn \<Rightarrow> nat \<times> json_object" where
  "internal_error env e =
     (500, [(''success'', JBool False), (''error'', JString (''Internal error: '' @ env_what env e))])"

text \<open>
  The answer object and the status of an API request, from the token to the end of the \<open>try\<close>.  It is
  not reached for \<open>OPTIONS\<close>, which \<open>handle\<close> answers before.
\<close>

definition api_answer ::
  "gateway_env \<Rightarrow> 's master_stub \<Rightarrow> 's \<Rightarrow> http_request \<Rightarrow> (nat \<times> json_object) \<times> 's \<times> file_effect list" where
  "api_answer env stub s req =
     (let norm_path = norm_path_of (rq_target req)
      in case route_of (rq_method req) norm_path of
           Inl e \<Rightarrow> (internal_error env e, s, [])
         | Inr No_route \<Rightarrow>
             ((404, [(''success'', JBool False), (''error'', JString (''Route not found: '' @ norm_path))]), s, [])
         | Inr r \<Rightarrow>
             (let (res, s', effects) = dispatch env stub s (bearer_token req) (rq_body req) r
              in (case res of Inl e \<Rightarrow> internal_error env e | Inr obj \<Rightarrow> (200, obj), s', effects)))"

definition handle ::
  "gateway_config \<Rightarrow> gateway_env \<Rightarrow> 's master_stub \<Rightarrow> 's \<Rightarrow> http_request
     \<Rightarrow> exn + http_response \<times> 's \<times> file_effect list" where
  "handle config env stub s req =
     (if str_find ''/api/'' (rq_target req) \<noteq> Some 0
      then exn_bind (serve_static config env (rq_target req)) (\<lambda>res. Inr (res, s, []))
      else if rq_method req = OPTIONS
      then Inr (\<lparr>rs_status = 200, rs_headers = api_headers config, rs_body = ''''\<rparr>, s, [])
      else let ((status, obj), s', effects) = api_answer env stub s req
           in Inr (\<lparr>rs_status = status, rs_headers = api_headers config,
                     rs_body = env_serialize env obj\<rparr>, s', effects))"

end
