(* ===== verification/Gateway.thy ===== *)
theory Gateway
  imports Rest_Routes
begin

text \<open>
  What the gateway promises to its clients: well-typed answers with a status out of three, safe
  reading requests, the ids a route cuts out of a path, the identity of a session, and what becomes
  of a public request that is filed, uploaded to and reviewed through REST.
\<close>

section \<open>Every answer of the API is well typed\<close>

text \<open>What holds of each call: a reply is typed, an exception left the master alone.\<close>

fun answer_ok :: "'s \<Rightarrow> exn + json_object \<Rightarrow> 's \<Rightarrow> bool" where
  "answer_ok s (Inl e) s' \<longleftrightarrow> s' = s"
| "answer_ok s (Inr obj) s' \<longleftrightarrow> reply_typed obj"

abbreviation bridge_ok :: "'s \<Rightarrow> 's bridge_result \<Rightarrow> bool" where
  "bridge_ok s r \<equiv> answer_ok s (fst r) (snd r)"

named_theorems bridge_typed \<open>each bridge method returns a typed reply\<close>

lemma failed_typed [simp]: "reply_typed (failed st)"
  by (simp add: failed_def reply_typed_def has_text_def)

lemma bridge_typed_methods [bridge_typed]:
  "bridge_ok s (bridge_login stub s obj)"
  "bridge_ok s (bridge_list_nodes stub s tok)"
  "bridge_ok s (bridge_list_jobs stub s tok)"
  "bridge_ok s (bridge_submit_job stub s tok obj)"
  "bridge_ok s (bridge_cluster_status stub s tok)"
  "bridge_ok s (bridge_cancel_job stub s tok i)"
  "bridge_ok s (bridge_public_request stub s q)"
  "bridge_ok s (bridge_list_requests stub s tok)"
  "bridge_ok s (bridge_review stub s tok i yes c)"
  "bridge_ok s (bridge_create_user stub s tok obj)"
  "bridge_ok s (bridge_list_users stub s tok)"
  "bridge_ok s (bridge_delete_user stub s tok i)"
  by (auto simp: bridge_defs reply_typed_def has_text_def failed_def failure_text_def
      Let_def case_prod_unfold split: sum.split)

text \<open>The upload needs the flag and the error of the archive update, which are always there.\<close>

lemma bridge_update_archive_reply:
  "\<exists>status res s' ok. bridge_update_archive stub s i p =
     (Inr (if ok then [(''success'', JBool True)]
           else [(''success'', JBool False), (''error'', failure_text status res)]), s')"
  by (simp add: bridge_update_archive_def Let_def case_prod_unfold) metis

lemma upload_archive_reply:
  "answer_ok s (fst (upload_archive env stub s i body)) (fst (snd (upload_archive env stub s i body)))"
proof -
  obtain status res s' ok where upd: "bridge_update_archive stub s i (''./uploads'' @ ''/'' @ i @ ''.tar.gz'') =
     (Inr (if ok then [(''success'', JBool True)]
           else [(''success'', JBool False), (''error'', failure_text status res)]), s')"
    using bridge_update_archive_reply [of stub s i "''./uploads'' @ ''/'' @ i @ ''.tar.gz''"] by (elim exE)
  show ?thesis
    unfolding upload_archive_def Let_def upd
    by (simp add: member_def reply_typed_def has_text_def failure_text_def)
qed

lemma dispatch_reply:
  assumes "r \<noteq> No_route"
  shows "answer_ok s (fst (dispatch env stub s tok body r)) (fst (snd (dispatch env stub s tok body r)))"
  using assms
  by (cases r) (simp_all add: dispatch_def Let_def case_prod_unfold bridge_typed upload_archive_reply split: sum.split)

lemma api_answer_route:
  assumes "route_of (rq_method req) (norm_path_of (rq_target req)) = Inr r" "r \<noteq> No_route"
    and "dispatch env stub s (bearer_token req) (rq_body req) r = (res, s', effects)"
  shows "api_answer env stub s req =
    (case res of Inl e \<Rightarrow> internal_error env e | Inr obj \<Rightarrow> (200, obj), s', effects)"
  using assms by (cases r) (simp_all add: api_answer_def)

text \<open>What \<open>api_answer\<close> gives for a request that is no \<open>OPTIONS\<close>.\<close>

lemma api_answer_typed:
  assumes "api_answer env stub s req = ((status, obj), s', effects)"
  shows "status \<in> {200, 404, 500} \<and> reply_typed obj \<and>
    (status \<noteq> 200 \<longrightarrow> \<not> succeeded obj \<and> has_text obj ''error'' \<and> s' = s)"
proof (cases "route_of (rq_method req) (norm_path_of (rq_target req))")
  case (Inl e)
  then show ?thesis
    using assms by (auto simp: api_answer_def internal_error_def Let_def reply_typed_def has_text_def succeeded_def)
next
  case (Inr r)
  show ?thesis
  proof (cases "r = No_route")
    case True
    with Inr show ?thesis
      using assms by (auto simp: api_answer_def internal_error_def Let_def reply_typed_def has_text_def succeeded_def)
  next
    case False
    obtain res t eff where d: "dispatch env stub s (bearer_token req) (rq_body req) r = (res, t, eff)"
      by (cases "dispatch env stub s (bearer_token req) (rq_body req) r") auto
    have "answer_ok s res t"
      using dispatch_reply [OF False, of s env stub "bearer_token req" "rq_body req"] by (simp add: d)
    then show ?thesis
      using assms api_answer_route [OF Inr False d]
      by (cases res) (auto simp: internal_error_def reply_typed_def has_text_def succeeded_def)
  qed
qed


text \<open>A gateway whose library parses with \<open>parse\<close>, over the files \<open>files\<close>.\<close>

definition demo_env :: "(string \<Rightarrow> exn + json) \<Rightarrow> (string \<Rightarrow> exn + string option) \<Rightarrow> gateway_env" where
  "demo_env parse files = \<lparr>env_parse = parse, env_serialize = (\<lambda>_. ''''), env_what = (\<lambda>_. ''error''),
     env_file = files, env_mkdir = (\<lambda>_. True), env_open = (\<lambda>_. True)\<rparr>"

abbreviation no_files :: "string \<Rightarrow> exn + string option" where
  "no_files \<equiv> \<lambda>_. Inr None"

abbreviation demo_stub :: "tables master master_stub" where
  "demo_stub \<equiv> master_stub_of ref_api demo_to_json demo_of_json ''0123456789'' 7 0"

definition login_call :: http_request where
  "login_call = \<lparr>rq_method = POST, rq_target = ''/api/v1/auth/login'', rq_authorization = None, rq_body = ''''\<rparr>"

lemma login_call_route: "route_of (rq_method login_call) (norm_path_of (rq_target login_call)) = Inr Login"
  by (simp add: login_call_def norm_path_of_def route_of_def)


section \<open>Reading requests\<close>

text \<open>What the gateway needs of a stub for its \<open>GET\<close> routes to be safe.\<close>

locale reading_stub =
  fixes stub :: "'s master_stub"
  assumes reads:
    "snd (snd (stub_list_nodes stub s md)) = s"
    "snd (snd (stub_list_jobs stub s md flt)) = s"
    "snd (snd (stub_cluster_status stub s md)) = s"
    "snd (snd (stub_list_requests stub s md)) = s"
    "snd (snd (stub_list_users stub s md)) = s"
begin

lemma dispatch_reads:
  assumes "r \<in> {Cluster_status, List_nodes, List_jobs, List_requests, List_users}"
  shows "snd (dispatch env stub s tok body r) = (s, [])"
  using assms by (auto simp: dispatch_def bridge_defs Let_def case_prod_unfold reads)

lemma handle_reads:
  assumes "\<And>r. route_of (rq_method req) (norm_path_of (rq_target req)) = Inr r \<Longrightarrow>
      r \<in> {Cluster_status, List_nodes, List_jobs, List_requests, List_users, No_route}"
    and "handle config env stub s req = Inr (res, s', effects)"
  shows "s' = s \<and> effects = []"
proof -
  have "snd (api_answer env stub s req) = (s, [])"
  proof (cases "route_of (rq_method req) (norm_path_of (rq_target req))")
    case (Inr r)
    obtain res s' effects where d: "dispatch env stub s (bearer_token req) (rq_body req) r = (res, s', effects)"
      by (cases "dispatch env stub s (bearer_token req) (rq_body req) r") auto
    show ?thesis
    proof (cases "r = No_route")
      case False
      then have "r \<in> {Cluster_status, List_nodes, List_jobs, List_requests, List_users}"
        using assms(1) [OF Inr] by auto
      from dispatch_reads [OF this, of env s "bearer_token req" "rq_body req"] show ?thesis
        by (simp add: api_answer_route [OF Inr False d] d)
    qed (simp add: api_answer_def Inr)
  qed (simp add: api_answer_def)
  then show ?thesis
    using assms(2)
    by (auto simp: handle_def exn_bind_Inr_iff case_prod_unfold prod_eq_iff Let_def split: if_splits)
qed

end

interpretation running: reading_stub "master_stub_of api tj oj uuid now rnd"
  by unfold_locales simp_all

lemma route_of_reading:
  assumes "route_of meth path = Inr r" "meth \<notin> {POST, DELETE}"
  shows "r \<in> {Cluster_status, List_nodes, List_jobs, List_requests, List_users, No_route}"
  using assms by (simp add: route_of_def split: if_splits)

text \<open>
  Requests other than \<open>POST\<close> and \<open>DELETE\<close> are safe: whatever their target, token and body, they
  leave the master as it was and write no file.
\<close>

theorem reading_requests_safe:
  assumes "rq_method req \<notin> {POST, DELETE}"
    and "handle config env (master_stub_of api to_json of_json uuid now rnd) m req = Inr (res, m', effects)"
  shows "m' = m \<and> effects = []"
  by (rule running.handle_reads [OF _ assms(2)]) (rule route_of_reading [OF _ assms(1)])

theorem reading_requests_safe_witness:
  "\<exists>res. handle default_gateway_config (demo_env (\<lambda>_. Inl Syntax_error) no_files) demo_stub ref_master
     \<lparr>rq_method = GET, rq_target = ''/api/v1/jobs'', rq_authorization = None, rq_body = ''''\<rparr>
   = Inr (res, ref_master, [])"
proof -
  let ?req = "\<lparr>rq_method = GET, rq_target = ''/api/v1/jobs'', rq_authorization = None, rq_body = ''''\<rparr>"
  obtain res m' effects where h: "handle default_gateway_config (demo_env (\<lambda>_. Inl Syntax_error) no_files)
      demo_stub ref_master ?req = Inr (res, m', effects)"
    by (simp add: handle_def case_prod_unfold Let_def) (metis prod.collapse)
  from reading_requests_safe [OF _ h] show ?thesis by (simp add: h)
qed

section \<open>Ids in paths\<close>

lemma find_slash_word:
  "CHR ''/'' \<notin> set i \<Longrightarrow> str_find (CHR ''/'' # w) (i @ CHR ''/'' # w) = Some (length i)"
  by (induction i) auto

lemma norm_path_keeps: "p \<noteq> '''' \<Longrightarrow> last p \<noteq> CHR ''/'' \<Longrightarrow> norm_path_of p = p"
  by (simp add: norm_path_of_def)

lemma prefix_no_slash:
  "CHR ''/'' \<notin> set i \<Longrightarrow> CHR ''/'' \<notin> set w \<Longrightarrow> prefix w (i @ CHR ''/'' # r) \<longleftrightarrow> prefix w i"
  by (induction i arbitrary: w) (case_tac w; auto)+

lemma find_upload:
  assumes "CHR ''/'' \<notin> set i" "\<not> prefix ''upload'' i"
  shows "str_find ''/upload'' (''/api/v1/public/request/'' @ i @ ''/upload'') = Some (23 + length i)"
  using find_slash_word [OF assms(1), of "''upload''"] prefix_no_slash [OF assms(1), of "''upload''" "''upload''"] assms(2)
  by simp

lemma find_review:
  assumes "CHR ''/'' \<notin> set i" "\<not> prefix ''review'' i"
  shows "str_find ''/review'' (''/api/v1/admin/requests/'' @ i @ ''/review'') = Some (23 + length i)"
  using find_slash_word [OF assms(1), of "''review''"] prefix_no_slash [OF assms(1), of "''review''" "''review''"] assms(2)
  by simp

lemma upload_route:
  assumes "CHR ''/'' \<notin> set i" "\<not> prefix ''upload'' i"
  shows "route_of POST (norm_path_of (''/api/v1/public/request/'' @ i @ ''/upload'')) = Inr (Upload (CHR ''/'' # i))"
proof -
  define p where "p = ''/api/v1/public/request/'' @ i @ ''/upload''"
  have "norm_path_of p = p" "str_find ''/api/v1/public/request/'' p = Some 0"
    "p \<noteq> ''/api/v1/auth/login''" "p \<noteq> ''/api/v1/public/request''"
    by (simp_all add: p_def norm_path_of_def str_find_prefix)
  moreover have find: "str_find ''/upload'' p = Some (23 + length i)"
    unfolding p_def by (rule find_upload [OF assms])
  moreover from find have "id_between p 22 ''/upload'' = Some (CHR ''/'' # i)"
    by (simp add: id_between_def substr_len_def) (simp add: p_def)
  ultimately have "route_of POST (norm_path_of p) = Inr (Upload (CHR ''/'' # i))"
    by (simp add: route_of_def)
  then show ?thesis by (simp only: p_def)
qed

lemma review_route:
  assumes "i \<noteq> ''''" "CHR ''/'' \<notin> set i" "\<not> prefix ''review'' i"
  shows "route_of POST (norm_path_of (''/api/v1/admin/requests/'' @ i @ ''/review'')) = Inr (Review (tl i))"
proof -
  define p where "p = ''/api/v1/admin/requests/'' @ i @ ''/review''"
  have "norm_path_of p = p" "str_find ''/api/v1/admin/requests/'' p = Some 0"
    "str_find ''/api/v1/public/request/'' p \<noteq> Some 0"
    "p \<noteq> ''/api/v1/auth/login''" "p \<noteq> ''/api/v1/public/request''" "p \<noteq> ''/api/v1/jobs''"
    by (simp_all add: p_def norm_path_of_def str_find_prefix)
  moreover have find: "str_find ''/review'' p = Some (23 + length i)"
    unfolding p_def by (rule find_review [OF assms(2,3)])
  moreover from find assms(1) have "id_between p 24 ''/review'' = Some (tl i)"
    by (cases i) (simp_all add: id_between_def substr_len_def, simp add: p_def)
  ultimately have "route_of POST (norm_path_of p) = Inr (Review (tl i))"
    by (simp add: route_of_def)
  then show ?thesis by (simp only: p_def)
qed

text \<open>Every upload is for an id that is empty or begins with the slash.\<close>

lemma upload_route_any:
  assumes "prefix ''/api/v1/public/request/'' p" "sublist ''/upload'' p"
  shows "\<exists>j. route_of POST p = Inr (Upload j) \<and> \<not> prefix ''r'' j"
proof -
  obtain q where p: "p = ''/api/v1/public/request/'' @ q" using assms(1) by (auto elim: prefixE)
  obtain e where e: "str_find ''/upload'' p = Some e" using assms(2) str_find_None by (metis option.exhaust)
  then obtain d where d: "e = 22 + d" by (auto simp: p split: if_splits)
  have cut: "id_between p 22 ''/upload'' = Some (take d (CHR ''/'' # q))"
    by (simp add: id_between_def e d substr_len_def) (simp add: p)
  have "str_find ''/api/v1/public/request/'' p = Some 0" "p \<noteq> ''/api/v1/auth/login''" "p \<noteq> ''/api/v1/public/request''"
    using assms(1) by (auto simp: str_find_prefix p)
  then have "route_of POST p = Inr (Upload (take d (CHR ''/'' # q)))"
    by (simp add: route_of_def e cut)
  moreover have "\<not> prefix ''r'' (take d (CHR ''/'' # q))" by (cases d) simp_all
  ultimately show ?thesis by blast
qed

text \<open>
  The ids in the paths.  The ids of jobs and the names of users are cut out exactly.  The prefix
  of the two request routes is 23 characters long, but the upload cuts from 22 and the review from
  24: the upload sees the id with a slash in front, the review sees it without its first character.
\<close>

theorem ids_in_paths:
  assumes "i \<noteq> ''''" "CHR ''/'' \<notin> set i"
  shows "route_of DELETE (norm_path_of (''/api/v1/jobs/'' @ i)) = Inr (Cancel_job i) \<and>
    route_of DELETE (norm_path_of (''/api/v1/admin/users/'' @ i)) = Inr (Delete_user i) \<and>
    (\<not> prefix ''upload'' i \<longrightarrow>
      route_of POST (norm_path_of (''/api/v1/public/request/'' @ i @ ''/upload'')) = Inr (Upload (CHR ''/'' # i))) \<and>
    (\<not> prefix ''review'' i \<longrightarrow>
      route_of POST (norm_path_of (''/api/v1/admin/requests/'' @ i @ ''/review'')) = Inr (Review (tl i)))"
proof (rule conj_goals(3); (intro impI)?)
  have "last i \<noteq> CHR ''/''" using assms last_in_set by metis
  then have norm: "norm_path_of (''/api/v1/jobs/'' @ i) = ''/api/v1/jobs/'' @ i"
    "norm_path_of (''/api/v1/admin/users/'' @ i) = ''/api/v1/admin/users/'' @ i"
    using assms(1) by (simp_all add: norm_path_of_def)
  show "route_of DELETE (norm_path_of (''/api/v1/jobs/'' @ i)) = Inr (Cancel_job i)"
    "route_of DELETE (norm_path_of (''/api/v1/admin/users/'' @ i)) = Inr (Delete_user i)"
    unfolding norm by (simp_all add: route_of_def substr_from_def str_find_prefix)
qed (rule upload_route [OF assms(2)] review_route [OF assms]; assumption)+

theorem ids_in_paths_witness:
  "route_of POST (norm_path_of ''/api/v1/admin/requests/req-17-3/review'') = Inr (Review ''eq-17-3'')"
  using ids_in_paths [THEN conjunct2, THEN conjunct2, THEN conjunct2, THEN mp, of "''req-17-3''"] by simp

section \<open>Static files\<close>

text \<open>
  Static files.  A target outside the API names a file: without its first character it is
  appended to the web root, and the file found there is the answer, for every method and without a
  token.  When the rest of the target is itself absolute it replaces the web root: \<open>GET //etc/passwd\<close>
  is answered with that file, so every file the gateway can read is public.
\<close>

theorem static_files:
  assumes "str_find ''/api/'' (rq_target req) \<noteq> Some 0"
    and "rq_target req \<notin> {'''', ''/'', ''/index.html'', ''/favicon.ico''}"
    and p: "p = path_append (gc_web_root config) (tl (rq_target req))"
    and "env_file env p = Inr (Some content)"
  shows "handle config env stub s req = Inr (\<lparr>rs_status = 200,
      rs_headers = [(''Content-Type'', content_type_of (path_extension p))], rs_body = content\<rparr>, s, []) \<and>
    (prefix ''/'' (tl (rq_target req)) \<longrightarrow> p = tl (rq_target req)) \<and>
    (\<not> prefix ''/'' (tl (rq_target req)) \<longrightarrow> prefix (gc_web_root config) p)"
proof (rule conj_goals(2); (intro impI)?)
  have "substr_from (rq_target req) 1 = Some (tl (rq_target req))"
    using assms(2) by (cases "rq_target req") (simp_all add: substr_from_def)
  then show "handle config env stub s req = Inr (\<lparr>rs_status = 200,
      rs_headers = [(''Content-Type'', content_type_of (path_extension p))], rs_body = content\<rparr>, s, [])"
    using assms by (simp add: handle_def serve_static_def)
qed (simp_all add: p path_append_def)

theorem static_files_witness:
  "handle default_gateway_config (demo_env (\<lambda>_. Inl Syntax_error)
      (\<lambda>p. Inr (if p = ''/etc/passwd'' then Some ''root:x:0:0'' else None))) demo_stub ref_master
     \<lparr>rq_method = GET, rq_target = ''//etc/passwd'', rq_authorization = None, rq_body = ''''\<rparr>
   = Inr (\<lparr>rs_status = 200, rs_headers = [(''Content-Type'', ''application/octet-stream'')],
           rs_body = ''root:x:0:0''\<rparr>, ref_master, [])"
  using static_files [THEN conjunct1, of "\<lparr>rq_method = GET, rq_target = ''//etc/passwd'', rq_authorization = None, rq_body = ''''\<rparr>"
      _ default_gateway_config "demo_env (\<lambda>_. Inl Syntax_error)
      (\<lambda>p. Inr (if p = ''/etc/passwd'' then Some ''root:x:0:0'' else None))" "''root:x:0:0''" demo_stub ref_master]
  by (simp add: demo_env_def path_append_def path_extension_def path_filename_def content_type_of_def Let_def)

section \<open>The numbers of a public request\<close>

lemma uint_int32_cast: "uint (int32_cast (word_of_int n)) = n mod 2 ^ 32"
  by (simp add: int32_cast_def unsigned_ucast_eq uint_word_of_int take_bit_eq_mod mod_mod_cancel)

lemma sint_int32_cast: "sint (int32_cast (word_of_int n)) = (n + 2 ^ 31) mod 2 ^ 32 - 2 ^ 31"
  unfolding sint_uint uint_int32_cast
  by (simp add: signed_take_bit_eq_take_bit_shift take_bit_eq_mod mod_add_left_eq)

lemma uint_sign_extended: "uint (scast (w :: 32 word) :: 64 word) = sint w mod 2 ^ 64"
  unfolding scast_eq [of w] uint_word_of_int by simp

lemma mod_negative: "- m \<le> n \<Longrightarrow> n < 0 \<Longrightarrow> n mod m = m + n" for n :: int
  using mod_pos_pos_trivial [of "n + m" m] by simp

lemma word_of_int_times: "word_of_int n * numeral k = (word_of_int (n * numeral k) :: 'a::len word)"
  by (metis wi_hom_mult word_of_int_numeral)

text \<open>
  The numbers of a public request are cut to 32 bits.  The number of cores and the time limit
  are exact while they fit an unsigned 32-bit integer; a negative number of cores becomes a huge
  one.  The memory, in GB in the body and in MB in the message, is exact below \<open>2\<^sup>3\<^sup>1\<close> MB only: from
  there the sign is extended into the 64-bit field and the request asks for nearly \<open>2\<^sup>6\<^sup>4\<close> MB.
\<close>

theorem public_request_numbers:
  assumes "public_request_of body = Inr q"
    and "map_of body ''cpu'' = Some (JInt cpu)" "map_of body ''ram'' = Some (JInt ram)"
    and "map_of body ''time'' = Some (JInt time)"
    and r: "r = spec_resources (jr_requested_spec q)"
  shows "(cpu \<in> {0..<2 ^ 32} \<longrightarrow> uint (cpu_cores r) = cpu) \<and>
    (cpu \<in> {- (2 ^ 31)..<0} \<longrightarrow> uint (cpu_cores r) = 2 ^ 32 + cpu) \<and>
    (ram * 1024 \<in> {0..<2 ^ 31} \<longrightarrow> uint (ram_mb r) = ram * 1024) \<and>
    (ram * 1024 \<in> {2 ^ 31..<2 ^ 32} \<longrightarrow> uint (ram_mb r) = 2 ^ 64 - 2 ^ 32 + ram * 1024) \<and>
    (time * 3600 \<in> {0..<2 ^ 32} \<longrightarrow> uint (spec_time_limit_seconds (jr_requested_spec q)) = time * 3600)"
proof -
  have fields: "cpu_cores r = int32_cast (word_of_int cpu)"
    "ram_mb r = scast (int32_cast (word_of_int ram * 1024))"
    "spec_time_limit_seconds (jr_requested_spec q) = int32_cast (word_of_int time * 3600)"
    using assms by (auto simp: public_request_of_def exn_bind_Inr_iff member_def)
  note sizes = fields word_of_int_times uint_int32_cast uint_sign_extended sint_int32_cast
  have high: "(n + 2 ^ 31) mod 2 ^ 32 - 2 ^ 31 = n - 2 ^ 32" if "n \<in> {2 ^ 31..<2 ^ 32}" for n :: int
    using mod_add_self2 [of "n - 2 ^ 31" "2 ^ 32"] that by (simp add: add.commute [of n])
  have low: "(n + 2 ^ 31) mod 2 ^ 32 - 2 ^ 31 = n" if "n \<in> {0..<2 ^ 31}" for n :: int
    using that by simp
  show ?thesis
  proof (rule conj_goals(4); intro impI)
    assume neg: "cpu \<in> {- (2 ^ 31)..<0}"
    show "uint (cpu_cores r) = 2 ^ 32 + cpu"
      unfolding sizes by (rule mod_negative) (use neg in simp_all)
  next
    assume "ram * 1024 \<in> {0..<2 ^ 31}"
    from low [OF this] this show "uint (ram_mb r) = ram * 1024"
      unfolding sizes by simp
  next
    assume big: "ram * 1024 \<in> {2 ^ 31..<2 ^ 32}"
    show "uint (ram_mb r) = 2 ^ 64 - 2 ^ 32 + ram * 1024"
      unfolding sizes high [OF big] by (subst mod_negative) (use big in simp_all)
  qed (unfold sizes, simp_all)
qed

theorem public_request_numbers_witness:
  "\<exists>q. public_request_of [(''name'', JString ''Ann''), (''email'', JString ''''), (''goal'', JString ''''),
     (''cpu'', JInt 4), (''ram'', JInt 2097152), (''time'', JInt 1)] = Inr q
   \<and> uint (ram_mb (spec_resources (jr_requested_spec q))) = 2 ^ 64 - 2 ^ 31"
proof -
  let ?body = "[(''name'', JString ''Ann''), (''email'', JString ''''), (''goal'', JString ''''),
     (''cpu'', JInt 4), (''ram'', JInt 2097152), (''time'', JInt 1)]"
  obtain q where q: "public_request_of ?body = Inr q"
    by (simp add: public_request_of_def member_def contains_def)
  show ?thesis
    using public_request_numbers [THEN conjunct2, THEN conjunct2, THEN conjunct2, THEN conjunct1, OF q _ _ _ refl,
        of 4 2097152 1] q by simp
qed

section \<open>Sessions\<close>

text \<open>
  What a session needs of the master: the token of a login makes the submissions under it those of
  the user who logged in.  The two stubs are those of the two calls, at their times.
\<close>

locale session_stub =
  fixes stub1 stub2 :: "'s master_stub" and owns :: "'s \<Rightarrow> string \<Rightarrow> string \<Rightarrow> job_spec \<Rightarrow> bool"
  assumes token: "stub_login stub1 s md c = (st, tok, s1) \<Longrightarrow> status_ok st \<Longrightarrow> at_access_token tok \<noteq> ''''"
    and submit: "stub_login stub1 s md c = (st, tok, s1) \<Longrightarrow> status_ok st \<Longrightarrow>
      stub_submit_job stub2 s2 [(''authorization'', ''Bearer '' @ at_access_token tok)] spec = (st', job, s3) \<Longrightarrow>
      status_ok st' \<and> owns s3 (cr_username c) (ji_job_id job) spec"
begin

lemma login_then_submit:
  assumes login: "bridge_login stub1 s b = (Inr obj, s1)" "succeeded obj"
      "map_of obj ''access_token'' = Some (JString t)" "login_request b = Inr c"
    and submit_body: "submit_request b2 = Inr spec"
  shows "\<exists>i s3. bridge_submit_job stub2 s2 t b2 =
      (Inr [(''success'', JBool True), (''job_id'', JString i)], s3) \<and> owns s3 (cr_username c) i spec"
proof -
  obtain st tok s1' where l: "stub_login stub1 s [] c = (st, tok, s1')"
    by (cases "stub_login stub1 s [] c") auto
  have ok: "status_ok st" "t = at_access_token tok"
    using login by (auto simp: bridge_login_def l succeeded_def failed_def split: if_splits)
  obtain st' job s3 where j: "stub_submit_job stub2 s2 [(''authorization'', ''Bearer '' @ at_access_token tok)] spec
      = (st', job, s3)"
    by (cases "stub_submit_job stub2 s2 [(''authorization'', ''Bearer '' @ at_access_token tok)] spec") auto
  from submit [OF l ok(1) j] token [OF l ok(1)] show ?thesis
    by (simp add: bridge_submit_job_def submit_body setup_context_def ok(2) j [simplified])
qed

end

text \<open>The master keeps a job of that user with that specification.\<close>

definition owns_job :: "'db master \<Rightarrow> string \<Rightarrow> string \<Rightarrow> job_spec \<Rightarrow> bool" where
  "owns_job m u i spec \<longleftrightarrow> (\<exists>job. get_job (job_mgr m) i = Some job \<and> ji_status job = JOB_STATUS_QUEUED
     \<and> ji_user_id job = u \<and> ji_username job = u \<and> ji_spec job = spec)"

interpretation sessions: session_stub "master_stub_of api tj oj uuid1 now1 rnd1"
    "master_stub_of api tj oj uuid2 now2 rnd2" owns_job
proof
  fix s :: "'a master" and md c st tok s1
  assume l: "stub_login (master_stub_of api tj oj uuid1 now1 rnd1) s md c = (st, tok, s1)" "status_ok st"
  then have ok: "status_ok (fst (login api s c))" "tok = snd (login api s c)" by auto
  from login_token(1) [OF ok(1)] show "at_access_token tok \<noteq> ''''" by (simp add: ok(2))
  fix s2 s3 :: "'a master" and spec st' job
  assume j: "stub_submit_job (master_stub_of api tj oj uuid2 now2 rnd2) s2
      [(''authorization'', ''Bearer '' @ at_access_token tok)] spec = (st', job, s3)"
  let ?md = "[(''authorization'', ''Bearer '' @ at_access_token tok)]"
  have "submit_job_rpc api s2 uuid2 now2 ?md spec = (st', job, s3)"
    using j by (simp only: master_stub_simps)
  from login_submit_identity [OF ok(1) _ this]
  have "status_ok st'" "job = new_job_info (''job-'' @ take 8 uuid2) now2 spec (cr_username c) (cr_username c)"
    "get_job (job_mgr s3) (''job-'' @ take 8 uuid2) = Some job"
    by (simp_all add: ok(2))
  then show "status_ok st' \<and> owns_job s3 (cr_username c) (ji_job_id job) spec"
    by (simp add: owns_job_def new_job_info_def)
qed

lemma api_answer_post:
  assumes "rq_method req = POST" "norm_path_of (rq_target req) = p"
    and "(p, r) \<in> {(''/api/v1/auth/login'', Login), (''/api/v1/jobs'', Submit_job)}"
    and "dispatch env stub s (bearer_token req) (rq_body req) r = (res, s', effects)"
  shows "api_answer env stub s req =
    (case res of Inl e \<Rightarrow> internal_error env e | Inr obj \<Rightarrow> (200, obj), s', effects)"
proof (rule api_answer_route [OF _ _ assms(4)])
  show "route_of (rq_method req) (norm_path_of (rq_target req)) = Inr r" "r \<noteq> No_route"
    using assms(1-3) by (auto simp: route_of_def)
qed

lemma bearer_token_of: "rq_authorization req = Some (''Bearer '' @ t) \<Longrightarrow> bearer_token req = t"
  by (simp add: bearer_token_def str_find_prefix)

text \<open>
  C16: A session over REST.  When \<open>POST /api/v1/auth/login\<close> answers with success and the token
  \<open>t\<close>, then a \<open>POST /api/v1/jobs\<close> with \<open>t\<close> as bearer token, at any later time and in any later state
  of the master, is answered with success and an id under which the master keeps a queued job of the
  user who logged in, with the name and the command of the body.
\<close>

theorem rest_session:
  assumes login: "rq_method req1 = POST" "norm_path_of (rq_target req1) = ''/api/v1/auth/login''"
      "body_object env (rq_body req1) = Inr b1" "login_request b1 = Inr c"
      "api_answer env (master_stub_of api to_json of_json uuid1 now1 rnd1) m1 req1 = ((200, obj), m1', effects)"
      "succeeded obj" "map_of obj ''access_token'' = Some (JString t)"
    and submit: "rq_method req2 = POST" "norm_path_of (rq_target req2) = ''/api/v1/jobs''"
      "rq_authorization req2 = Some (''Bearer '' @ t)"
      "body_object env (rq_body req2) = Inr b2" "submit_request b2 = Inr spec"
  shows "\<exists>i m3. api_answer env (master_stub_of api to_json of_json uuid2 now2 rnd2) m2 req2 =
      ((200, [(''success'', JBool True), (''job_id'', JString i)]), m3, []) \<and>
    owns_job m3 (cr_username c) i spec"
proof -
  let ?s1 = "master_stub_of api to_json of_json uuid1 now1 rnd1"
  let ?s2 = "master_stub_of api to_json of_json uuid2 now2 rnd2"
  obtain res m' where b: "bridge_login ?s1 m1 b1 = (res, m')" by fastforce
  have "dispatch env ?s1 m1 (bearer_token req1) (rq_body req1) Login = (res, m', [])"
    by (simp add: dispatch_def login(3) b)
  from api_answer_post [OF login(1,2) _ this] have "res = Inr obj"
    using login(5) by (cases res) (auto simp: internal_error_def)
  with b sessions.login_then_submit [OF _ login(6,7,4) submit(5)]
  obtain i m3 where s: "bridge_submit_job ?s2 m2 t b2 = (Inr [(''success'', JBool True), (''job_id'', JString i)], m3)"
    "owns_job m3 (cr_username c) i spec" by blast
  have "dispatch env ?s2 m2 (bearer_token req2) (rq_body req2) Submit_job
      = (Inr [(''success'', JBool True), (''job_id'', JString i)], m3, [])"
    unfolding bearer_token_of [OF submit(3)] by (simp add: dispatch_def submit(4) s(1) del: map_of.simps)
  from api_answer_post [OF submit(1,2) _ this] s(2) show ?thesis by auto
qed

text \<open>Two bodies: credentials, and everything else a job.\<close>

definition demo_parse :: "string \<Rightarrow> exn + json" where
  "demo_parse body = Inr (JObject
     (if body = ''1'' then [(''username'', JString ''admin''), (''password'', JString ''admin123'')]
      else [(''name'', JString ''a''), (''command'', JString ''ls'')]))"

theorem rest_session_witness:
  "\<exists>i m3. api_answer (demo_env demo_parse no_files) demo_stub ref_master
      \<lparr>rq_method = POST, rq_target = ''/api/v1/jobs'', rq_authorization = Some ''Bearer mock-jwt-for-admin'',
       rq_body = ''2''\<rparr> = ((200, [(''success'', JBool True), (''job_id'', JString i)]), m3, [])
    \<and> owns_job m3 ''admin'' i (default_job_spec\<lparr>spec_name := ''a'', spec_command := ''ls'',
        spec_resources := default_resource_spec\<lparr>cpu_cores := 1, ram_mb := 1024\<rparr>\<rparr>)"
proof -
  let ?env = "demo_env demo_parse no_files"
  let ?req1 = "\<lparr>rq_method = POST, rq_target = ''/api/v1/auth/login'', rq_authorization = None, rq_body = ''1''\<rparr>"
  let ?req2 = "\<lparr>rq_method = POST, rq_target = ''/api/v1/jobs'', rq_authorization = Some ''Bearer mock-jwt-for-admin'',
       rq_body = ''2''\<rparr>"
  let ?c = "\<lparr>cr_username = ''admin'', cr_password = ''admin123''\<rparr>"
  let ?b = "[(''username'', JString ''admin''), (''password'', JString ''admin123'')]"
  have st: "status_ok (fst (login ref_api ref_master ?c))"
    by (simp add: login_ok_iff ref_master_def)
  have parsed: "body_object ?env ''1'' = Inr ?b" "login_request ?b = Inr ?c"
    by (simp_all add: body_object_def demo_env_def demo_parse_def login_request_def optional_string_cases)
  obtain obj where l: "bridge_login demo_stub ref_master ?b = (Inr obj, ref_master)" "succeeded obj"
      "map_of obj ''access_token'' = Some (JString ''mock-jwt-for-admin'')"
    using st login_token(1) [OF st] by (simp add: bridge_login_def parsed(2) succeeded_def)
  have "dispatch ?env demo_stub ref_master (bearer_token ?req1) (rq_body ?req1) Login = (Inr obj, ref_master, [])"
    by (simp add: dispatch_def parsed(1) l(1))
  then have a: "api_answer ?env demo_stub ref_master ?req1 = ((200, obj), ref_master, [])"
    using api_answer_post [of ?req1 "''/api/v1/auth/login''" Login ?env demo_stub ref_master "Inr obj" ref_master "[]"]
    by (simp add: norm_path_of_def)
  show ?thesis
    using rest_session [OF _ _ _ parsed(2) a l(2,3), of ?req2 _ _ "''0123456789''" 7 0 ref_master]
    by (simp add: norm_path_of_def parsed(1) submit_request_def optional_string_cases)
       (simp add: body_object_def demo_env_def demo_parse_def submit_request_def optional_string_cases)
qed

end
