(* ===== verification/Gateway_Cluster.thy ===== *)
theory Gateway_Cluster
  imports Gateway Cluster
begin

text \<open>
  The gateway in front of the running master: every REST request is at most one step of the cluster,
  so the invariants of \<open>Cluster\<close> hold for the composed system, and what becomes of the public
  requests that enter through REST.
\<close>

section \<open>What a REST request does to the master\<close>

inductive gateway_call ::
  "'db sqlite_api \<Rightarrow> (job_request \<Rightarrow> string option) \<Rightarrow> (string \<Rightarrow> bool \<times> job_request) \<Rightarrow> gateway_env
     \<Rightarrow> string \<Rightarrow> unix_time \<Rightarrow> nat \<Rightarrow> string \<Rightarrow> 'db master \<Rightarrow> 'db master \<Rightarrow> bool"
  for api to_json of_json env uuid now rnd body where
  No_call: "gateway_call api to_json of_json env uuid now rnd body m m"
| Call_submit: "gateway_call api to_json of_json env uuid now rnd body m
    (snd (snd (submit_job_rpc api m uuid now md spec)))"
| Call_cancel: "gateway_call api to_json of_json env uuid now rnd body m (snd (snd (cancel_job_rpc m now i)))"
| Call_public: "jr_request_id q = '''' \<Longrightarrow> gateway_call api to_json of_json env uuid now rnd body m
    (snd (snd (submit_public_request api to_json m now rnd q)))"
| Call_update: "gateway_call api to_json of_json env uuid now rnd body m
    (snd (snd (update_job_request api to_json of_json m q)))"
| Call_review: "gateway_call api to_json of_json env uuid now rnd body m
    (snd (snd (admin_review_request api to_json of_json m uuid now rv)))"
| Call_create: "body_object env body = Inr obj \<Longrightarrow> user_request obj = Inr r \<Longrightarrow>
    gateway_call api to_json of_json env uuid now rnd body m (snd (snd (create_user api m now r)))"

inductive_cases gateway_callE: "gateway_call api to_json of_json env uuid now rnd body m m'"

lemma public_request_of_id: "public_request_of obj = Inr q \<Longrightarrow> jr_request_id q = ''''"
  by (auto simp: public_request_of_def exn_bind_Inr_iff default_job_request_def)

lemma admin_delete_user_state [simp]: "snd (snd (admin_delete_user m u)) = m"
  by (simp add: admin_delete_user_def)

lemma dispatch_call:
  "gateway_call api tj oj env uuid now rnd body m
     (fst (snd (dispatch env (master_stub_of api tj oj uuid now rnd) m tok body r)))"
  by (cases r)
     (auto simp: dispatch_def upload_archive_def bridge_defs Let_def case_prod_unfold
       intro: gateway_call.intros public_request_of_id split: sum.split)

lemma api_answer_call:
  "gateway_call api tj oj env uuid now rnd (rq_body req) m
     (fst (snd (api_answer env (master_stub_of api tj oj uuid now rnd) m req)))"
proof (cases "route_of (rq_method req) (norm_path_of (rq_target req))")
  case (Inr r)
  show ?thesis
  proof (cases "r = No_route")
    case False
    obtain res m' eff where d: "dispatch env (master_stub_of api tj oj uuid now rnd) m (bearer_token req) (rq_body req) r
        = (res, m', eff)"
      by (cases "dispatch env (master_stub_of api tj oj uuid now rnd) m (bearer_token req) (rq_body req) r") auto
    from dispatch_call [of api tj oj env uuid now rnd "rq_body req" m "bearer_token req" r] show ?thesis
      by (simp add: api_answer_route [OF Inr False d] d)
  qed (simp add: api_answer_def Inr gateway_call.No_call)
qed (simp add: api_answer_def gateway_call.No_call)

lemma handle_call:
  assumes "handle config env (master_stub_of api tj oj uuid now rnd) m req = Inr (res, m', effects)"
  shows "gateway_call api tj oj env uuid now rnd (rq_body req) m m'"
  using assms api_answer_call [of api tj oj env uuid now rnd req m]
  by (auto simp: handle_def exn_bind_Inr_iff case_prod_unfold Let_def prod_eq_iff
      intro: gateway_call.No_call split: if_splits)

lemma gateway_call_step:
  "gateway_call api tj oj env uuid now rnd body (cl_master c) m' \<Longrightarrow>
     (cluster_step api tj oj srt)\<^sup>=\<^sup>= c (c\<lparr>cl_master := m'\<rparr>)"
  by (erule gateway_callE) (auto intro: cluster_step.intros)

text \<open>
  The gateway drives the master only through the steps of the cluster.  Whatever the request,
  the file system and the body, what \<open>handle\<close> does to the master of a reachable state is no step or
  one RPC step, and the state stays reachable; so the invariants of the cluster hold behind the
  gateway, too.
\<close>

theorem gateway_refines_cluster:
  assumes "reachable api to_json of_json srt c"
    and "handle config env (master_stub_of api to_json of_json uuid now rnd) (cl_master c) req = Inr (res, m', effects)"
  shows "(cluster_step api to_json of_json srt)\<^sup>=\<^sup>= c (c\<lparr>cl_master := m'\<rparr>) \<and>
    reachable api to_json of_json srt (c\<lparr>cl_master := m'\<rparr>)"
proof -
  have "(cluster_step api to_json of_json srt)\<^sup>=\<^sup>= c (c\<lparr>cl_master := m'\<rparr>)"
    by (rule gateway_call_step [OF handle_call [OF assms(2)]])
  with assms(1) show ?thesis
    by (auto intro: reachable.Step)
qed

theorem gateway_refines_cluster_witness:
  "\<exists>res m'. handle default_gateway_config (demo_env demo_parse no_files)
       (master_stub_of ref_api no_json no_parse ''22222222'' 5 0) (cl_master run3)
       \<lparr>rq_method = DELETE, rq_target = ''/api/v1/jobs/job-11111111'', rq_authorization = None, rq_body = ''''\<rparr>
     = Inr (res, m', []) \<and> reachable ref_api no_json no_parse std_sort (run3\<lparr>cl_master := m'\<rparr>)"
proof -
  let ?req = "\<lparr>rq_method = DELETE, rq_target = ''/api/v1/jobs/job-11111111'', rq_authorization = None, rq_body = ''''\<rparr>"
  let ?stub = "master_stub_of ref_api no_json no_parse ''22222222'' 5 0"
  have r: "route_of (rq_method ?req) (norm_path_of (rq_target ?req)) = Inr (Cancel_job ''job-11111111'')"
    by (simp add: norm_path_of_def route_of_def substr_from_def)
  obtain res m' where d: "dispatch (demo_env demo_parse no_files) ?stub (cl_master run3) (bearer_token ?req)
      (rq_body ?req) (Cancel_job ''job-11111111'') = (res, m', [])"
    by (simp add: dispatch_def bridge_cancel_job_def case_prod_unfold Let_def)
  obtain resp where h: "handle default_gateway_config (demo_env demo_parse no_files) ?stub (cl_master run3) ?req
      = Inr (resp, m', [])"
    using api_answer_route [OF r _ d] by (simp add: handle_def case_prod_unfold Let_def)
  from gateway_refines_cluster [THEN conjunct2, OF run_reachable(3) h] h show ?thesis by blast
qed

section \<open>Public requests behind REST\<close>

lemma rpc_admin_db [simp]:
  "admin_db (snd (snd (submit_job_rpc api m uuid now md spec))) = admin_db m"
  "admin_db (snd (snd (cancel_job_rpc m now i))) = admin_db m"
  by (simp_all add: submit_job_rpc_def cancel_job_rpc_def Let_def split: prod.split option.split)

lemma review_admin_db:
  "\<exists>i s d. admin_db (snd (snd (admin_review_request api tj oj m uuid now rv)))
     \<in> {admin_db m, snd (update_request_status api (admin_db m) i s d)}"
  by (auto simp: admin_review_request_def Let_def split: prod.split option.split)

lemma update_admin_db:
  "\<exists>i s d. admin_db (snd (snd (update_job_request api tj oj m q)))
     \<in> {admin_db m, snd (update_request_status api (admin_db m) i s d)}"
  by (auto simp: update_job_request_def Let_def split: prod.split option.split)

lemma public_admin_db:
  "jr_request_id q = '''' \<Longrightarrow> \<exists>e s d. admin_db (snd (snd (submit_public_request api tj m now rnd q)))
     \<in> {admin_db m, snd (add_job_request api (admin_db m) (request_id_of now rnd) e s d)}"
  by (auto simp: submit_public_request_def Let_def case_prod_unfold split: option.split)

definition plain_accounts :: "gateway_env \<Rightarrow> string \<Rightarrow> bool" where
  "plain_accounts env body \<longleftrightarrow> (\<forall>obj r. body_object env body = Inr obj \<longrightarrow> user_request obj = Inr r \<longrightarrow>
     plain (cu_username r) \<and> plain (cu_password r))"

text \<open>The stored ids are ids the master made up, and the user list can be written back.\<close>

definition gateway_db :: "'db sqlite_api \<Rightarrow> ('db \<Rightarrow> string \<Rightarrow> request_row option) \<Rightarrow> 'db \<Rightarrow> bool" where
  "gateway_db api reqs db \<longleftrightarrow> (\<forall>i. reqs db i \<noteq> None \<longrightarrow> (\<exists>t n. i = request_id_of t n)) \<and>
     (\<forall>l. get_kv api db ''system:user_list'' = Some l \<longrightarrow> plain l)"

lemma request_id_of_chars:
  "CHR ''/'' \<notin> set (request_id_of t n)" "CHR 0x00 \<notin> set (request_id_of t n)"
  "hd (request_id_of t n) = CHR ''r''" "hd (tl (request_id_of t n)) = CHR ''e''" "request_id_of t n \<noteq> ''''"
  "\<not> prefix ''upload'' (request_id_of t n)" "\<not> prefix ''review'' (request_id_of t n)"
  by (simp_all add: request_id_of_def to_string_chars)

context sqlite_engine
begin

lemma gateway_db_set_kv:
  assumes "gateway_db api reqs db" "plain k" "plain v"
  shows "gateway_db api reqs (snd (set_kv api db k v))"
proof -
  obtain ok db' where s: "set_kv api db k v = (ok, db')" by fastforce
  have "get_kv api db' ''system:user_list'' = (if ok \<and> ''system:user_list'' = k then Some v
      else get_kv api db ''system:user_list'')"
    using store.get_set [OF assms(2,3) _ s] by simp
  then show ?thesis
    using assms(1,3) set_kv_effect(2) [OF assms(2,3) s] unfolding gateway_db_def s by (auto split: if_splits)
qed

lemma gateway_db_update:
  assumes "gateway_db api reqs db"
  shows "gateway_db api reqs (snd (update_request_status api db i s d))"
proof -
  obtain ok db' where u: "update_request_status api db i s d = (ok, db')" by fastforce
  have "get_kv api db' ''system:user_list'' = get_kv api db ''system:user_list''"
    using update_request_status_effect(1) [OF u] by (simp add: get_kv_eq)
  moreover have "reqs db' k \<noteq> None \<Longrightarrow> reqs db k \<noteq> None" for k
    using update_request_status_effect(2) [OF u] by (auto split: if_splits option.splits prod.splits)
  ultimately show ?thesis using assms by (simp add: gateway_db_def u)
qed

lemma gateway_db_add:
  assumes "gateway_db api reqs db"
  shows "gateway_db api reqs (snd (add_job_request api db (request_id_of t n) e s d))"
proof -
  obtain ok db' where u: "add_job_request api db (request_id_of t n) e s d = (ok, db')" by fastforce
  have "get_kv api db' ''system:user_list'' = get_kv api db ''system:user_list''"
    using add_job_request_effect(1) [OF u] by (simp add: get_kv_eq)
  moreover have "reqs db' k \<noteq> None \<Longrightarrow> reqs db k \<noteq> None \<or> k = request_id_of t n" for k
    using add_job_request_effect(2) [OF u] request_id_of_chars(2) by (auto simp: c_str_id split: if_splits)
  ultimately show ?thesis using assms unfolding gateway_db_def u snd_conv by metis
qed

lemma gateway_db_create:
  assumes "gateway_db api reqs (admin_db m)" "plain (cu_username r)" "plain (cu_password r)"
  shows "gateway_db api reqs (admin_db (snd (snd (create_user api m now r))))"
proof -
  let ?u = "cu_username r"
  let ?role = "if cu_role r = USER_ROLE_ADMIN then ''admin'' else ''user''"
  define db2 where "db2 = snd (set_kv api (snd (set_kv api (admin_db m) (''user:'' @ ?u) (cu_password r))) (''role:'' @ ?u) ?role)"
  have db2: "gateway_db api reqs db2"
    unfolding db2_def using assms by (intro gateway_db_set_kv) simp_all
  define users where "users = (case get_kv api db2 ''system:user_list'' of None \<Rightarrow> ''admin,user1'' | Some l \<Rightarrow> l)"
  have "plain users" using db2 by (simp add: users_def gateway_db_def split: option.split)
  then have "gateway_db api reqs (snd (set_kv api db2 ''system:user_list'' (users @ '','' @ ?u)))"
    using assms by (intro gateway_db_set_kv db2) simp_all
  then show ?thesis
    using assms(1) db2 unfolding create_user_def Let_def db2_def [symmetric] users_def [symmetric]
    by simp
qed

lemma gateway_db_call:
  assumes "gateway_call api tj oj env uuid now rnd body m m'" "plain_accounts env body"
    and "gateway_db api reqs (admin_db m)"
  shows "gateway_db api reqs (admin_db m')"
  using assms(1)
proof cases
  case (Call_public q)
  then show ?thesis
    using public_admin_db [of q api tj m now rnd] assms(3) gateway_db_add by auto
next
  case (Call_update q)
  then show ?thesis
    using update_admin_db [of api tj oj m q] assms(3) gateway_db_update by auto
next
  case (Call_review rv)
  then show ?thesis
    using review_admin_db [of api tj oj m uuid now rv] assms(3) gateway_db_update by auto
next
  case (Call_create obj r)
  then show ?thesis
    using assms(2,3) gateway_db_create [of m r now] by (simp add: plain_accounts_def)
qed (use assms(3) in simp_all)

lemma unknown_request:
  assumes "gateway_db api reqs db" "\<not> prefix ''r'' i"
  shows "target_json api db i = ''''"
proof -
  have "map_of (list_requests api db) i = None"
  proof (rule ccontr)
    assume "map_of (list_requests api db) i \<noteq> None"
    then obtain d where "(i, d) \<in> set (list_requests api db)" by (auto dest: map_of_SomeD)
    from list_requests_sound [OF this] have "reqs db i \<noteq> None" by auto
    with assms(1) obtain t n where "i = request_id_of t n" unfolding gateway_db_def by blast
    with assms(2) show False by (simp add: request_id_of_def)
  qed
  then show ?thesis by (simp add: target_json_map_of)
qed

end

text \<open>What a master can become when it is driven by REST requests only.\<close>

inductive rest_run ::
  "'db sqlite_api \<Rightarrow> (job_request \<Rightarrow> string option) \<Rightarrow> (string \<Rightarrow> bool \<times> job_request) \<Rightarrow> 'db master
     \<Rightarrow> 'db master \<Rightarrow> bool"
  for api to_json of_json m0 where
  Rest_start: "rest_run api to_json of_json m0 m0"
| Rest_call: "rest_run api to_json of_json m0 m \<Longrightarrow> plain_accounts env (rq_body req) \<Longrightarrow>
    handle config env (master_stub_of api to_json of_json uuid now rnd) m req = Inr (res, m', effects) \<Longrightarrow>
    rest_run api to_json of_json m0 m'"

lemma rest_run_db:
  assumes "rest_run api tj oj m0 m" "sqlite_engine api kv reqs" "gateway_db api reqs (admin_db m0)"
  shows "gateway_db api reqs (admin_db m)"
  using assms
  by (induction rule: rest_run.induct) (auto intro: sqlite_engine.gateway_db_call dest!: handle_call)

lemma unknown_review:
  assumes "target_json api (admin_db m) i = ''''"
  shows "\<exists>e. bridge_review (master_stub_of api tj oj uuid now rnd) m tok i yes c
    = (Inr [(''success'', JBool False), (''error'', e)], m)"
  using assms by (simp add: bridge_review_def admin_review_request_def)

lemma unknown_update:
  assumes "target_json api (admin_db m) i = ''''"
  shows "bridge_update_archive (master_stub_of api tj oj uuid now rnd) m i p
    = (Inr [(''success'', JBool False), (''error'', JString ''Request not found'')], m)"
  using assms by (simp add: bridge_update_archive_def update_job_request_def failure_text_def default_job_request_def
      default_status_response_def)

lemma dispatch_unknown:
  assumes "target_json api (admin_db m) i = ''''" "r \<in> {Review i, Upload i}"
  shows "\<exists>res effects. dispatch env (master_stub_of api tj oj uuid now rnd) m tok body r = (res, m, effects) \<and>
    (\<forall>obj. res = Inr obj \<longrightarrow> \<not> succeeded obj)"
proof (cases "r = Review i")
  case True
  show ?thesis
  proof (cases "body_object env body")
    case (Inr obj)
    show ?thesis
    proof (cases "exn_bind (get_bool (member obj ''approve'')) (\<lambda>approve.
        exn_bind (get_string (member obj ''comment'')) (\<lambda>comment. Inr (approve, comment)))")
      case (Inr p)
      obtain yes c where p: "p = (yes, c)" by (cases p)
      from unknown_review [OF assms(1), of tj oj uuid now rnd tok yes c] obtain e where
        "bridge_review (master_stub_of api tj oj uuid now rnd) m tok i yes c
          = (Inr [(''success'', JBool False), (''error'', e)], m)" ..
      with Inr \<open>body_object env body = Inr obj\<close> True show ?thesis by (simp add: dispatch_def p succeeded_def)
    qed (simp add: dispatch_def True \<open>body_object env body = Inr obj\<close>)
  qed (simp add: dispatch_def True)
next
  case False
  then have "r = Upload i" using assms(2) by simp
  then show ?thesis
    by (simp add: dispatch_def upload_archive_def unknown_update [OF assms(1)] member_def succeeded_def Let_def)
qed

text \<open>A review with a readable body is the review of the id that was cut out.\<close>

lemma dispatch_review:
  assumes "body_object env body = Inr b" "get_bool (member b ''approve'') = Inr yes"
    and "get_string (member b ''comment'') = Inr text"
    and "admin_review_request api tj oj m uuid now \<lparr>rv_request_id = i, rv_approve = yes, rv_comment = text\<rparr> = (st, response, m')"
  shows "\<exists>obj. dispatch env (master_stub_of api tj oj uuid now rnd) m tok body (Review i) = (Inr obj, m', [])
    \<and> (succeeded obj \<longleftrightarrow> status_ok st \<and> sr_success response)"
  using assms by (simp add: dispatch_def bridge_review_def succeeded_def)


definition file_body :: json_object where
  "file_body = [(''name'', JString ''Ann''), (''email'', JString ''''), (''goal'', JString ''''),
     (''cpu'', JInt 4), (''ram'', JInt 8), (''time'', JInt 1)]"

definition file_call :: http_request where
  "file_call = \<lparr>rq_method = POST, rq_target = ''/api/v1/public/request'', rq_authorization = None, rq_body = ''''\<rparr>"

abbreviation stuck_stub :: "tables master master_stub" where
  "stuck_stub \<equiv> master_stub_of ref_api (\<lambda>_. Some ''{0}'') (\<lambda>_. (True, default_job_request)) ''01234567'' 9 0"


section \<open>Listings\<close>

lemma listing_answer:
  assumes "rq_method req = GET" "rq_target req = p"
    and "(p, r) \<in> {(''/api/v1/jobs'', List_jobs), (''/api/v1/nodes'', List_nodes), (''/api/v1/cluster'', Cluster_status)}"
    and "dispatch env stub s (bearer_token req) (rq_body req) r = (Inr obj, s', effects)"
  shows "api_answer env stub s req = ((200, obj), s', effects)"
proof -
  have "route_of (rq_method req) (norm_path_of (rq_target req)) = Inr r" "r \<noteq> No_route"
    using assms(1-3) by (auto simp: norm_path_of_def route_of_def)
  from api_answer_route [OF this assms(4)] show ?thesis by simp
qed

text \<open>
  C34: What the listings show.  Whoever asks, with any token or none, \<open>GET /api/v1/jobs\<close> is answered
  with every job of every user exactly once and \<open>GET /api/v1/nodes\<close> with every node exactly once, as the
  master keeps them; \<open>GET /api/v1/cluster\<close> is always answered with a failure under the status 200.
\<close>

theorem listings_exact:
  assumes "reachable api to_json of_json srt c" "comparison_sort srt" "m = cl_master c" "rq_method req = GET"
    and "stub = master_stub_of api to_json of_json uuid now rnd"
  shows "(rq_target req = ''/api/v1/jobs'' \<longrightarrow> (\<exists>jobs. api_answer env stub m req =
        ((200, [(''success'', JBool True), (''jobs'', JArray (map job_json jobs))]), m, []) \<and>
      distinct (map ji_job_id jobs) \<and> (\<forall>job. job \<in> set jobs \<longleftrightarrow> get_job (job_mgr m) (ji_job_id job) = Some job))) \<and>
    (rq_target req = ''/api/v1/nodes'' \<longrightarrow> (\<exists>nodes. api_answer env stub m req =
        ((200, [(''success'', JBool True), (''nodes'', JArray (map node_json nodes))]), m, []) \<and>
      distinct (map ni_node_id nodes) \<and> (\<forall>node. node \<in> set nodes \<longleftrightarrow> get_node (node_reg m) (ni_node_id node) = Some node))) \<and>
    (rq_target req = ''/api/v1/cluster'' \<longrightarrow> (\<exists>obj. api_answer env stub m req = ((200, obj), m, []) \<and> \<not> succeeded obj))"
proof -
  have keyed: "jobs_keyed (job_mgr m)" "keyed ni_node_id (node_reg m)"
    using reachable_ok [OF assms(1,2)] by (simp_all add: assms(3) master_ok_def registry_ok_def)
  let ?jobs = "list_jobs (job_mgr m) JOB_STATUS_UNSPECIFIED" and ?nodes = "get_all_nodes (node_reg m)"
  have lists: "dispatch env stub m t b List_jobs = (Inr [(''success'', JBool True), (''jobs'', JArray (map job_json ?jobs))], m, [])"
    "dispatch env stub m t b List_nodes = (Inr [(''success'', JBool True), (''nodes'', JArray (map node_json ?nodes))], m, [])" for t b
    by (simp_all add: assms(5) dispatch_def bridge_list_jobs_def bridge_list_nodes_def list_jobs_rpc_def list_nodes_rpc_def Let_def)
  let ?failed = "failed (Status_error UNIMPLEMENTED '''')"
  have status: "dispatch env stub m t b Cluster_status = (Inr ?failed, m, [])" for t b
    by (simp add: assms(5) dispatch_def bridge_cluster_status_def)
  show ?thesis
  proof (rule conj_goals(2); (intro impI)?)
    assume t: "rq_target req = ''/api/v1/jobs''"
    show "\<exists>jobs. api_answer env stub m req = ((200, [(''success'', JBool True), (''jobs'', JArray (map job_json jobs))]), m, []) \<and>
      distinct (map ji_job_id jobs) \<and> (\<forall>job. job \<in> set jobs \<longleftrightarrow> get_job (job_mgr m) (ji_job_id job) = Some job)"
      using listing_answer [OF assms(4) t _ lists(1)] keyed
      by (intro exI [of _ ?jobs]) (simp add: distinct_list_jobs in_list_jobs)
  next
    assume t: "rq_target req = ''/api/v1/nodes''"
    show "\<exists>nodes. api_answer env stub m req = ((200, [(''success'', JBool True), (''nodes'', JArray (map node_json nodes))]), m, []) \<and>
      distinct (map ni_node_id nodes) \<and> (\<forall>node. node \<in> set nodes \<longleftrightarrow> get_node (node_reg m) (ni_node_id node) = Some node)"
      using listing_answer [OF assms(4) t _ lists(2)] keyed
      by (intro exI [of _ ?nodes]) (simp add: distinct_get_all_nodes in_get_all_nodes)
  next
    assume t: "rq_target req = ''/api/v1/cluster''"
    show "\<exists>obj. api_answer env stub m req = ((200, obj), m, []) \<and> \<not> succeeded obj"
      using listing_answer [OF assms(4) t _ status] by (simp add: failed_def succeeded_def)
  qed
qed

theorem listings_exact_witness:
  "\<exists>jobs. api_answer (demo_env demo_parse no_files) (master_stub_of ref_api no_json no_parse ''2'' 5 0) (cl_master run3)
     \<lparr>rq_method = GET, rq_target = ''/api/v1/jobs'', rq_authorization = None, rq_body = ''''\<rparr> =
     ((200, [(''success'', JBool True), (''jobs'', JArray (map job_json jobs))]), cl_master run3, [])
   \<and> run_job \<in> set jobs"
proof -
  have "get_job (job_mgr (cl_master run3)) (ji_job_id run_job) = Some run_job"
    by (simp add: run3_def get_job_def run2_master)
  then show ?thesis
    using listings_exact [THEN conjunct1, THEN mp, OF run_reachable(3) std.comparison_sort_axioms refl _ refl,
      of "\<lparr>rq_method = GET, rq_target = ''/api/v1/jobs'', rq_authorization = None, rq_body = ''''\<rparr>"
         "demo_env demo_parse no_files" "''2''" 5 0]
    by (simp only: http_request.select_convs) blast
qed

end
