(* ===== verification/Http_Server.thy ===== *)
theory Http_Server
  imports Gateway_Cluster
begin

text \<open>
  \<open>HttpServer\<close> (\<open>gateway/src/http_server.cpp\<close>): what becomes of one accepted connection, and of a
  sequence of them.  Boost.Beast is the record \<open>http_library\<close>: reading a request under a limit for
  the body (\<open>Inl\<close> is an error code) and the test for a WebSocket upgrade.  All handlers run on the
  one thread of the \<open>io_context\<close>, so requests are handled one after the other, in the order in
  which their reads complete; an exception that leaves a handler leaves \<open>ioc_.run()\<close> and, as nothing
  in the thread catches it, ends the process.
\<close>

record http_library =
  lib_read :: "nat \<Rightarrow> string \<Rightarrow> string + http_request"
  lib_is_upgrade :: "http_request \<Rightarrow> bool"

datatype accepted = Accept_error | Received string

definition body_limit :: nat where
  "body_limit = 100 * 1024 * 1024"

definition quoted :: "string \<Rightarrow> string" where
  "quoted s = CHR 0x22 # s @ [CHR 0x22]"

definition read_error_response :: http_response where
  "read_error_response =
     \<lparr>rs_status = 400, rs_headers = [(''Content-Type'', ''application/json'')],
      rs_body = ''{'' @ quoted ''success'' @ '':false,'' @ quoted ''error'' @ '':''
        @ quoted ''Payload too large or read error'' @ ''}''\<rparr>"

text \<open>No response is written for an upgrade: the socket is dropped with the handler.\<close>

definition handle_request ::
  "http_library \<Rightarrow> gateway_config \<Rightarrow> gateway_env \<Rightarrow> 's master_stub \<Rightarrow> 's \<Rightarrow> http_request
     \<Rightarrow> exn + http_response option \<times> 's \<times> file_effect list" where
  "handle_request lib config env stub s req =
     (if lib_is_upgrade lib req then Inr (None, s, [])
      else exn_bind (handle config env stub s req) (\<lambda>(res, s', effects). Inr (Some res, s', effects)))"

definition do_accept ::
  "http_library \<Rightarrow> gateway_config \<Rightarrow> gateway_env \<Rightarrow> 's master_stub \<Rightarrow> 's \<Rightarrow> accepted
     \<Rightarrow> exn + http_response option \<times> 's \<times> file_effect list" where
  "do_accept lib config env stub s conn =
     (case conn of
        Accept_error \<Rightarrow> Inr (None, s, [])
      | Received bytes \<Rightarrow>
          (case lib_read lib body_limit bytes of
             Inl ec \<Rightarrow> Inr (Some read_error_response, s, [])
           | Inr req \<Rightarrow> handle_request lib config env stub s req))"

text \<open>
  The thread: connection after connection, each with the file system and the stub as they answer at
  its time.  The replies are what was written on each connection before the process ended, \<open>None\<close> where
  nothing was; the last component is the exception that ended the process.
\<close>

fun serve ::
  "http_library \<Rightarrow> gateway_config \<Rightarrow> 's \<Rightarrow> (gateway_env \<times> 's master_stub \<times> accepted) list
     \<Rightarrow> http_response option list \<times> 's \<times> file_effect list \<times> exn option" where
  "serve lib config s [] = ([], s, [], None)"
| "serve lib config s ((env, stub, conn) # conns) =
     (case do_accept lib config env stub s conn of
        Inl e \<Rightarrow> ([], s, [], Some e)
      | Inr (res, s', effects) \<Rightarrow>
          (let (replies, s'', effects', ended) = serve lib config s' conns
           in (res # replies, s'', effects @ effects', ended)))"

section \<open>Opening, starting and stopping\<close>

text \<open>
  The server: whether an accept is pending, whether the \<open>io_context\<close> was stopped, and whether
  \<open>thread_\<close> is joinable.  What the operating system says to the address and the port is an argument.
\<close>

record http_server =
  hs_config :: gateway_config
  hs_accepting :: bool
  hs_stopped :: bool
  hs_thread :: bool

text \<open>The constructor; the exceptions are those of \<open>make_address\<close> and of the acceptor.\<close>

definition new_http_server :: "(string \<Rightarrow> bool) \<Rightarrow> (string \<Rightarrow> u16 \<Rightarrow> bool) \<Rightarrow> gateway_config \<Rightarrow> string + http_server" where
  "new_http_server is_address can_listen config =
     (if \<not> is_address (gc_bind_address config) then Inl ''make_address''
      else if \<not> can_listen (gc_bind_address config) (gc_http_port config) then Inl ''bind''
      else Inr \<lparr>hs_config = config, hs_accepting = False, hs_stopped = False, hs_thread = False\<rparr>)"

text \<open>\<open>None\<close> is \<open>std::terminate\<close>: a joinable \<open>std::thread\<close> is assigned to.\<close>

definition http_start :: "http_server \<Rightarrow> http_server option" where
  "http_start sv = (if hs_thread sv then None else Some (sv\<lparr>hs_accepting := True, hs_thread := True\<rparr>))"

text \<open>
  \<open>stop()\<close> as called by the server's own thread or by another one.  A thread that joins itself
  gets a \<open>std::system_error\<close>, which leaves \<open>stop()\<close>.
\<close>

definition http_stop :: "bool \<Rightarrow> http_server \<Rightarrow> string option \<times> http_server" where
  "http_stop own_thread sv =
     (let sv1 = sv\<lparr>hs_stopped := True\<rparr>
      in if \<not> hs_thread sv1 then (None, sv1)
         else if own_thread then (Some ''resource_deadlock_would_occur'', sv1)
         else (None, sv1\<lparr>hs_thread := False\<rparr>))"

text \<open>\<open>ioc_.run()\<close> dispatches the connections while the context is not stopped.\<close>

definition http_serving :: "http_server \<Rightarrow> bool" where
  "http_serving sv \<longleftrightarrow> hs_accepting sv \<and> hs_thread sv \<and> \<not> hs_stopped sv"

section \<open>The WebSocket handler\<close>

text \<open>
  \<open>gateway/src/websocket_handler.cpp\<close>.  A handler keeps the bridge; an accepted connection is logged
  and dropped with the argument, and a message is sent to nobody, since no client is kept.  Nothing
  constructs a handler: \<open>handle_request\<close> returns before, with a log line of its own.
\<close>

record 's websocket_handler =
  wh_bridge :: "'s master_stub"

definition new_websocket_handler :: "'s master_stub \<Rightarrow> 's websocket_handler" where
  "new_websocket_handler bridge = \<lparr>wh_bridge = bridge\<rparr>"

text \<open>The log lines, and the handler afterwards.\<close>

definition ws_accept :: "'s websocket_handler \<Rightarrow> string list \<times> 's websocket_handler" where
  "ws_accept h = ([''New WebSocket connection accepted (stub)''], h)"

text \<open>The messages written to clients, and the handler afterwards.\<close>

definition ws_broadcast :: "'s websocket_handler \<Rightarrow> string \<Rightarrow> string list \<times> 's websocket_handler" where
  "ws_broadcast h message = ([], h)"

text \<open>
  No client of a WebSocket ever hears from the gateway: its request is dropped without an answer, an
  RPC or a file, whatever its target and its headers, and the next connection is served as if it had not been.
\<close>

lemma websocket_unanswered:
  assumes "lib_read lib body_limit bytes = Inr req" "lib_is_upgrade lib req"
  shows "do_accept lib config env stub s (Received bytes) = Inr (None, s, [])"
    and "serve lib config s ((env, stub, Received bytes) # conns) =
      (let (replies, rest) = serve lib config s conns in (None # replies, rest))"
  using assms by (simp_all add: do_accept_def handle_request_def case_prod_unfold Let_def)

section \<open>When the gateway ends\<close>

text \<open>
  The targets whose static file throws: the empty one, and those whose path the file system refuses
  to look at; never one of the API and never the icon.
\<close>

definition fatal_target :: "gateway_config \<Rightarrow> gateway_env \<Rightarrow> string \<Rightarrow> bool" where
  "fatal_target config env target \<longleftrightarrow>
     \<not> prefix ''/api/'' target \<and> target \<noteq> ''/favicon.ico'' \<and>
     (target = '''' \<or> isl (env_file env (path_append (gc_web_root config)
        (tl (if target \<in> {''/'', ''/index.html''} then ''/login.html'' else target)))))"

definition fatal :: "http_library \<Rightarrow> gateway_config \<Rightarrow> gateway_env \<Rightarrow> accepted \<Rightarrow> bool" where
  "fatal lib config env conn =
     (case conn of
        Accept_error \<Rightarrow> False
      | Received bytes \<Rightarrow>
          (case lib_read lib body_limit bytes of
             Inl ec \<Rightarrow> False
           | Inr req \<Rightarrow> \<not> lib_is_upgrade lib req \<and> fatal_target config env (rq_target req)))"

text \<open>The connections on which nothing is ever written.\<close>

definition unanswered :: "http_library \<Rightarrow> accepted \<Rightarrow> bool" where
  "unanswered lib conn =
     (case conn of
        Accept_error \<Rightarrow> True
      | Received bytes \<Rightarrow> (case lib_read lib body_limit bytes of Inl ec \<Rightarrow> False | Inr req \<Rightarrow> lib_is_upgrade lib req))"

lemma serve_static_throws:
  "isl (serve_static config env target) \<longleftrightarrow> target \<noteq> ''/favicon.ico'' \<and>
     (target = '''' \<or> isl (env_file env (path_append (gc_web_root config)
        (tl (if target \<in> {''/'', ''/index.html''} then ''/login.html'' else target)))))"
proof -
  have throws: "isl (exn_bind r (\<lambda>x. Inr (f x))) \<longleftrightarrow> isl r" for r :: "exn + string option" and f :: "string option \<Rightarrow> http_response"
    by (cases r) simp_all
  show ?thesis
    by (cases target) (auto simp: serve_static_def substr_from_def throws Let_def)
qed

lemma handle_throws: "isl (handle config env stub s req) \<longleftrightarrow> fatal_target config env (rq_target req)"
proof -
  have "isl (handle config env stub s req) \<longleftrightarrow>
      \<not> prefix ''/api/'' (rq_target req) \<and> isl (serve_static config env (rq_target req))"
    by (cases "serve_static config env (rq_target req)")
       (auto simp: handle_def case_prod_unfold Let_def str_find_prefix)
  then show ?thesis by (simp add: serve_static_throws fatal_target_def)
qed

lemma do_accept_throws: "isl (do_accept lib config env stub s conn) \<longleftrightarrow> fatal lib config env conn"
proof -
  have "isl (handle_request lib config env stub s req) \<longleftrightarrow>
      \<not> lib_is_upgrade lib req \<and> isl (handle config env stub s req)" for req
    by (cases "handle config env stub s req") (auto simp: handle_request_def)
  then show ?thesis
    by (auto simp: do_accept_def fatal_def handle_throws split: accepted.split sum.split)
qed

lemma serve_cases:
  "fatal lib config env conn \<Longrightarrow>
     \<exists>e. do_accept lib config env stub s conn = Inl e \<and> serve lib config s ((env, stub, conn) # conns) = ([], s, [], Some e)"
  "\<not> fatal lib config env conn \<Longrightarrow>
     \<exists>res s' eff. do_accept lib config env stub s conn = Inr (res, s', eff) \<and>
       serve lib config s ((env, stub, conn) # conns) =
         (res # fst (serve lib config s' conns), fst (snd (serve lib config s' conns)),
          eff @ fst (snd (snd (serve lib config s' conns))), snd (snd (snd (serve lib config s' conns))))"
  using do_accept_throws [of lib config env stub s conn]
  by (cases "do_accept lib config env stub s conn"; auto simp: case_prod_unfold Let_def)+

lemma serve_length:
  "length (fst (serve lib config s conns)) = length (takeWhile (\<lambda>(env, stub, conn). \<not> fatal lib config env conn) conns) \<and>
   (snd (snd (snd (serve lib config s conns))) = None \<longleftrightarrow> (\<forall>(env, stub, conn)\<in>set conns. \<not> fatal lib config env conn))"
proof (induction conns arbitrary: s)
  case (Cons c conns)
  obtain env stub conn where c: "c = (env, stub, conn)" by (cases c)
  show ?case
  proof (cases "fatal lib config env conn")
    case True
    from serve_cases(1) [OF True, of stub s conns] True show ?thesis by (auto simp: c)
  next
    case False
    from serve_cases(2) [OF False, of stub s conns] False Cons show ?thesis by (auto simp: c)
  qed
qed simp

lemma serve_stops:
  assumes f: "fatal lib config env0 conn0"
    and "serve lib config s (served @ (env0, stub0, conn0) # later) = (replies, s', effects, ended)"
  shows "serve lib config s (served @ (env0, stub0, conn0) # later') = (replies, s', effects, ended)"
  using assms(2)
proof (induction served arbitrary: s replies s' effects)
  case Nil
  with serve_cases(1) [OF f, of stub0 s later] serve_cases(1) [OF f, of stub0 s later'] show ?case by auto
next
  case (Cons c served)
  obtain env stub conn where c: "c = (env, stub, conn)" by (cases c)
  show ?case
  proof (cases "fatal lib config env conn")
    case True
    then obtain e where "do_accept lib config env stub s conn = Inl e"
      using serve_cases(1) [OF True, of stub s "[]"] by blast
    with Cons.prems show ?thesis by (simp add: c)
  next
    case False
    then obtain res t eff where "do_accept lib config env stub s conn = Inr (res, t, eff)"
      using serve_cases(2) [OF False, of stub s "[]"] by blast
    with Cons.IH [of t] Cons.prems show ?thesis
      by (auto simp: c split: prod.splits)
  qed
qed

text \<open>The reply to a connection is that of the state the connections before it left.\<close>

lemma serve_reply:
  assumes "serve lib config s conns = (replies, s', effects, ended)" "k < length replies" "conns ! k = (env, stub, conn)"
  shows "\<exists>t eff. do_accept lib config env stub (fst (snd (serve lib config s (take k conns)))) conn = Inr (replies ! k, t, eff)"
  using assms
proof (induction conns arbitrary: s replies effects k)
  case (Cons c conns)
  obtain env0 stub0 conn0 where c: "c = (env0, stub0, conn0)" by (cases c)
  show ?case
  proof (cases "do_accept lib config env0 stub0 s conn0")
    case (Inl e)
    with Cons.prems show ?thesis by (simp add: c)
  next
    case (Inr r)
    obtain res t eff where r: "r = (res, t, eff)" by (cases r)
    obtain rs u effs en where rest: "serve lib config t conns = (rs, u, effs, en)" by (metis prod_cases4)
    show ?thesis
    proof (cases k)
      case 0
      with Cons.prems Inr r rest show ?thesis by (auto simp: c)
    next
      case (Suc j)
      with Cons.prems have "serve lib config t conns = (rs, s', effs, ended)" "j < length rs" "conns ! j = (env, stub, conn)"
        and "replies = res # rs" by (auto simp: c Inr r rest)
      from Cons.IH [OF this(1-3)] this(4) Suc show ?thesis by (simp add: c Inr r case_prod_unfold Let_def)
    qed
  qed
qed simp

lemma do_accept_reply:
  assumes "do_accept lib config env stub s conn = Inr (reply, t, eff)"
  shows "reply = None \<longleftrightarrow> unanswered lib conn"
    and "conn = Received bytes \<Longrightarrow> lib_read lib body_limit bytes = Inl ec \<Longrightarrow> reply = Some read_error_response"
    and "conn = Received bytes \<Longrightarrow> lib_read lib body_limit bytes = Inr req \<Longrightarrow> \<not> lib_is_upgrade lib req \<Longrightarrow>
      \<exists>res. handle config env stub s req = Inr (res, t, eff) \<and> reply = Some res"
  using assms
  by (auto simp: do_accept_def handle_request_def unanswered_def exn_bind_Inr_iff split: accepted.splits sum.splits if_splits)


definition plain_library :: http_library where
  "plain_library = \<lparr>lib_read = (\<lambda>limit bytes.
       if length bytes \<le> limit
       then Inr \<lparr>rq_method = GET, rq_target = bytes, rq_authorization = None, rq_body = ''''\<rparr>
       else Inl ''body limit exceeded''), lib_is_upgrade = (\<lambda>_. False)\<rparr>"

text \<open>A file system on which names of more than eight characters are too long.\<close>

definition short_names :: "string \<Rightarrow> exn + string option" where
  "short_names p = (if length (path_filename p) > 8 then Inl Filesystem_error else Inr None)"


text \<open>
  The life of the server.  It serves exactly from a start on an address it could open until
  the first stop.  A second start without a stop ends the process, a start after a stop is accepted but
  never serves, since the context is not restarted, and a stop from its own thread throws, too.
\<close>

lemma http_server_life:
  assumes "new_http_server is_address can_listen config = Inr sv"
  shows "is_address (gc_bind_address config) \<and> can_listen (gc_bind_address config) (gc_http_port config) \<and> \<not> http_serving sv \<and>
    (\<exists>sv1. http_start sv = Some sv1 \<and> http_serving sv1 \<and> http_start sv1 = None \<and>
      (\<exists>sv2 sv3. http_stop False sv1 = (None, sv2) \<and> \<not> http_serving sv2 \<and>
        http_start sv2 = Some sv3 \<and> \<not> http_serving sv3) \<and>
      fst (http_stop True sv1) \<noteq> None)"
  using assms
  by (auto simp: new_http_server_def http_start_def http_stop_def http_serving_def Let_def split: if_splits)

section \<open>Uploads\<close>

text \<open>Beast's parser reports an error for a body over its limit.\<close>

definition limits_bodies :: "http_library \<Rightarrow> bool" where
  "limits_bodies lib \<longleftrightarrow> (\<forall>limit bytes req. lib_read lib limit bytes = Inr req \<longrightarrow> length (rq_body req) \<le> limit)"

fun written :: "file_effect \<Rightarrow> string option" where
  "written (Write_file f content) = Some content"
| "written (Make_directory d) = None"

lemma dispatch_writes:
  "\<forall>e\<in>set (snd (snd (dispatch env stub s tok body r))). written e = None \<or> written e = Some body"
  by (cases r) (auto simp: dispatch_def upload_archive_def Let_def case_prod_unfold split: sum.splits)

lemma handle_writes:
  assumes "handle config env stub s req = Inr (res, s', effects)" "e \<in> set effects"
  shows "written e = None \<or> written e = Some (rq_body req)"
proof -
  have "\<forall>e\<in>set (snd (snd (api_answer env stub s req))). written e = None \<or> written e = Some (rq_body req)"
  proof (cases "route_of (rq_method req) (norm_path_of (rq_target req))")
    case (Inr r)
    show ?thesis
    proof (cases "r = No_route")
      case False
      obtain res s' eff where d: "dispatch env stub s (bearer_token req) (rq_body req) r = (res, s', eff)"
        by (metis prod_cases3)
      from dispatch_writes [of env stub s "bearer_token req" "rq_body req" r] show ?thesis
        by (simp add: api_answer_route [OF Inr False d] d)
    qed (simp add: api_answer_def Inr)
  qed (simp add: api_answer_def)
  then show ?thesis
    using assms by (auto simp: handle_def exn_bind_Inr_iff case_prod_unfold Let_def prod_eq_iff split: if_splits)
qed

lemma do_accept_writes:
  assumes "limits_bodies lib" "do_accept lib config env stub s conn = Inr (res, s', effects)"
    and "e \<in> set effects" "written e = Some content"
  shows "length content \<le> body_limit"
proof -
  obtain bytes req where "conn = Received bytes" and r: "lib_read lib body_limit bytes = Inr req"
    and h: "handle_request lib config env stub s req = Inr (res, s', effects)"
    using assms(2,3) by (auto simp: do_accept_def split: accepted.splits sum.splits)
  then obtain res' where "handle config env stub s req = Inr (res', s', effects)"
    using assms(3) by (auto simp: handle_request_def exn_bind_Inr_iff split: if_splits)
  from handle_writes [OF this assms(3)] assms(4) have "content = rq_body req" by simp
  with r assms(1) show ?thesis unfolding limits_bodies_def by blast
qed

text \<open>
  Uploads are bounded.  Whatever the connections bring, no file the gateway writes is larger
  than 100 MB, provided the HTTP library enforces the limit it is given.
\<close>

theorem uploads_bounded:
  assumes "limits_bodies lib" "serve lib config s conns = (replies, s', effects, ended)"
    and "e \<in> set effects" "written e = Some content"
  shows "length content \<le> 100 * 1024 * 1024"
  using assms(2,3)
proof (induction conns arbitrary: s replies effects)
  case (Cons c conns)
  obtain env stub conn where c: "c = (env, stub, conn)" by (cases c)
  show ?case
  proof (cases "do_accept lib config env stub s conn")
    case (Inr r)
    obtain res t eff where r: "r = (res, t, eff)" by (cases r)
    obtain rs u effs en where rest: "serve lib config t conns = (rs, u, effs, en)" by (metis prod_cases4)
    from Cons.prems have "e \<in> set eff \<or> e \<in> set effs"
      by (auto simp: c Inr r rest)
    moreover have ?thesis if "e \<in> set eff"
      using do_accept_writes [OF assms(1) Inr [unfolded r] that assms(4)] by (simp add: body_limit_def)
    moreover have ?thesis if "e \<in> set effs"
      using Cons.IH [of t rs effs] Cons.prems rest that by (auto simp: c Inr r)
    ultimately show ?thesis by blast
  qed (use Cons.prems in \<open>simp add: c\<close>)
qed simp

definition demo_upload :: http_request where
  "demo_upload = \<lparr>rq_method = POST, rq_target = ''/api/v1/public/request/../../web/x/upload'',
     rq_authorization = None, rq_body = ''data''\<rparr>"

definition upload_library :: http_library where
  "upload_library = \<lparr>lib_read = (\<lambda>limit bytes. if limit < 4 then Inl ''body limit exceeded'' else Inr demo_upload),
     lib_is_upgrade = (\<lambda>_. False)\<rparr>"

lemma find_upload_after:
  "str_find ''/upload'' (''/'' @ p @ ''/upload'') = Some (Suc (length p)) \<Longrightarrow>
   str_find ''/upload'' (''/api/v1/public/request/'' @ p @ ''/upload'') = Some (23 + length p)"
  by simp

text \<open>
  C19: An upload is written before anything is checked, and anywhere.  \<open>POST\<close> on
  \<open>/api/v1/public/request/<p>/upload\<close> needs no token and no existing request: for every stub, also
  one that refuses the update, the body is written to \<open>./uploads//<p>.tar.gz\<close>, where \<open>p\<close> may hold
  slashes and \<open>..\<close> and so name a file outside the directory.
\<close>

theorem upload_writes_anywhere:
  assumes "rq_method req = POST" and t: "rq_target req = ''/api/v1/public/request/'' @ p @ ''/upload''"
    and first: "str_find ''/upload'' (''/'' @ p @ ''/upload'') = Some (Suc (length p))"
    and f: "f = ''./uploads//'' @ p @ ''.tar.gz''"
    and "env_mkdir env ''./uploads''" "env_open env f"
  shows "\<exists>res s'. handle config env stub s req =
    Inr (res, s', [Make_directory ''./uploads'', Write_file f (rq_body req)])"
proof -
  define q where "q = ''/api/v1/public/request/'' @ p @ ''/upload''"
  have "norm_path_of q = q" "str_find ''/api/v1/public/request/'' q = Some 0" "str_find ''/api/'' q = Some 0"
    "q \<noteq> ''/api/v1/auth/login''" "q \<noteq> ''/api/v1/public/request''"
    by (simp_all add: q_def norm_path_of_def str_find_prefix)
  moreover have find: "str_find ''/upload'' q = Some (23 + length p)"
    unfolding q_def by (rule find_upload_after [OF first])
  moreover from find have "id_between q 22 ''/upload'' = Some (CHR ''/'' # p)"
    by (simp add: id_between_def substr_len_def) (simp add: q_def)
  ultimately have r: "route_of POST (norm_path_of q) = Inr (Upload (CHR ''/'' # p))" "str_find ''/api/'' q = Some 0"
    by (simp_all add: route_of_def)
  have q: "rq_target req = q" by (simp only: t q_def)
  have route: "route_of (rq_method req) (norm_path_of (rq_target req)) = Inr (Upload (CHR ''/'' # p))"
    "str_find ''/api/'' (rq_target req) = Some 0"
    using r by (simp_all only: q assms(1))
  obtain res t eff where d: "dispatch env stub s (bearer_token req) (rq_body req) (Upload (CHR ''/'' # p)) = (res, t, eff)"
    by (metis prod_cases3)
  have "eff = [Make_directory ''./uploads'', Write_file f (rq_body req)]"
    using d assms(5,6) by (simp add: dispatch_def upload_archive_def f Let_def case_prod_unfold)
  then show ?thesis
    using api_answer_route [OF route(1) _ d] route(2) assms(1)
    by (simp add: handle_def Let_def split: sum.split prod.split)
qed

theorem upload_writes_anywhere_witness:
  "\<exists>res s'. handle default_gateway_config (demo_env (\<lambda>_. Inl Syntax_error) no_files) demo_stub ref_master demo_upload =
    Inr (res, s', [Make_directory ''./uploads'', Write_file ''./uploads//../../web/x.tar.gz'' ''data''])"
  using upload_writes_anywhere [of demo_upload "''../../web/x''" "''./uploads//../../web/x.tar.gz''"
      "demo_env (\<lambda>_. Inl Syntax_error) no_files" default_gateway_config demo_stub ref_master]
  by (simp add: demo_upload_def demo_env_def)

theorem uploads_bounded_witness:
  "\<exists>replies m' effects ended. serve upload_library default_gateway_config ref_master
     [(demo_env (\<lambda>_. Inl Syntax_error) no_files, demo_stub, Received ''data'')] = (replies, m', effects, ended) \<and>
   (Write_file ''./uploads//../../web/x.tar.gz'' ''data'') \<in> set effects \<and> length ''data'' \<le> 100 * 1024 * 1024"
proof -
  let ?env = "demo_env (\<lambda>_. Inl Syntax_error) no_files"
  have lim: "limits_bodies upload_library"
    by (auto simp: limits_bodies_def upload_library_def demo_upload_def split: if_splits)
  have "route_of POST (norm_path_of (rq_target demo_upload)) = Inr (Upload ''/../../web/x'')"
    by (simp add: demo_upload_def norm_path_of_def route_of_def id_between_def substr_len_def)
  then have route: "route_of (rq_method demo_upload) (norm_path_of (rq_target demo_upload)) = Inr (Upload ''/../../web/x'')"
    by (simp add: demo_upload_def)
  obtain rs m' eff ended where run: "serve upload_library default_gateway_config ref_master
      [(?env, demo_stub, Received ''data'')] = (rs, m', eff, ended)"
    by (metis prod_cases4)
  obtain res t effs where d: "dispatch ?env demo_stub ref_master (bearer_token demo_upload) (rq_body demo_upload)
      (Upload ''/../../web/x'') = (res, t, effs)"
    by (metis prod_cases3)
  have "effs = [Make_directory ''./uploads'', Write_file ''./uploads//../../web/x.tar.gz'' ''data'']"
    using d by (simp add: dispatch_def upload_archive_def demo_env_def demo_upload_def Let_def case_prod_unfold)
  then have "(Write_file ''./uploads//../../web/x.tar.gz'' ''data'') \<in> set eff"
    using run api_answer_route [OF route _ d]
    by (auto simp: do_accept_def upload_library_def body_limit_def handle_request_def handle_def demo_upload_def Let_def split: sum.splits prod.splits)
  from run this uploads_bounded [OF lim run this] show ?thesis by auto
qed

section \<open>The server in front of the cluster\<close>

text \<open>One connection to the running master: its file system, its UUID, time and random number, its bytes.\<close>

type_synonym cluster_call = "gateway_env \<times> string \<times> unix_time \<times> nat \<times> accepted"

definition connection_of ::
  "'db sqlite_api \<Rightarrow> (job_request \<Rightarrow> string option) \<Rightarrow> (string \<Rightarrow> bool \<times> job_request)
     \<Rightarrow> cluster_call \<Rightarrow> gateway_env \<times> 'db master master_stub \<times> accepted" where
  "connection_of api to_json of_json =
     (\<lambda>(env, uuid, now, rnd, conn). (env, master_stub_of api to_json of_json uuid now rnd, conn))"

lemma do_accept_call:
  assumes "do_accept lib config env (master_stub_of api tj oj uuid now rnd) m conn = Inr (res, m', effects)"
  shows "\<exists>body. gateway_call api tj oj env uuid now rnd body m m'"
  using assms gateway_call.No_call handle_call
  by (fastforce simp: do_accept_def handle_request_def exn_bind_Inr_iff split: accepted.splits sum.splits if_splits)

text \<open>
  The whole gateway behind its socket refines the cluster.  Any number of connections with any
  bytes, interleaved with nothing else, takes a reachable state of the cluster to a reachable one by
  at most one RPC step per answered connection; so every invariant of the cluster holds after it,
  also when the gateway ended by an exception in between.
\<close>

theorem server_refines_cluster:
  assumes "reachable api to_json of_json srt c"
    and "serve lib config (cl_master c) (map (connection_of api to_json of_json) calls) = (replies, m', effects, ended)"
  shows "\<exists>n \<le> length replies. (cluster_step api to_json of_json srt ^^ n) c (c\<lparr>cl_master := m'\<rparr>) \<and>
    reachable api to_json of_json srt (c\<lparr>cl_master := m'\<rparr>)"
  using assms
proof (induction calls arbitrary: c replies effects)
  case (Cons a calls)
  obtain env uuid now rnd conn where a: "a = (env, uuid, now, rnd, conn)" by (metis prod_cases5)
  let ?stub = "master_stub_of api to_json of_json uuid now rnd"
  show ?case
  proof (cases "do_accept lib config env ?stub (cl_master c) conn")
    case (Inl e)
    then have "m' = cl_master c" using Cons.prems(2) by (simp add: a connection_of_def)
    then show ?thesis using Cons.prems(1) by (intro exI [of _ 0]) simp
  next
    case (Inr r)
    obtain res m1 eff where r: "r = (res, m1, eff)" by (cases r)
    obtain rs u effs en where rest: "serve lib config m1 (map (connection_of api to_json of_json) calls) = (rs, u, effs, en)"
      by (metis prod_cases4)
    then have m': "m' = u" "replies = res # rs" "en = ended"
      using Cons.prems(2) by (simp_all add: a connection_of_def Inr r)
    from do_accept_call [OF Inr [unfolded r]] obtain body where
      "gateway_call api to_json of_json env uuid now rnd body (cl_master c) m1" by blast
    from gateway_call_step [OF this, of srt]
    have step: "(cluster_step api to_json of_json srt)\<^sup>=\<^sup>= c (c\<lparr>cl_master := m1\<rparr>)" .
    then have "reachable api to_json of_json srt (c\<lparr>cl_master := m1\<rparr>)"
      using Cons.prems(1) by (auto intro: reachable.Step)
    from Cons.IH [OF this, of rs effs] rest m' obtain n where n: "n \<le> length rs"
      "(cluster_step api to_json of_json srt ^^ n) (c\<lparr>cl_master := m1\<rparr>) (c\<lparr>cl_master := m'\<rparr>)"
      "reachable api to_json of_json srt (c\<lparr>cl_master := m'\<rparr>)" by auto
    from step show ?thesis
    proof
      assume "c = c\<lparr>cl_master := m1\<rparr>"
      with n m' show ?thesis by (intro exI [of _ n]) auto
    next
      assume "cluster_step api to_json of_json srt c (c\<lparr>cl_master := m1\<rparr>)"
      from relpowp_Suc_I2 [OF this n(2)] n m' show ?thesis by (intro exI [of _ "Suc n"]) auto
    qed
  qed
qed (auto intro!: exI [of _ 0])

theorem server_refines_cluster_witness:
  "\<exists>replies m' effects ended. serve upload_library default_gateway_config (cl_master run3)
     [connection_of ref_api no_json no_parse (demo_env (\<lambda>_. Inl Syntax_error) no_files, ''22222222'', 5, 0, Received ''data'')]
     = (replies, m', effects, ended) \<and> reachable ref_api no_json no_parse std_sort (run3\<lparr>cl_master := m'\<rparr>)"
proof -
  let ?call = "(demo_env (\<lambda>_. Inl Syntax_error) no_files, ''22222222'', 5, 0, Received ''data'') :: cluster_call"
  obtain rs m' eff ended where run: "serve upload_library default_gateway_config (cl_master run3)
      (map (connection_of ref_api no_json no_parse) [?call]) = (rs, m', eff, ended)"
    by (metis prod_cases4)
  from server_refines_cluster [OF run_reachable(3) run] run show ?thesis by auto
qed

end
