(* ===== verification/Entry_Points.thy ===== *)
theory Entry_Points
  imports Config Logging Job_Executor Agent_Daemon Master_Server Http_Server
begin

text \<open>
  The three \<open>main\<close> functions (\<open>master/src/main.cpp\<close>, \<open>agent/src/main.cpp\<close>,
  \<open>gateway/src/main.cpp\<close>): the configuration a process runs with, the addresses that follow from
  it, and how it ends.  Which directories and log files can be created, which files exist and the
  YAML calls are the record \<open>main_env\<close>; that the construction or the start of the service throws is
  an argument.
\<close>

section \<open>Up to the service\<close>

record 'n main_env =
  me_can_open :: "string \<Rightarrow> bool"
  me_mkdir :: "string \<Rightarrow> bool"
  me_exists :: "string \<Rightarrow> bool"
  me_yaml :: "'n yaml_api"

definition config_path_of :: "string \<Rightarrow> string list \<Rightarrow> string" where
  "config_path_of default_path argv = (if length argv > 1 then argv ! 1 else default_path)"

text \<open>
  Logger and configuration; \<open>None\<close> is an exception of \<open>create_directories\<close>, which nothing catches.
  The logger is made before the configuration is read.
\<close>

definition prepare ::
  "'n main_env \<Rightarrow> string \<Rightarrow> string \<Rightarrow> ('n yaml_api \<Rightarrow> string \<Rightarrow> 'c) \<Rightarrow> 'c \<Rightarrow> string list \<Rightarrow> (logger \<times> 'c) option" where
  "prepare env component default_path load default_cfg argv =
     (let config_path = config_path_of default_path argv;
          log = init_logging (me_can_open env) component ''logs'' ''debug''
      in if \<not> me_mkdir env ''config'' \<or> \<not> me_mkdir env ''logs'' then None
         else Some (log, if me_exists env config_path then load (me_yaml env) config_path else default_cfg))"

definition master_prepare :: "'n main_env \<Rightarrow> string list \<Rightarrow> (logger \<times> master_config) option" where
  "master_prepare env = prepare env ''master'' ''config/master.yaml'' load_master_config default_master_config"

definition agent_prepare :: "'n main_env \<Rightarrow> string list \<Rightarrow> (logger \<times> agent_config) option" where
  "agent_prepare env = prepare env ''agent'' ''config/agent.yaml'' load_agent_config default_agent_config"

definition gateway_prepare :: "'n main_env \<Rightarrow> string list \<Rightarrow> (logger \<times> gateway_config) option" where
  "gateway_prepare env = prepare env ''gateway'' ''config/gateway.yaml'' load_gateway_config default_gateway_config"

text \<open>The address the gateway connects to; \<open>master_target\<close> is the one of the agent.\<close>

definition gateway_master_addr :: "gateway_config \<Rightarrow> string" where
  "gateway_master_addr cfg = gc_master_address cfg @ '':'' @ to_string (unat (gc_master_port cfg))"

section \<open>The running process\<close>

text \<open>
  The global pointer to the service with what \<open>signal_handler\<close> and the main thread do.  The master
  waits for its server, the other two sleep in an endless loop.
\<close>

record process =
  pr_serving :: bool
  pr_exit :: "nat option"

datatype process_event = Signal | Wait_returns | Sleep_over

text \<open>The \<open>try\<close> block: with its own \<open>wait()\<close> in the master, with the endless loop in the others.\<close>

definition master_launch :: "master_config \<Rightarrow> string option \<Rightarrow> bool \<Rightarrow> process" where
  "master_launch cfg crash bound = (case crash of
     None \<Rightarrow> (let waits = server_waits (server_start cfg bound new_server_threads)
              in \<lparr>pr_serving = waits, pr_exit = (if waits then None else Some 0)\<rparr>)
   | Some what \<Rightarrow> \<lparr>pr_serving = False, pr_exit = Some 1\<rparr>)"

definition launch :: "string option \<Rightarrow> process" where
  "launch crash = (case crash of
     None \<Rightarrow> \<lparr>pr_serving = True, pr_exit = None\<rparr>
   | Some what \<Rightarrow> \<lparr>pr_serving = False, pr_exit = Some 1\<rparr>)"

text \<open>
  The \<open>try\<close> blocks of the other two: the gateway opens its server, and the agent makes its working
  directory and registers.
\<close>

definition gateway_launch :: "(string \<Rightarrow> bool) \<Rightarrow> (string \<Rightarrow> u16 \<Rightarrow> bool) \<Rightarrow> gateway_config \<Rightarrow> process" where
  "gateway_launch is_address can_listen cfg =
     launch (case new_http_server is_address can_listen cfg of Inl e \<Rightarrow> Some e | Inr sv \<Rightarrow> None)"

definition agent_launch :: "(string \<Rightarrow> bool) \<Rightarrow> agent_config \<Rightarrow> grpc_status \<Rightarrow> register_node_response \<Rightarrow> process" where
  "agent_launch mkdir cfg status res =
     launch (if \<not> mkdir (ac_work_dir cfg) then Some ''create_directories''
             else case start (new_daemon cfg) status res of Inl e \<Rightarrow> Some e | Inr d \<Rightarrow> None)"

fun master_event :: "process_event \<Rightarrow> process \<Rightarrow> process" where
  "master_event Signal p = p\<lparr>pr_serving := False\<rparr>"
| "master_event Wait_returns p = (if pr_serving p \<or> pr_exit p \<noteq> None then p else p\<lparr>pr_exit := Some 0\<rparr>)"
| "master_event Sleep_over p = p"

fun loop_event :: "process_event \<Rightarrow> process \<Rightarrow> process" where
  "loop_event Signal p = p\<lparr>pr_serving := False\<rparr>"
| "loop_event Wait_returns p = p"
| "loop_event Sleep_over p = p"

section \<open>Properties\<close>

lemma to_string_50051: "to_string 50051 = ''50051''"
  by (simp add: to_string.simps char_of_def bit_0)

text \<open>
  Three processes started without arguments and without configuration files find each other:
  the agent and the gateway call \<open>localhost\<close> at the port on which the master listens on every
  address.  A path on the command line replaces the default one, a file that is missing is the
  same as one that cannot be parsed, and the log directory and the log level of the configuration
  are never used.
\<close>

theorem defaults_connect:
  assumes dirs: "me_mkdir env ''config''" "me_mkdir env ''logs''"
  shows "((\<forall>f. \<not> me_exists env f) \<longrightarrow>
      map_option (server_address \<circ> snd) (master_prepare env [p]) = Some ''0.0.0.0:50051'' \<and>
      map_option (master_target \<circ> snd) (agent_prepare env [p]) = Some ''localhost:50051'' \<and>
      map_option (gateway_master_addr \<circ> snd) (gateway_prepare env [p]) = Some ''localhost:50051'') \<and>
    (me_exists env file \<longrightarrow> map_option snd (master_prepare env (p # file # args)) = Some (load_master_config (me_yaml env) file)) \<and>
    (yaml_load (me_yaml env) file = None \<longrightarrow>
      map_option snd (master_prepare env (p # file # args)) = Some default_master_config) \<and>
    map_option fst (master_prepare env argv) = Some (init_logging (me_can_open env) ''master'' ''logs'' ''debug'')"
  using dirs to_string_50051
  by (simp add: master_prepare_def agent_prepare_def gateway_prepare_def prepare_def config_path_of_def Let_def
      server_address_def master_target_def gateway_master_addr_def default_master_config_def
      default_agent_config_def default_gateway_config_def load_master_config_def load_section_def)

definition bare_env :: "unit main_env" where
  "bare_env = \<lparr>me_can_open = (\<lambda>_. False), me_mkdir = (\<lambda>_. True), me_exists = (\<lambda>_. False),
     me_yaml = \<lparr>yaml_load = (\<lambda>_. None), yaml_sub = (\<lambda>_ _. None), as_string = (\<lambda>_. None), as_int = (\<lambda>_. None),
       as_double = (\<lambda>_. None), as_bool = (\<lambda>_. None)\<rparr>\<rparr>"

theorem defaults_connect_witness:
  "map_option (gateway_master_addr \<circ> snd) (gateway_prepare bare_env [''certosc-gateway'']) = Some ''localhost:50051''"
  using defaults_connect [THEN conjunct1, THEN mp, of bare_env "''certosc-gateway''"] by (simp add: bare_env_def)

lemma fold_loop_event:
  "pr_exit (fold loop_event evs p) = pr_exit p"
  "pr_serving (fold loop_event evs p) \<longleftrightarrow> pr_serving p \<and> Signal \<notin> set evs"
proof (induction evs arbitrary: p)
  case (Cons e evs)
  { case 1 show ?case using Cons(1) by (cases e) simp_all }
  { case 2 show ?case using Cons(2) by (cases e) simp_all }
qed simp_all

lemma master_event_done: "pr_exit p \<noteq> None \<Longrightarrow> pr_exit (fold master_event evs p) = pr_exit p"
proof (induction evs arbitrary: p)
  case (Cons e evs)
  then show ?case by (cases e) auto
qed simp

lemma master_event_stopped: "\<not> pr_serving p \<Longrightarrow> \<not> pr_serving (fold master_event evs p)"
proof (induction evs arbitrary: p)
  case (Cons e evs)
  then show ?case by (cases e) auto
qed simp

text \<open>
  How the processes end.  A service that throws at its start ends the process with code 1.  A
  signal stops the master, which then exits with code 0 once its server has shut down; it exits with
  code 0 at once, too, when its port could not be bound, as \<open>wait()\<close> does not block without a
  server.  The gateway and the agent stop serving at a signal but never exit, whatever happens
  afterwards: their main threads sleep in a loop without a condition.
\<close>

theorem signal_ends_master_only:
  "pr_exit (fold loop_event evs (launch (Some what))) = Some 1 \<and>
   pr_exit (fold master_event evs (master_launch cfg (Some what) bound)) = Some 1 \<and>
   pr_exit (fold master_event evs (master_launch cfg None False)) = Some 0 \<and>
   pr_exit (fold master_event (evs1 @ Signal # evs2 @ Wait_returns # evs3) (master_launch cfg None True)) = Some 0 \<and>
   pr_exit (fold loop_event evs (launch None)) = None \<and>
   (pr_serving (fold loop_event evs (launch None)) \<longleftrightarrow> Signal \<notin> set evs)"
proof (intro conjI)
  show "pr_exit (fold loop_event evs (launch (Some what))) = Some 1" "pr_exit (fold loop_event evs (launch None)) = None"
    "pr_serving (fold loop_event evs (launch None)) \<longleftrightarrow> Signal \<notin> set evs"
    by (simp_all add: fold_loop_event launch_def)
  show "pr_exit (fold master_event evs (master_launch cfg (Some what) bound)) = Some 1"
    "pr_exit (fold master_event evs (master_launch cfg None False)) = Some 0"
    by (simp_all add: master_event_done master_launch_def server_waits_def server_start_def)
  have exit_code: "pr_exit (fold master_event evs p) \<in> {None, Some 0}" if "pr_exit p \<in> {None, Some 0}" for evs p
    using that
  proof (induction evs arbitrary: p)
    case (Cons e evs)
    then show ?case by (cases e) auto
  qed simp
  let ?start = "master_launch cfg None True"
  let ?p = "fold master_event evs2 (master_event Signal (fold master_event evs1 ?start))"
  have "\<not> pr_serving ?p" by (rule master_event_stopped) simp
  moreover have "pr_exit ?p \<in> {None, Some 0}"
    using exit_code [of ?start "evs1 @ Signal # evs2"]
    by (simp add: master_launch_def server_waits_def server_start_def)
  ultimately have "pr_exit (master_event Wait_returns ?p) = Some 0" by auto
  then show "pr_exit (fold master_event (evs1 @ Signal # evs2 @ Wait_returns # evs3) ?start) = Some 0"
    using master_event_done [of "master_event Wait_returns ?p" evs3] by simp
qed

text \<open>
  What ends the gateway and the agent at their start: an address that does not parse or a port
  that is taken, and a working directory that cannot be made or a master that does not answer the
  registration.  The agent does not retry.
\<close>

lemma launch_fails:
  "pr_exit (gateway_launch is_address can_listen cfg) = Some 1 \<longleftrightarrow>
     \<not> is_address (gc_bind_address cfg) \<or> \<not> can_listen (gc_bind_address cfg) (gc_http_port cfg)"
  "pr_exit (agent_launch mkdir acfg status res) = Some 1 \<longleftrightarrow>
     \<not> mkdir (ac_work_dir acfg) \<or> \<not> status_ok status \<or> \<not> rr_success res"
  by (auto simp: gateway_launch_def agent_launch_def launch_def new_http_server_def start_def new_daemon_def
      register_reply_def)

end
