(* ===== verification/Agent_Process.thy ===== *)
theory Agent_Process
  imports Agent_Daemon
begin

text \<open>
  A running agent process (\<open>agent/src/agent_daemon.cpp\<close>, \<open>agent/src/job_executor.cpp\<close>) as a set of
  threads over the shared \<open>AgentDaemon\<close>: the heartbeat loop, the polling loop and one execution thread
  per job.  A step is what a thread does between two points where the others can run: one RPC, one
  section under the mutex of the executor, or one answer of the operating system.  An RPC arrives and
  is answered, or its answer or the call itself is lost.
\<close>

section \<open>Threads\<close>

text \<open>
  How far an execution thread is: before the fork, before the registration of the pid, before the start
  report, before the end of the child, between \<open>waitpid\<close> and the removal from the table, and before
  the last report.
\<close>

datatype exec_phase = Spawned | Forked | Pid_known | Announced | Reaped | Finished job_result

record exec_thread =
  th_job :: string
  th_spec :: job_spec
  th_os :: os_run \<comment> \<open>the answers it will get\<close>
  th_phase :: exec_phase

record agent_process =
  ap_daemon :: agent_daemon
  ap_cancels :: "string list" \<comment> \<open>what the heartbeat loop has still to cancel\<close>
  ap_offer :: "(grpc_status \<times> fetch_job_response) option" \<comment> \<open>what the polling loop was answered\<close>
  ap_threads :: "exec_thread list"
  ap_signals :: "int list" \<comment> \<open>the pids sent \<open>SIGTERM\<close> so far\<close>

definition new_process :: "agent_config \<Rightarrow> agent_process" where
  "new_process cfg = \<lparr>ap_daemon = new_daemon cfg, ap_cancels = [], ap_offer = None, ap_threads = [], ap_signals = []\<rparr>"

definition new_threads :: "os_run \<Rightarrow> (string \<times> job_spec) option \<Rightarrow> exec_thread list" where
  "new_threads os spawn = (case spawn of None \<Rightarrow> []
     | Some (i, spec) \<Rightarrow> [\<lparr>th_job = i, th_spec = spec, th_os = os, th_phase = Spawned\<rparr>])"

abbreviation executor_of :: "agent_process \<Rightarrow> job_executor" where
  "executor_of a \<equiv> ad_executor (ap_daemon a)"

definition with_executor :: "job_executor \<Rightarrow> agent_process \<Rightarrow> agent_process" where
  "with_executor ex a = a\<lparr>ap_daemon := (ap_daemon a)\<lparr>ad_executor := ex\<rparr>\<rparr>"

definition signals_of :: "int option \<Rightarrow> int list" where
  "signals_of p = (case p of None \<Rightarrow> [] | Some pid \<Rightarrow> [pid])"

definition delivered :: "'db master \<Rightarrow> unix_time \<Rightarrow> agent_report option \<Rightarrow> 'db master" where
  "delivered m now r = (case r of None \<Rightarrow> m | Some rep \<Rightarrow> deliver m now rep)"

text \<open>
  With \<open>faults\<close> a call or its answer can be lost and the daemon can be stopped; without, every message
  arrives.  A thread whose sandbox cannot be made has no step of its own: it ends the process, which is
  a step of the whole system.
\<close>

inductive agent_step_in :: "bool \<Rightarrow> 'db master \<Rightarrow> agent_process \<Rightarrow> 'db master \<Rightarrow> agent_process \<Rightarrow> bool"
  for faults where
  \<comment> \<open>the main thread\<close>
  Register: "\<not> ad_active (ap_daemon a) \<Longrightarrow>
    register_node_rpc m uuid now (start_request (ap_daemon a)) = (st, res, m') \<Longrightarrow>
    start (ap_daemon a) st res = Inr d' \<Longrightarrow> agent_step_in faults m a m' (a\<lparr>ap_daemon := d'\<rparr>)"
| Register_lost: "\<not> ad_active (ap_daemon a) \<Longrightarrow>
    register_node_rpc m uuid now (start_request (ap_daemon a)) = (st, res, m') \<Longrightarrow> faults \<Longrightarrow>
    agent_step_in faults m a m' a"
| Stop: "faults \<Longrightarrow> agent_step_in faults m a m (a\<lparr>ap_daemon := stop (ap_daemon a)\<rparr>)"
  \<comment> \<open>the heartbeat loop\<close>
| Beat: "ad_active (ap_daemon a) \<Longrightarrow> ap_cancels a = [] \<Longrightarrow>
    heartbeat_begin h now (ap_daemon a) = Some (hb, d') \<Longrightarrow>
    send_heartbeat_rpc m later hb = (st, answer, m') \<Longrightarrow> got = st \<or> faults \<and> \<not> status_ok got \<Longrightarrow>
    agent_step_in faults m a m' (a\<lparr>ap_daemon := d', ap_cancels := snd (heartbeat_reply got answer)\<rparr>)"
| Beat_unsent: "ad_active (ap_daemon a) \<Longrightarrow> ap_cancels a = [] \<Longrightarrow>
    heartbeat_begin h now (ap_daemon a) = Some (hb, d') \<Longrightarrow> faults \<Longrightarrow>
    agent_step_in faults m a m (a\<lparr>ap_daemon := d'\<rparr>)"
| Kill: "ap_cancels a = i # is \<Longrightarrow>
    agent_step_in faults m a m (a\<lparr>ap_cancels := is, ap_signals := ap_signals a @ signals_of (cancel (executor_of a) i)\<rparr>)"
  \<comment> \<open>the polling loop\<close>
| Fetch: "ad_active (ap_daemon a) \<Longrightarrow> ap_offer a = None \<Longrightarrow>
    fetch_job_rpc m (ad_node_id (ap_daemon a)) = (st, offer) \<Longrightarrow>
    agent_step_in faults m a m (a\<lparr>ap_offer := Some (st, offer)\<rparr>)"
| Poll: "ap_offer a = Some (st, offer) \<Longrightarrow> poll (ap_daemon a) st offer = (spawn, d') \<Longrightarrow>
    agent_step_in faults m a m (a\<lparr>ap_daemon := d', ap_offer := None, ap_threads := ap_threads a @ new_threads os spawn\<rparr>)"
  \<comment> \<open>an execution thread\<close>
| Fork: "ap_threads a = xs @ th # ys \<Longrightarrow> th_phase th = Spawned \<Longrightarrow>
    early_failure (th_job th) (th_os th) = None \<Longrightarrow> \<not> sandbox_throws (th_os th) (th_spec th) \<Longrightarrow>
    agent_step_in faults m a m (a\<lparr>ap_threads := xs @ th\<lparr>th_phase := Forked\<rparr> # ys\<rparr>)"
| Fork_failed: "ap_threads a = xs @ th # ys \<Longrightarrow> th_phase th = Spawned \<Longrightarrow>
    early_failure (th_job th) (th_os th) = Some r \<Longrightarrow> \<not> sandbox_throws (th_os th) (th_spec th) \<Longrightarrow>
    agent_step_in faults m a m (a\<lparr>ap_threads := xs @ th\<lparr>th_phase := Finished r\<rparr> # ys\<rparr>)"
| Register_pid: "ap_threads a = xs @ th # ys \<Longrightarrow> th_phase th = Forked \<Longrightarrow>
    agent_step_in faults m a m (with_executor (register_pid (executor_of a) (th_job th) (os_fork (th_os th)))
      (a\<lparr>ap_threads := xs @ th\<lparr>th_phase := Pid_known\<rparr> # ys\<rparr>))"
| Announce: "ap_threads a = xs @ th # ys \<Longrightarrow> th_phase th = Pid_known \<Longrightarrow>
    m' = delivered m now (callback (ap_daemon a) (Started (th_job th) (os_fork (th_os th)))) \<or> faults \<and> m' = m \<Longrightarrow>
    agent_step_in faults m a m' (a\<lparr>ap_threads := xs @ th\<lparr>th_phase := Announced\<rparr> # ys\<rparr>)"
| Reap: "ap_threads a = xs @ th # ys \<Longrightarrow> th_phase th = Announced \<Longrightarrow> os_ends (th_os th) \<Longrightarrow>
    agent_step_in faults m a m (a\<lparr>ap_threads := xs @ th\<lparr>th_phase := Reaped\<rparr> # ys\<rparr>)"
| Remove: "ap_threads a = xs @ th # ys \<Longrightarrow> th_phase th = Reaped \<Longrightarrow>
    agent_step_in faults m a m (with_executor (deregister (executor_of a) (th_job th))
      (a\<lparr>ap_threads := xs @ th\<lparr>th_phase := Finished (exit_result (th_job th) (th_os th))\<rparr> # ys\<rparr>))"
| Report: "ap_threads a = xs @ th # ys \<Longrightarrow> th_phase th = Finished r \<Longrightarrow>
    m' = delivered m now (callback (ap_daemon a) (Completed r)) \<or> faults \<and> m' = m \<Longrightarrow>
    agent_step_in faults m a m' (a\<lparr>ap_threads := xs @ ys\<rparr>)"

abbreviation agent_step :: "'db master \<Rightarrow> agent_process \<Rightarrow> 'db master \<Rightarrow> agent_process \<Rightarrow> bool" where
  "agent_step \<equiv> agent_step_in True"

lemma agent_step_faults: "agent_step_in faults m a m' a' \<Longrightarrow> agent_step m a m' a'"
  by (induction rule: agent_step_in.induct) (auto intro: agent_step_in.intros)

inductive_cases agent_stepE: "agent_step m a m' a'"

section \<open>The threads and the table of running jobs\<close>

text \<open>From its start until \<open>Remove\<close> a thread holds the entry of its job.\<close>

definition holds_entry :: "exec_thread \<Rightarrow> bool" where
  "holds_entry th \<longleftrightarrow> th_phase th \<in> {Spawned, Forked, Pid_known, Announced, Reaped}"

definition entry_pid :: "exec_thread \<Rightarrow> int" where
  "entry_pid th = (if th_phase th \<in> {Pid_known, Announced, Reaped} then os_fork (th_os th) else 0)"

definition held :: "exec_thread list \<Rightarrow> running_job table" where
  "held ths = map (\<lambda>th. (th_job th, \<lparr>rj_pid = entry_pid th\<rparr>)) (filter holds_entry ths)"

text \<open>An entry that no thread holds is left over from a failed start; it has no pid.\<close>

definition entry_ok :: "running_job option \<Rightarrow> running_job option \<Rightarrow> bool" where
  "entry_ok h e \<longleftrightarrow> (case h of Some rj \<Rightarrow> e = Some rj | None \<Rightarrow> e \<in> {None, Some \<lparr>rj_pid = 0\<rparr>})"

definition threads_ok :: "running_job table \<Rightarrow> exec_thread list \<Rightarrow> bool" where
  "threads_ok t ths \<longleftrightarrow> distinct (map fst t) \<and> distinct (map fst (held ths)) \<and>
     (\<forall>i. entry_ok (map_of (held ths) i) (map_of t i))"

text \<open>A thread reports on its own job.\<close>

definition results_ok :: "exec_thread list \<Rightarrow> bool" where
  "results_ok ths \<longleftrightarrow> (\<forall>th\<in>set ths. \<forall>r. th_phase th = Finished r \<longrightarrow> res_job_id r = th_job th)"

definition process_ok :: "agent_process \<Rightarrow> bool" where
  "process_ok a \<longleftrightarrow> threads_ok (running_jobs (executor_of a)) (ap_threads a) \<and> results_ok (ap_threads a)"

lemmas phase_defs = holds_entry_def entry_pid_def

lemma held_simps [simp]:
  "held [] = []" "held (xs @ ys) = held xs @ held ys"
  "held (th # ths) = (if holds_entry th then [(th_job th, \<lparr>rj_pid = entry_pid th\<rparr>)] else []) @ held ths"
  by (simp_all add: held_def)

lemma entry_ok_simps [simp]:
  "entry_ok None None" "entry_ok None (Some rj) \<longleftrightarrow> rj = \<lparr>rj_pid = 0\<rparr>" "entry_ok (Some rj) e \<longleftrightarrow> e = Some rj"
  "entry_ok h None \<longleftrightarrow> h = None"
  by (auto simp: entry_ok_def split: option.split)

lemma process_ok_new [simp]: "process_ok (new_process cfg)"
  by (simp add: process_ok_def threads_ok_def results_ok_def new_process_def new_daemon_def new_executor_def)

lemma map_of_middle:
  "distinct (map fst (xs @ (i, v) # ys)) \<Longrightarrow> map_of (xs @ (i, v) # ys) = (map_of (xs @ ys))(i \<mapsto> v)
     \<and> map_of (xs @ ys) i = None"
  by (auto simp: fun_eq_iff map_add_def map_of_eq_None_iff image_iff split: option.split)

text \<open>The ways the table and the threads change together.\<close>

lemma threads_ok_spawn:
  assumes "threads_ok t ths" "map_of t i = None" "th_job th = i" "th_phase th = Spawned"
  shows "threads_ok (AList.update i \<lparr>rj_pid = 0\<rparr> t) (ths @ [th])"
proof -
  from assms(1,2) have "map_of (held ths) i = None"
    by (auto simp: threads_ok_def dest!: spec [of _ i] simp del: map_of_eq_Some_iff)
  moreover from this have "i \<notin> fst ` set (held ths)" by (simp add: map_of_eq_None_iff)
  moreover have "map_of (held ths @ [(i, v)]) = (map_of (held ths))(i \<mapsto> v)" for v
    using calculation by (intro ext) (simp add: map_add_def split: option.split)
  ultimately show ?thesis
    using assms by (simp add: threads_ok_def distinct_update table_simps phase_defs)
qed

lemma threads_ok_phase:
  assumes "threads_ok t (xs @ th # ys)" "holds_entry th" "holds_entry (th\<lparr>th_phase := p\<rparr>)"
    "entry_pid (th\<lparr>th_phase := p\<rparr>) = entry_pid th"
  shows "threads_ok t (xs @ th\<lparr>th_phase := p\<rparr> # ys)"
  using assms by (simp add: threads_ok_def)

lemma threads_ok_change:
  assumes "threads_ok t (xs @ th # ys)" "holds_entry th" "distinct (map fst t')"
    and "\<And>k. map_of t' k = (if k = th_job th then v else map_of t k)"
    and "v = (if holds_entry th' then Some \<lparr>rj_pid = entry_pid th'\<rparr> else v)" "holds_entry th' \<or> v \<in> {None, Some \<lparr>rj_pid = 0\<rparr>}"
    and "th_job th' = th_job th"
  shows "threads_ok t' (xs @ th' # ys)"
proof -
  have d: "distinct (map fst (held xs @ (th_job th, w) # held ys))" for w
    using assms(1,2) by (simp add: threads_ok_def)
  define H where "H = map_of (held (xs @ ys))"
  have middle: "map_of (held (xs @ u # ys)) = (if holds_entry u then H(th_job u \<mapsto> \<lparr>rj_pid = entry_pid u\<rparr>) else H)"
    if "th_job u = th_job th" for u
    using map_of_middle [OF d] that by (simp add: H_def)
  have H: "H (th_job th) = None" using map_of_middle [OF d] by (simp add: H_def)
  have old: "entry_ok (if k = th_job th then Some \<lparr>rj_pid = entry_pid th\<rparr> else H k) (map_of t k)" for k
    using assms(1,2) middle [of th] by (auto simp: threads_ok_def simp del: held_simps map_of_eq_Some_iff dest!: spec [of _ k])
  have "entry_ok (map_of (held (xs @ th' # ys)) k) (map_of t' k)" for k
    using old [of k] assms(4-7) H
    by (cases "k = th_job th") (auto simp: middle simp del: held_simps map_of_eq_Some_iff split: if_splits)
  moreover have "distinct (map fst (held (xs @ th' # ys)))" using d assms(7) by auto
  ultimately show ?thesis
    using assms(3) by (simp add: threads_ok_def del: held_simps)
qed

lemma threads_ok_end:
  assumes "threads_ok t (xs @ th # ys)" "th_phase th = Finished r"
  shows "threads_ok t (xs @ ys)"
  using assms by (simp add: threads_ok_def phase_defs)

lemma daemon_executors [simp]:
  "start d st res = Inr d' \<Longrightarrow> ad_executor d' = ad_executor d"
  "ad_executor (stop d) = ad_executor d"
  "heartbeat_begin h now d = Some (hb, d') \<Longrightarrow> ad_executor d' = ad_executor d"
  "executor_of (with_executor ex a) = ex" "ap_threads (with_executor ex a) = ap_threads a"
  by (auto simp: start_def stop_def heartbeat_begin_def with_executor_def split: if_splits option.splits)

text \<open>The entry of a thread that holds one.\<close>

lemma threads_okD:
  assumes "threads_ok t ths" "th \<in> set ths" "holds_entry th"
  shows "map_of t (th_job th) = Some \<lparr>rj_pid = entry_pid th\<rparr>"
proof -
  have "map_of (held ths) (th_job th) = Some \<lparr>rj_pid = entry_pid th\<rparr>"
    using assms by (auto simp: threads_ok_def held_def)
  then show ?thesis using assms(1) by (auto simp: threads_ok_def dest!: spec [of _ "th_job th"])
qed

lemma step_threads_ok:
  assumes "agent_step m a m' a'" "threads_ok (running_jobs (executor_of a)) (ap_threads a)"
  shows "threads_ok (running_jobs (executor_of a')) (ap_threads a')"
  using assms
proof (induction rule: agent_step_in.induct)
  case (Poll a st offer spawn d' m os)
  show ?case
  proof (cases spawn)
    case None
    then show ?thesis using Poll 
      by (auto simp: poll_def new_threads_def execute_async_def case_prod_unfold Let_def split: option.splits if_splits)
  next
    case (Some e)
    then obtain i spec where "spawn = Some (i, spec)" "map_of (running_jobs (executor_of a)) i = None"
      "running_jobs (ad_executor d') = AList.update i \<lparr>rj_pid = 0\<rparr> (running_jobs (executor_of a))"
      using Poll(2) by (auto simp: poll_def execute_async_def Let_def split: option.splits if_splits)
    then show ?thesis using threads_ok_spawn Poll(3) by (simp add: new_threads_def)
  qed
next
  case (Fork_failed a xs th ys r m)
  then have "map_of (running_jobs (executor_of a)) (th_job th) = Some \<lparr>rj_pid = 0\<rparr>"
    using threads_okD [of _ _ th] by (simp add: phase_defs)
  moreover have ok: "threads_ok (running_jobs (executor_of a)) (xs @ th # ys)"
    using Fork_failed by simp
  ultimately have "threads_ok (running_jobs (executor_of a)) (xs @ th\<lparr>th_phase := Finished r\<rparr> # ys)"
    by (intro threads_ok_change [OF ok, of _ "Some \<lparr>rj_pid = 0\<rparr>"])
       (use Fork_failed(2) in \<open>auto simp: phase_defs threads_ok_def\<close>)
  then show ?case by simp
next
  case (Register_pid a xs th ys m)
  then have "map_of (running_jobs (executor_of a)) (th_job th) = Some \<lparr>rj_pid = 0\<rparr>"
    using threads_okD [of _ _ th] by (simp add: phase_defs)
  moreover have ok: "threads_ok (running_jobs (executor_of a)) (xs @ th # ys)"
    using Register_pid by simp
  ultimately have "threads_ok (running_jobs (register_pid (executor_of a) (th_job th) (os_fork (th_os th)))) (xs @ th\<lparr>th_phase := Pid_known\<rparr> # ys)"
    by (intro threads_ok_change [OF ok, of _ "Some \<lparr>rj_pid = os_fork (th_os th)\<rparr>"])
       (use Register_pid(2) in \<open>auto simp: phase_defs threads_ok_def register_pid_def distinct_update table_simps\<close>)
  then show ?case by simp
next
  case (Remove a xs th ys m)
  then have "map_of (running_jobs (executor_of a)) (th_job th) \<noteq> None"
    using threads_okD [of _ _ th] by (simp add: phase_defs)
  moreover have ok: "threads_ok (running_jobs (executor_of a)) (xs @ th # ys)"
    using Remove by simp
  ultimately have "threads_ok (running_jobs (deregister (executor_of a) (th_job th))) (xs @ th\<lparr>th_phase := Finished (exit_result (th_job th) (th_os th))\<rparr> # ys)"
    by (intro threads_ok_change [OF ok, of _ "None"])
       (use Remove(2) in \<open>auto simp: phase_defs threads_ok_def deregister_def distinct_delete table_simps\<close>)
  then show ?case by simp
qed (simp_all add: threads_ok_phase threads_ok_end phase_defs)

lemma early_failure_id: "early_failure i os = Some r \<Longrightarrow> res_job_id r = i"
  by (auto simp: early_failure_def Let_def split: if_splits)

lemma step_results_ok:
  assumes "agent_step m a m' a'" "results_ok (ap_threads a)"
  shows "results_ok (ap_threads a')"
  using assms
proof (induction rule: agent_step_in.induct)
  case (Poll a st offer spawn d' m os)
  then show ?case by (auto simp: results_ok_def new_threads_def split: option.splits)
qed (auto simp: results_ok_def exit_result_code early_failure_id)

lemma step_process_ok: "agent_step m a m' a' \<Longrightarrow> process_ok a \<Longrightarrow> process_ok a'"
  by (simp add: process_ok_def step_threads_ok step_results_ok)

section \<open>Consequences for cancelling and starting\<close>

lemma process_okD:
  assumes "process_ok a" "th \<in> set (ap_threads a)" "holds_entry th"
  shows "map_of (running_jobs (executor_of a)) (th_job th) = Some \<lparr>rj_pid = entry_pid th\<rparr>"
  using assms threads_okD by (auto simp: process_ok_def)

lemma cancel_hits_thread:
  assumes "process_ok a" "cancel (executor_of a) i = Some p"
  shows "\<exists>th\<in>set (ap_threads a). th_job th = i \<and> th_phase th \<in> {Pid_known, Announced, Reaped} \<and> os_fork (th_os th) = p"
proof -
  obtain rj where rj: "map_of (running_jobs (executor_of a)) i = Some rj" "rj_pid rj = p" "p > 0"
    using assms(2) by (auto simp: cancel_def split: option.splits if_splits)
  then have "map_of (held (ap_threads a)) i = Some rj"
    using assms(1) by (cases "map_of (held (ap_threads a)) i")
      (auto simp: process_ok_def threads_ok_def dest!: spec [of _ i] simp del: map_of_eq_Some_iff)
  then obtain th where "th \<in> set (ap_threads a)" "holds_entry th" "th_job th = i" "rj = \<lparr>rj_pid = entry_pid th\<rparr>"
    by (auto simp: held_def dest!: map_of_SomeD)
  with rj show ?thesis by (intro bexI [of _ th]) (auto simp: phase_defs split: if_splits)
qed

lemma in_held:
  assumes "holds_entry th" "th \<in> set ths"
  shows "th_job th \<in> fst ` set (held ths)"
proof -
  have "fst ` set (held ths) = th_job ` {th \<in> set ths. holds_entry th}" by (simp add: held_def image_image)
  with assms show ?thesis by simp
qed

lemma one_holder:
  assumes "process_ok a" "ap_threads a = xs @ th # ys" "holds_entry th" "th' \<in> set (xs @ ys)" "th_job th' = th_job th"
  shows "\<not> holds_entry th'"
proof
  assume "holds_entry th'"
  then have "th_job th \<in> fst ` set (held (xs @ ys))"
    using in_held [of th' "xs @ ys"] assms(4,5) by simp
  moreover have "distinct (map fst (held xs @ (th_job th, \<lparr>rj_pid = entry_pid th\<rparr>) # held ys))"
    using assms(1-3) by (simp add: process_ok_def threads_ok_def)
  ultimately show False by auto
qed

section \<open>A thread alone\<close>

text \<open>Steps of one agent in which every message arrives.\<close>

definition agent_pair :: "'db master \<times> agent_process \<Rightarrow> 'db master \<times> agent_process \<Rightarrow> bool" where
  "agent_pair = (\<lambda>(m, a) (m', a'). agent_step_in False m a m' a')"

lemma callback_with_executor [simp]: "callback (d\<lparr>ad_executor := ex\<rparr>) e = callback d e"
  by (cases e) simp_all

lemma delivered_callback: "delivered m now (callback d e) = deliver_all m now d [e]"
  by (simp add: delivered_def split: option.split)

lemma with_executor_fields [simp]:
  "ap_threads (with_executor ex a) = ap_threads a" "ap_daemon (with_executor ex a) = (ap_daemon a)\<lparr>ad_executor := ex\<rparr>"
  "ap_offer (with_executor ex a) = ap_offer a" "ap_cancels (with_executor ex a) = ap_cancels a"
  "with_executor ex (with_executor ex' a) = with_executor ex a"
  "(with_executor ex a)\<lparr>ap_threads := ths\<rparr> = with_executor ex (a\<lparr>ap_threads := ths\<rparr>)"
  "with_executor (executor_of a) a = a" "with_executor (executor_of a) (a\<lparr>ap_threads := ths\<rparr>) = a\<lparr>ap_threads := ths\<rparr>"
  by (simp_all add: with_executor_def)

text \<open>
  A thread that returns and runs from its start with no other step in between does to the master, the
  table and the threads what \<open>execution_thread\<close> and its callbacks do.
\<close>

lemma thread_alone:
  assumes th: "ap_threads a = xs @ th # ys" "th_phase th = Spawned"
    and run: "execution_thread id id (th_os th) (executor_of a) (th_job th) (th_spec th) = (Returned, ex, evs)"
  shows "agent_pair\<^sup>*\<^sup>* (m, a) (deliver_all m now (ap_daemon a) evs, with_executor ex (a\<lparr>ap_threads := xs @ ys\<rparr>))"
proof -
  have no_throw: "\<not> sandbox_throws (th_os th) (th_spec th)" using run by (auto simp: execution_thread_def)
  show ?thesis
  proof (cases "early_failure (th_job th) (th_os th)")
    case (Some r)
    let ?a1 = "a\<lparr>ap_threads := xs @ th\<lparr>th_phase := Finished r\<rparr> # ys\<rparr>"
    have "agent_pair (m, a) (m, ?a1)"
      using agent_step_in.Fork_failed [OF th Some no_throw] by (simp add: agent_pair_def)
    moreover have "agent_pair (m, ?a1) (deliver_all m now (ap_daemon a) [Completed r], a\<lparr>ap_threads := xs @ ys\<rparr>)"
      using agent_step_in.Report [of ?a1 xs "th\<lparr>th_phase := Finished r\<rparr>" ys r _ m now False]
      by (simp add: agent_pair_def delivered_callback del: deliver_all_simps callback.simps)
    moreover have "ex = executor_of a" "evs = [Completed r]"
      using run Some no_throw by (simp_all add: execution_thread_def)
    ultimately show ?thesis
      by (simp add: converse_rtranclp_into_rtranclp del: deliver_all_simps)
  next
    case None
    let ?i = "th_job th" and ?p = "os_fork (th_os th)" and ?d = "ap_daemon a"
    let ?at = "\<lambda>ph ex. with_executor ex (a\<lparr>ap_threads := xs @ th\<lparr>th_phase := ph\<rparr> # ys\<rparr>)"
    define ex0 ex1 r where "ex0 = executor_of a" and "ex1 = register_pid ex0 ?i ?p" and "r = exit_result ?i (th_os th)"
    define m1 where "m1 = deliver_all m now ?d [Started ?i ?p]"
    obtain cs where ex: "ex = deregister ex1 ?i" "os_ends (th_os th)"
      and evs: "evs = Started ?i ?p # map (\<lambda>c. Log_chunk ?i (c_str c)) cs @ [Completed r]"
      using run None no_throw
      by (auto simp: execution_thread_def Let_def ex0_def ex1_def r_def intro: that [of "[]"] that split: if_splits)
    note trans = converse_rtranclp_into_rtranclp [of agent_pair]
    have s1: "agent_pair (m, a) (m, ?at Forked ex0)"
      using agent_step_in.Fork [OF th None no_throw] by (simp add: agent_pair_def ex0_def with_executor_def)
    have s2: "agent_pair (m, ?at Forked ex0) (m, ?at Pid_known ex1)"
      using agent_step_in.Register_pid [of "?at Forked ex0" xs "th\<lparr>th_phase := Forked\<rparr>" ys False m]
      by (simp add: agent_pair_def ex1_def)
    have s3: "agent_pair (m, ?at Pid_known ex1) (m1, ?at Announced ex1)"
      using agent_step_in.Announce [of "?at Pid_known ex1" xs "th\<lparr>th_phase := Pid_known\<rparr>" ys _ m now False]
      by (simp add: agent_pair_def m1_def delivered_callback del: deliver_all_simps callback.simps)
    have s4: "agent_pair (m1, ?at Announced ex1) (m1, ?at Reaped ex1)"
      using agent_step_in.Reap [of "?at Announced ex1" xs "th\<lparr>th_phase := Announced\<rparr>" ys False m1] ex(2)
      by (simp add: agent_pair_def)
    have s5: "agent_pair (m1, ?at Reaped ex1) (m1, ?at (Finished r) ex)"
      using agent_step_in.Remove [of "?at Reaped ex1" xs "th\<lparr>th_phase := Reaped\<rparr>" ys False m1]
      by (simp add: agent_pair_def ex r_def)
    have s6: "agent_pair (m1, ?at (Finished r) ex) (deliver_all m1 now ?d [Completed r], with_executor ex (a\<lparr>ap_threads := xs @ ys\<rparr>))"
      using agent_step_in.Report [of "?at (Finished r) ex" xs "th\<lparr>th_phase := Finished r\<rparr>" ys r _ m1 now False]
      by (simp add: agent_pair_def delivered_callback del: deliver_all_simps callback.simps)
    have s7: "deliver_all m1 now ?d [Completed r] = deliver_all m now ?d evs"
      by (simp add: evs m1_def)
    show ?thesis
      unfolding s7 [symmetric]
      by (intro s1 [THEN trans] s2 [THEN trans] s3 [THEN trans] s4 [THEN trans] s5 [THEN trans]
          r_into_rtranclp [of agent_pair, OF s6])
  qed
qed

end
