(* ===== verification/Grid.thy ===== *)
theory Grid
  imports Http_Server Agent_Process
begin

text \<open>
  The whole system, the processes that \<open>scripts/run_cluster.sh\<close> starts: one master with its scheduler
  thread, the gateway as its only client, and any number of agent processes on any machines, which
  start, stop and crash at will.  Unlike in \<open>Cluster\<close> the requests are not arbitrary: the master is
  called by the gateway's connection handler and by the agents' own threads only, so what the agents
  send can be relied on.
\<close>

section \<open>The system as a state machine\<close>

record 'db grid =
  gr_cluster :: "'db cluster"
  gr_agents :: "agent_process list"

abbreviation master_of :: "'db grid \<Rightarrow> 'db master" where
  "master_of g \<equiv> cl_master (gr_cluster g)"

definition with_master :: "'db master \<Rightarrow> 'db grid \<Rightarrow> 'db grid" where
  "with_master m g = g\<lparr>gr_cluster := (gr_cluster g)\<lparr>cl_master := m\<rparr>\<rparr>"

text \<open>
  With \<open>faults\<close>, the general case, messages of the agents can be lost and their processes can end at
  any moment; without, every message arrives and no process ends.
\<close>

inductive grid_step_in ::
  "bool \<Rightarrow> http_library \<Rightarrow> gateway_config \<Rightarrow> 'db sqlite_api \<Rightarrow> (job_request \<Rightarrow> string option)
     \<Rightarrow> (string \<Rightarrow> bool \<times> job_request) \<Rightarrow> job_sort \<Rightarrow> 'db grid \<Rightarrow> 'db grid \<Rightarrow> bool"
  for faults lib config api to_json of_json srt where
  Web: "do_accept lib config env (master_stub_of api to_json of_json uuid now rnd) (master_of g) conn = Inr (res, m', effects) \<Longrightarrow>
    grid_step_in faults lib config api to_json of_json srt g (with_master m' g)"
| Pass_begin: "cl_plan (gr_cluster g) = [] \<Longrightarrow> get_pending_jobs (job_mgr (master_of g)) \<noteq> [] \<Longrightarrow>
    grid_step_in faults lib config api to_json of_json srt g
      (g\<lparr>gr_cluster := (gr_cluster g)\<lparr>cl_master := (master_of g)\<lparr>fair_share_mgr := apply_decay (fair_share_mgr (master_of g)) now\<rparr>,
         cl_plan := plan_of srt (master_of g) now\<rparr>\<rparr>)"
| Pass_assign: "cl_plan (gr_cluster g) = (i, n) # plan \<Longrightarrow>
    grid_step_in faults lib config api to_json of_json srt g
      (g\<lparr>gr_cluster := (gr_cluster g)\<lparr>cl_master := (master_of g)\<lparr>job_mgr :=
            snd (update_job_status (job_mgr (master_of g)) now i JOB_STATUS_ASSIGNED n)\<rparr>, cl_plan := plan\<rparr>\<rparr>)"
| Agent: "k < length (gr_agents g) \<Longrightarrow> agent_step_in faults (master_of g) (gr_agents g ! k) m' a' \<Longrightarrow>
    grid_step_in faults lib config api to_json of_json srt g (with_master m' (g\<lparr>gr_agents := (gr_agents g)[k := a']\<rparr>))"
| Launch: "grid_step_in faults lib config api to_json of_json srt g (g\<lparr>gr_agents := gr_agents g @ [new_process cfg]\<rparr>)"
| Process_end: "gr_agents g = xs @ a # ys \<Longrightarrow> faults \<Longrightarrow>
    grid_step_in faults lib config api to_json of_json srt g (g\<lparr>gr_agents := xs @ ys\<rparr>)"

abbreviation grid_step ::
  "http_library \<Rightarrow> gateway_config \<Rightarrow> 'db sqlite_api \<Rightarrow> (job_request \<Rightarrow> string option)
     \<Rightarrow> (string \<Rightarrow> bool \<times> job_request) \<Rightarrow> job_sort \<Rightarrow> 'db grid \<Rightarrow> 'db grid \<Rightarrow> bool" where
  "grid_step \<equiv> grid_step_in True"

lemma grid_step_faults: "grid_step_in faults lib config api tj oj srt g g' \<Longrightarrow> grid_step lib config api tj oj srt g g'"
  by (induction rule: grid_step_in.induct) (auto intro: grid_step_in.intros dest: agent_step_faults)

lemma grid_steps_faults:
  "(grid_step_in faults lib config api tj oj srt)\<^sup>*\<^sup>* g g' \<Longrightarrow> (grid_step lib config api tj oj srt)\<^sup>*\<^sup>* g g'"
  by (rule rtranclp_mono [THEN predicate2D]) (auto intro: grid_step_faults)

inductive_cases grid_stepE: "grid_step lib config api to_json of_json srt g g'"

definition start_grid :: "'db sqlite_api \<Rightarrow> master_config \<Rightarrow> unix_time \<Rightarrow> 'db \<Rightarrow> 'db \<Rightarrow> 'db grid" where
  "start_grid api config now admin jobs = \<lparr>gr_cluster = start_cluster api config now admin jobs, gr_agents = []\<rparr>"

inductive grid_reachable ::
  "http_library \<Rightarrow> gateway_config \<Rightarrow> 'db sqlite_api \<Rightarrow> (job_request \<Rightarrow> string option)
     \<Rightarrow> (string \<Rightarrow> bool \<times> job_request) \<Rightarrow> job_sort \<Rightarrow> 'db grid \<Rightarrow> bool"
  for lib config api to_json of_json srt where
  Start: "grid_reachable lib config api to_json of_json srt (start_grid api mconfig now admin jobs)"
| Step: "grid_reachable lib config api to_json of_json srt g \<Longrightarrow> grid_step lib config api to_json of_json srt g g' \<Longrightarrow>
    grid_reachable lib config api to_json of_json srt g'"

lemma with_master_fields [simp]:
  "gr_cluster (with_master m g) = (gr_cluster g)\<lparr>cl_master := m\<rparr>" "gr_agents (with_master m g) = gr_agents g"
  by (simp_all add: with_master_def)

lemma grid_steps_reachable:
  "(grid_step lib config api tj oj srt)\<^sup>*\<^sup>* g g' \<Longrightarrow> grid_reachable lib config api tj oj srt g \<Longrightarrow>
     grid_reachable lib config api tj oj srt g'"
  by (induction rule: rtranclp_induct) (auto intro: grid_reachable.Step)

text \<open>A submission overwrote a job that had the same id; a run in which none does.\<close>

definition redrawn :: "'db master \<Rightarrow> 'db master \<Rightarrow> bool" where
  "redrawn m m' \<longleftrightarrow> (\<exists>k. get_job (job_mgr m) k \<noteq> None \<and> get_job (job_mgr m') k \<noteq> get_job (job_mgr m) k \<and>
     (\<exists>now spec u un. get_job (job_mgr m') k = Some (new_job_info k now spec u un)))"

definition fresh_step ::
  "bool \<Rightarrow> http_library \<Rightarrow> gateway_config \<Rightarrow> 'db sqlite_api \<Rightarrow> (job_request \<Rightarrow> string option)
     \<Rightarrow> (string \<Rightarrow> bool \<times> job_request) \<Rightarrow> job_sort \<Rightarrow> 'db grid \<Rightarrow> 'db grid \<Rightarrow> bool" where
  "fresh_step faults lib config api to_json of_json srt g g' \<longleftrightarrow>
     grid_step_in faults lib config api to_json of_json srt g g' \<and> \<not> redrawn (master_of g) (master_of g')"

lemma fresh_steps:
  "(fresh_step faults lib config api tj oj srt)\<^sup>*\<^sup>* g g' \<Longrightarrow> (grid_step_in faults lib config api tj oj srt)\<^sup>*\<^sup>* g g'"
  by (rule rtranclp_mono [THEN predicate2D]) (auto simp: fresh_step_def)

lemma fresh_steps_faults:
  "(fresh_step faults lib config api tj oj srt)\<^sup>*\<^sup>* g g' \<Longrightarrow> (fresh_step True lib config api tj oj srt)\<^sup>*\<^sup>* g g'"
  by (rule rtranclp_mono [THEN predicate2D]) (auto simp: fresh_step_def intro: grid_step_faults)

lemma not_redrawn:
  "job_mgr m' = job_mgr m \<Longrightarrow> \<not> redrawn m m'"
  "\<forall>k. get_job (job_mgr m) k = None \<Longrightarrow> \<not> redrawn m m'"
  "job_mgr m' = snd (update_job_status (job_mgr m) now i st n) \<Longrightarrow> st \<noteq> JOB_STATUS_QUEUED \<Longrightarrow> \<not> redrawn m m'"
proof -
  show "job_mgr m' = job_mgr m \<Longrightarrow> \<not> redrawn m m'" "\<forall>k. get_job (job_mgr m) k = None \<Longrightarrow> \<not> redrawn m m'"
    by (simp_all add: redrawn_def)
  assume u: "job_mgr m' = snd (update_job_status (job_mgr m) now i st n)" "st \<noteq> JOB_STATUS_QUEUED"
  have "ji_status (status_update now st n job) = st" for job by simp
  moreover have "ji_status (new_job_info k t spec u un) = JOB_STATUS_QUEUED" for k t spec u un
    by (simp add: new_job_info_def)
  ultimately have "status_update now st n job \<noteq> new_job_info k t spec u un" for job k t spec u un
    using u(2) by metis
  then show "\<not> redrawn m m'" by (auto simp: redrawn_def u(1) get_job_update)
qed

lemma deliver_not_redrawn: "\<not> redrawn m (delivered m now r)"
proof (cases r)
  case (Some rep)
  have "\<exists>i st n. job_mgr (deliver m now rep) = snd (update_job_status (job_mgr m) now i st n) \<and> st \<noteq> JOB_STATUS_QUEUED"
    by (cases rep) (auto simp: report_rpc_eqs intro!: exI)
  then show ?thesis using not_redrawn(3) by (fastforce simp: Some delivered_def)
qed (simp add: delivered_def not_redrawn(1))

section \<open>Refinement of the cluster\<close>

lemma agent_step_cluster:
  assumes "agent_step m a m' a'" "m = cl_master c"
  shows "(cluster_step api tj oj srt)\<^sup>=\<^sup>= c (c\<lparr>cl_master := m'\<rparr>)"
proof -
  have same: "c\<lparr>cl_master := m\<rparr> = c" using assms(2) by simp
  have report: "(cluster_step api tj oj srt)\<^sup>=\<^sup>= c (c\<lparr>cl_master := delivered m now r\<rparr>)" for now r
    using assms(2) same by (auto simp: delivered_def intro: cluster_step.Report split: option.split)
  have rpc: "(cluster_step api tj oj srt) c (c\<lparr>cl_master := snd (snd (register_node_rpc m uuid now r))\<rparr>)"
    "(cluster_step api tj oj srt) c (c\<lparr>cl_master := snd (snd (send_heartbeat_rpc m now hb))\<rparr>)" for uuid now r hb
    using assms(2) by (simp_all add: cluster_step.Register cluster_step.Heartbeat)
  show ?thesis
    using assms(1)
  proof (cases rule: agent_step_in.cases)
    case (Register uuid now st res d')
    then show ?thesis using rpc(1) [of uuid now "start_request (ap_daemon a)"] by simp
  next
    case (Register_lost uuid now st res)
    then show ?thesis using rpc(1) [of uuid now "start_request (ap_daemon a)"] by simp
  next
    case (Beat h now hb d' later st answer got)
    then show ?thesis using rpc(2) [of later hb] by simp
  qed (use same report in auto)
qed

lemma grid_step_cluster:
  "grid_step lib config api tj oj srt g g' \<Longrightarrow> (cluster_step api tj oj srt)\<^sup>=\<^sup>= (gr_cluster g) (gr_cluster g')"
proof (induction rule: grid_step_in.induct)
  case (Web env uuid now rnd g conn res m' effects)
  from do_accept_call [OF this] show ?case using gateway_call_step by fastforce
next
  case (Pass_begin g now)
  then show ?case using cluster_step.Pass_begin [of "gr_cluster g"] by simp
next
  case (Pass_assign g i n plan now)
  then show ?case using cluster_step.Pass_assign [of "gr_cluster g"] by simp
next
  case (Agent k g m' a')
  then show ?case using agent_step_cluster [OF Agent(2) refl] by simp
qed simp_all

lemma grid_reachable_cluster:
  "grid_reachable lib config api tj oj srt g \<Longrightarrow> reachable api tj oj srt (gr_cluster g)"
proof (induction rule: grid_reachable.induct)
  case (Start mconfig now admin jobs)
  then show ?case by (simp add: start_grid_def reachable.Start)
next
  case (Step g g')
  from grid_step_cluster [OF Step(2)] Step(3) show ?case by (auto intro: reachable.Step)
qed

section \<open>Invariants\<close>

definition job_nodes :: "(string \<Rightarrow> bool) \<Rightarrow> 'db job_manager \<Rightarrow> bool" where
  "job_nodes P jm \<longleftrightarrow> (\<forall>k job. get_job jm k = Some job \<longrightarrow> P (ji_assigned_node_id job))"

definition known_node :: "'db master \<Rightarrow> string \<Rightarrow> bool" where
  "known_node m n \<longleftrightarrow> get_node (node_reg m) n \<noteq> None"

definition known_job :: "'db master \<Rightarrow> string \<Rightarrow> bool" where
  "known_job m i \<longleftrightarrow> get_job (job_mgr m) i \<noteq> None"

definition agent_node :: "node_info \<Rightarrow> bool" where
  "agent_node node \<longleftrightarrow> same_host node (announced_info default_agent_config) \<and>
     ni_available_resources node \<in> insert available_resources (range total_resources)"

definition agent_known :: "'db master \<Rightarrow> agent_process \<Rightarrow> bool" where
  "agent_known m a \<longleftrightarrow>
     (ad_active (ap_daemon a) \<or> ap_offer a \<noteq> None \<or> ap_threads a \<noteq> [] \<longrightarrow> known_node m (ad_node_id (ap_daemon a))) \<and>
     (\<forall>th\<in>set (ap_threads a). known_job m (th_job th)) \<and>
     (\<forall>st offer. ap_offer a = Some (st, offer) \<longrightarrow> fj_has_job offer \<longrightarrow> known_job m (fj_job_id offer))"

definition master_fits :: "'db master \<Rightarrow> bool" where
  "master_fits m \<longleftrightarrow> (\<forall>n node. get_node (node_reg m) n = Some node \<longrightarrow> agent_node node) \<and>
     job_nodes (\<lambda>n. n = '''' \<or> known_node m n) (job_mgr m)"

definition grid_ok :: "'db grid \<Rightarrow> bool" where
  "grid_ok g \<longleftrightarrow> master_fits (master_of g) \<and> (\<forall>a\<in>set (gr_agents g). process_ok a \<and> agent_known (master_of g) a)"

lemma job_nodes_ops:
  "job_nodes P jm \<Longrightarrow> P '''' \<Longrightarrow> job_nodes P (snd (submit_job put jm uuid now spec u un))"
  "job_nodes P jm \<Longrightarrow> job_nodes P (snd (cancel_job jm now i))"
  "job_nodes P jm \<Longrightarrow> n = '''' \<or> P n \<Longrightarrow> job_nodes P (snd (update_job_status jm now i st n))"
  by (auto simp: job_nodes_def job_simps new_job_info_def default_job_info_def split: if_splits)

lemma gateway_job_nodes:
  assumes "gateway_call api tj oj env uuid now rnd body m m'" "job_nodes P (job_mgr m)" "P ''''"
  shows "job_nodes P (job_mgr m')" "node_reg m' = node_reg m"
proof -
  have review: "job_nodes P (job_mgr (snd (snd (admin_review_request api tj oj m uuid now rv))))" for rv
    using assms(2,3)
    by (auto simp: admin_review_request_def Let_def job_nodes_ops split: prod.split option.split)
  show "job_nodes P (job_mgr m')"
    using assms review by (auto elim!: gateway_callE simp: job_nodes_ops)
  show "node_reg m' = node_reg m"
    using assms(1) by (auto elim!: gateway_callE)
qed

lemma cluster_known:
  assumes "(cluster_step api tj oj srt)\<^sup>=\<^sup>= c c'" "registry_ok (node_reg (cl_master c))"
  shows "known_job (cl_master c) i \<Longrightarrow> known_job (cl_master c') i"
    and "known_node (cl_master c) n \<Longrightarrow> known_node (cl_master c') n"
proof -
  consider "c' = c" | "cluster_step api tj oj srt c c'" using assms(1) by auto
  then have "(known_job (cl_master c) i \<longrightarrow> known_job (cl_master c') i) \<and> (known_node (cl_master c) n \<longrightarrow> known_node (cl_master c') n)"
  proof cases
    case 2
    show ?thesis
      unfolding known_job_def known_node_def
      using job_effect_known [OF step_effects(1) [OF 2]] node_effect_known [OF step_effects(2) [OF 2] assms(2)] by blast
  qed simp
  then show "known_job (cl_master c) i \<Longrightarrow> known_job (cl_master c') i"
    and "known_node (cl_master c) n \<Longrightarrow> known_node (cl_master c') n" by blast+
qed

lemma agent_known_mono:
  "agent_known m a \<Longrightarrow> (\<And>i. known_job m i \<Longrightarrow> known_job m' i) \<Longrightarrow> (\<And>n. known_node m n \<Longrightarrow> known_node m' n) \<Longrightarrow>
     agent_known m' a"
  by (simp add: agent_known_def)

lemma master_fits_nodes:
  assumes "master_fits m" "job_nodes (\<lambda>n. n = '''' \<or> known_node m n) (job_mgr m')" "node_reg m' = node_reg m"
  shows "master_fits m'"
  using assms by (simp add: master_fits_def known_node_def)

text \<open>The node an agent registers, and its heartbeat.\<close>

lemma agent_registers:
  assumes "register_node_rpc m uuid now (start_request d) = (st, res, m')" "registry_ok (node_reg m)" "master_fits m"
  shows "known_node m' (rr_node_id res)" "master_fits m'" "st = Status_OK" "rr_success res"
    "job_mgr m' = job_mgr m" "known_node m n \<Longrightarrow> known_node m' n"
proof -
  define info where "info = announced_info (ad_config d)"
  note eq = daemon_registers [OF assms(1), folded info_def]
  note reg = get_node_register [OF assms(2), of uuid now info, unfolded eq(3)]
  show "st = Status_OK" "rr_success res" by (fact eq)+
  show "job_mgr m' = job_mgr m" using arg_cong [OF eq(4), of job_mgr] by simp
  show "known_node m' (rr_node_id res)" using reg by (simp add: known_node_def)
  show mono: "known_node m n \<Longrightarrow> known_node m' n" for n using reg by (simp add: known_node_def)
  have host: "same_host info (announced_info default_agent_config)" "ni_total_resources info = total_resources (ad_config d)"
    by (simp_all add: info_def)
  have "agent_node node" if "get_node (node_reg m') n = Some node" for n node
    using that assms(3) reg host
    by (auto simp: master_fits_def agent_node_def re_register_def new_node_def same_host_def split: if_splits option.splits)
  then show "master_fits m'"
    using assms(3) mono \<open>job_mgr m' = job_mgr m\<close> unfolding master_fits_def job_nodes_def by metis
qed

lemma heartbeat_begin_Some:
  assumes "heartbeat_begin h now d = Some (hb, d')"
  shows "\<exists>snap mon. hb = heartbeat_request_of d now snap \<and> d' = d\<lparr>ad_monitor := mon\<rparr>"
proof (cases "collect h (ad_node_id d) (ad_monitor d)")
  case (Some p)
  then have "hb = heartbeat_request_of d now (fst p)" "d' = d\<lparr>ad_monitor := snd p\<rparr>"
    using assms unfolding heartbeat_begin_def by (simp_all add: case_prod_unfold)
  then show ?thesis by blast
qed (use assms in \<open>simp add: heartbeat_begin_def\<close>)

lemma agent_beats:
  assumes "heartbeat_begin h now d = Some (hb, d')" "send_heartbeat_rpc m later hb = (st, answer, m')"
  shows "master_fits m \<Longrightarrow> master_fits m'" "job_mgr m' = job_mgr m" "known_node m' n \<longleftrightarrow> known_node m n"
    "ad_node_id d' = ad_node_id d" "ad_active d' = ad_active d"
    "get_node (node_reg m) (ad_node_id d) = Some node \<Longrightarrow>
      \<exists>node'. get_node (node_reg m') (ad_node_id d) = Some node' \<and> ni_available_resources node' = available_resources"
proof -
  obtain snap mon where "hb = heartbeat_request_of d now snap" "d' = d\<lparr>ad_monitor := mon\<rparr>"
    using heartbeat_begin_Some [OF assms(1)] by blast
  then have hb: "hb_node_id hb = ad_node_id d" "hb_available_resources hb = available_resources"
    and d': "ad_node_id d' = ad_node_id d" "ad_active d' = ad_active d"
    by (simp_all add: heartbeat_request_of_def heartbeat_message_def)
  have m': "node_reg m' = snd (update_heartbeat (node_reg m) later (ad_node_id d) available_resources (hb_running_jobs hb))"
    and jm: "job_mgr m' = job_mgr m"
    using assms(2) by (auto simp: send_heartbeat_rpc_eq hb)
  show known: "known_node m' n \<longleftrightarrow> known_node m n" for n
    by (simp add: known_node_def m' node_simps)
  show "job_mgr m' = job_mgr m" by (rule jm)
  show "ad_node_id d' = ad_node_id d" "ad_active d' = ad_active d" by (fact d')+
  show "master_fits m'" if "master_fits m"
    using that known jm
    by (auto simp: master_fits_def agent_node_def m' node_simps beat_def same_host_def job_nodes_def split: if_splits)
  show "\<exists>node'. get_node (node_reg m') (ad_node_id d) = Some node' \<and> ni_available_resources node' = available_resources"
    if "get_node (node_reg m) (ad_node_id d) = Some node"
    using that by (simp add: m' node_simps beat_def)
qed

lemma agent_not_redrawn:
  assumes "agent_step_in faults m a m' a'"
  shows "\<not> redrawn m m'"
  using assms
proof (cases rule: agent_step_in.cases)
  case (Register uuid now st res d')
  from arg_cong [OF daemon_registers(4) [OF Register(3)], of job_mgr] show ?thesis by (simp add: not_redrawn(1))
next
  case (Register_lost uuid now st res)
  from arg_cong [OF daemon_registers(4) [OF Register_lost(3)], of job_mgr] show ?thesis by (simp add: not_redrawn(1))
next
  case (Beat h now hb d' later st answer got)
  then show ?thesis using agent_beats(2) [OF Beat(4,5)] by (simp add: not_redrawn(1))
qed (auto simp: not_redrawn(1) deliver_not_redrawn simp del: callback.simps)

lemma delivered_fits:
  assumes "master_fits m" "known_node m (ad_node_id d)"
  shows "master_fits (delivered m now (callback d e))"
proof (cases "callback d e")
  case (Some r)
  have "job_nodes (\<lambda>n. n = '''' \<or> known_node m n) (job_mgr (deliver m now r))"
    using Some assms by (cases e) (auto simp: report_rpc_eqs master_fits_def job_nodes_ops split: if_splits)
  then show ?thesis using Some assms(1) by (auto simp: delivered_def intro: master_fits_nodes)
qed (use assms in \<open>simp add: delivered_def\<close>)

lemma fetched_known:
  assumes "fetch_job_rpc m n = (st, offer)" "fj_has_job offer" "jobs_keyed (job_mgr m)"
  shows "known_job m (fj_job_id offer)"
  using assms(3)
proof (cases rule: fetch_job_rpc_cases [of m n])
  case none
  then show ?thesis using assms(1,2) by (simp add: default_fetch_job_response_def)
next
  case (job job)
  then show ?thesis using assms(1) by (auto simp: known_job_def)
qed

lemma poll_spawns:
  assumes "poll d st offer = (spawn, d')"
  shows "ad_node_id d' = ad_node_id d" "ad_active d' = ad_active d"
    "th \<in> set (new_threads os spawn) \<Longrightarrow> fj_has_job offer \<and> th_job th = fj_job_id offer"
  using assms by (auto simp: poll_def fetch_reply_def new_threads_def execute_async_def Let_def split: if_splits option.splits)

text \<open>One step of an agent keeps the invariant of the master and its own.\<close>

lemma agent_step_fits:
  assumes step: "agent_step m a m' a'" and ok: "registry_ok (node_reg m)" "jobs_keyed (job_mgr m)" "master_fits m"
    and a: "agent_known m a" and mono: "\<And>i. known_job m i \<Longrightarrow> known_job m' i" "\<And>n. known_node m n \<Longrightarrow> known_node m' n"
  shows "master_fits m' \<and> agent_known m' a'"
  using step
proof (cases rule: agent_step_in.cases)
  case (Register uuid now st res d')
  note reg = agent_registers [OF Register(3) ok(1,3)]
  have "ad_node_id d' = rr_node_id res"
    using Register(2,4) reg(3,4) by (auto simp: start_def register_reply_def)
  then show ?thesis
    using a Register(1) reg(1,2) mono by (auto simp: agent_known_def)
next
  case (Register_lost uuid now st res)
  then show ?thesis
    using a mono agent_registers(2) [OF Register_lost(3) ok(1,3)] agent_known_mono by blast
next
  case (Beat h now hb d' later st answer got)
  note beats = agent_beats [OF Beat(4,5)]
  show ?thesis
    using beats(1) [OF ok(3)] beats(4,5) a mono Beat(1) by (auto simp: agent_known_def)
next
  case (Beat_unsent h now hb d')
  have "ad_node_id d' = ad_node_id (ap_daemon a)" "ad_active d' = ad_active (ap_daemon a)"
    using heartbeat_begin_Some [OF Beat_unsent(5)] by auto
  then show ?thesis using Beat_unsent(1,2) ok(3) a by (simp add: agent_known_def)
next
  case (Fetch st offer)
  then show ?thesis
    using a ok(3) fetched_known [OF Fetch(5) _ ok(2)] by (auto simp: agent_known_def)
next
  case (Poll st offer spawn d' os)
  then show ?thesis
    using a ok(3) poll_spawns [OF Poll(4)] by (fastforce simp: agent_known_def)
next
  case (Announce xs th ys now)
  then have "known_node m (ad_node_id (ap_daemon a))" using a by (simp add: agent_known_def)
  then have "master_fits m'" using Announce(4) ok(3) delivered_fits by blast
  then show ?thesis using Announce(1,2) a mono by (auto simp: agent_known_def)
next
  case (Report xs th ys r now)
  then have "known_node m (ad_node_id (ap_daemon a))" using a by (simp add: agent_known_def)
  then have "master_fits m'" using Report(4) ok(3) delivered_fits by blast
  then show ?thesis using Report(1,2) a mono by (auto simp: agent_known_def)
qed (use a ok(3) in \<open>auto simp: agent_known_def stop_def\<close>)

lemma agent_known_new [simp]: "agent_known m (new_process cfg)"
  by (simp add: agent_known_def new_process_def new_daemon_def)

lemma grid_step_ok:
  assumes step: "grid_step lib config api tj oj srt g g'" and ok: "grid_ok g"
    and c: "master_ok (master_of g)" "plan_ok (gr_cluster g)"
  shows "grid_ok g'"
proof -
  have reg: "registry_ok (node_reg (master_of g))" "jobs_keyed (job_mgr (master_of g))"
    using c(1) by (simp_all add: master_ok_def)
  note mono = cluster_known [OF grid_step_cluster [OF step] reg(1)]
  have fits: "master_fits (master_of g)" and old: "\<forall>a\<in>set (gr_agents g). process_ok a \<and> agent_known (master_of g') a"
    using ok mono agent_known_mono unfolding grid_ok_def by blast+
  show ?thesis
    using step
  proof (cases rule: grid_step_in.cases)
    case (Web env uuid now rnd conn res m' effects)
    obtain body where "gateway_call api tj oj env uuid now rnd body (master_of g) m'"
      using do_accept_call [OF Web(2)] by blast
    from gateway_job_nodes [OF this] fits have "master_fits m'"
      by (intro master_fits_nodes [OF fits]) (auto simp: master_fits_def)
    then show ?thesis using Web(1) old by (simp add: grid_ok_def)
  next
    case (Pass_begin now)
    then show ?thesis using fits old by (auto simp: grid_ok_def master_fits_def known_node_def)
  next
    case (Pass_assign i n plan now)
    have "known_node (master_of g) n"
      using c(2) Pass_assign(2) by (simp add: plan_ok_def placeable_def known_node_def)
    then have "job_nodes (\<lambda>n. n = '''' \<or> known_node (master_of g) n) (job_mgr (master_of g'))"
      using fits Pass_assign(1) by (simp add: master_fits_def job_nodes_ops)
    then have "master_fits (master_of g')"
      by (rule master_fits_nodes [OF fits]) (simp add: Pass_assign(1))
    then show ?thesis using Pass_assign(1) old by (simp add: grid_ok_def)
  next
    case (Agent k m' a')
    have a: "gr_agents g ! k \<in> set (gr_agents g)" using Agent(2) by simp
    then have "process_ok a'" using step_process_ok [OF Agent(3)] ok by (simp add: grid_ok_def)
    moreover have "master_fits m' \<and> agent_known m' a'"
      using agent_step_fits [OF Agent(3) reg fits] mono Agent(1) ok a by (simp add: grid_ok_def)
    ultimately show ?thesis
      using Agent(1) old by (auto simp: grid_ok_def dest!: set_update_subset_insert [THEN subsetD])
  next
    case (Launch cfg)
    then show ?thesis using fits old by (simp add: grid_ok_def)
  next
    case (Process_end xs a ys)
    then show ?thesis using fits old by (simp add: grid_ok_def)
  qed
qed

lemma grid_reachable_ok:
  assumes "grid_reachable lib config api tj oj srt g" "comparison_sort srt"
  shows "grid_ok g" "master_ok (master_of g)" "plan_ok (gr_cluster g)"
proof -
  show c: "master_ok (master_of g)" "plan_ok (gr_cluster g)"
    using reachable_ok [OF grid_reachable_cluster [OF assms(1)] assms(2)] by simp_all
  show "grid_ok g"
    using assms(1)
  proof (induction rule: grid_reachable.induct)
    case (Start mconfig now admin jobs)
    then show ?case
      by (simp add: start_grid_def start_cluster_def master_server_def grid_ok_def master_fits_def job_nodes_def
          new_job_manager_def get_job_def get_node_def)
  next
    case (Step g g')
    then show ?case
      using grid_step_ok reachable_ok [OF grid_reachable_cluster [OF Step(1)] assms(2)] by blast
  qed
qed

text \<open>All nodes are the same host, so there is at most one.\<close>

lemma single_node:
  assumes "registry_ok nodes" "\<And>n node. get_node nodes n = Some node \<Longrightarrow> agent_node node" "get_node nodes n \<noteq> None"
  shows "\<exists>node. nodes = [(n, node)]"
proof -
  have same: "k = k'" if "k \<in> fst ` set nodes" "k' \<in> fst ` set nodes" for k k'
  proof -
    have "map_of nodes k \<noteq> None" "map_of nodes k' \<noteq> None"
      using that by (simp_all only: map_of_eq_None_iff not_not)
    then obtain v v' where "map_of nodes k = Some v" "map_of nodes k' = Some v'" by blast
    moreover from this have "same_host v v'"
      using assms(2) [unfolded agent_node_def get_node_def, of k v] assms(2) [unfolded agent_node_def get_node_def, of k' v']
      by (blast intro: same_host_sym same_host_trans)
    ultimately show ?thesis using registry_okD(2) [OF assms(1)] by blast
  qed
  have n: "n \<in> fst ` set nodes" using assms(3) by (simp add: get_node_def map_of_eq_None_iff)
  then have "fst ` set nodes = {n}" using same by blast
  moreover have "distinct (map fst nodes)" using assms(1) by (simp add: registry_ok_def keyed_def)
  ultimately have "length nodes = 1"
    by (metis distinct_card length_map set_map card.empty card.insert empty_iff finite.emptyI One_nat_def)
  then obtain p where "nodes = [p]" by (cases nodes) auto
  with n show ?thesis by (cases p) auto
qed

section \<open>A small run\<close>

text \<open>The master starts, an agent process is launched and registers.\<close>

abbreviation demo_reachable :: "http_library \<Rightarrow> tables grid \<Rightarrow> bool" where
  "demo_reachable lib \<equiv> grid_reachable lib default_gateway_config ref_api no_json no_parse std_sort"

definition registered_daemon :: "agent_config \<Rightarrow> agent_daemon" where
  "registered_daemon cfg = (new_daemon cfg)\<lparr>ad_node_id := ''node-00000000'', ad_active := True\<rparr>"

definition demo_agent :: agent_process where
  "demo_agent = (new_process default_agent_config)\<lparr>ap_daemon := registered_daemon default_agent_config\<rparr>"

definition demo_grid :: "tables grid" where
  "demo_grid = \<lparr>gr_cluster = run1, gr_agents = [demo_agent]\<rparr>"

lemma run1_registered:
  "node_reg (cl_master run1) = [(''node-00000000'', run_node)]" "jm_jobs (job_mgr (cl_master run1)) = []"
  "cl_plan run1 = []"
  by (simp_all add: run1_def run0_def start_cluster_def master_server_def new_job_manager_def register_node_rpc_def
      register_node_def Let_def node_id_of_uuid_def start_request_def register_request_def new_daemon_def)

lemma demo_grid_run:
  "(fresh_step True lib default_gateway_config ref_api no_json no_parse std_sort)\<^sup>*\<^sup>*
     (start_grid ref_api default_master_config 0 no_tables no_tables) demo_grid"
proof -
  let ?d = "new_daemon default_agent_config" and ?m = "cl_master run0"
  let ?r = "register_node_rpc ?m ''00000000'' 1 (start_request ?d)"
  let ?start = "start_grid ref_api default_master_config 0 no_tables no_tables"
  let ?g = "\<lparr>gr_cluster = run0, gr_agents = [new_process default_agent_config]\<rparr>"
  have run0: "run0 = start_cluster ref_api default_master_config 0 no_tables no_tables" by (simp add: run0_def)
  have empty: "\<forall>k. get_job (job_mgr ?m) k = None"
    by (simp add: run0 start_cluster_def master_server_def new_job_manager_def get_job_def)
  have "grid_step lib default_gateway_config ref_api no_json no_parse std_sort ?start ?g"
    using grid_step_in.Launch [where g = ?start and cfg = default_agent_config] by (simp add: start_grid_def run0)
  then have 1: "fresh_step True lib default_gateway_config ref_api no_json no_parse std_sort ?start ?g"
    using not_redrawn(2) [OF empty] by (simp add: fresh_step_def start_grid_def run0)
  have "fst ?r = Status_OK" "rr_success (fst (snd ?r))" "rr_node_id (fst (snd ?r)) = ''node-00000000''"
    by (simp_all add: register_node_rpc_def case_prod_unfold Let_def register_node_def run0_def start_cluster_def
        master_server_def node_id_of_uuid_def)
  then have "start ?d (fst ?r) (fst (snd ?r)) = Inr (registered_daemon default_agent_config)"
    by (simp add: start_def new_daemon_def register_reply_def registered_daemon_def)
  moreover have "ap_daemon (new_process default_agent_config) = ?d" by (simp add: new_process_def)
  moreover have "?r = (fst ?r, fst (snd ?r), snd (snd ?r))" "\<not> ad_active ?d" by (simp_all add: new_daemon_def)
  ultimately have "agent_step (master_of ?g) (gr_agents ?g ! 0) (snd (snd ?r)) demo_agent"
    using agent_step_in.Register [of "new_process default_agent_config" ?m "''00000000''" 1 "fst ?r" "fst (snd ?r)" "snd (snd ?r)"]
    by (simp add: demo_agent_def)
  from grid_step_in.Agent [OF _ this] not_redrawn(2) [OF empty]
  have 2: "fresh_step True lib default_gateway_config ref_api no_json no_parse std_sort ?g demo_grid"
    by (simp add: fresh_step_def with_master_def demo_grid_def run1_def)
  from 1 2 show ?thesis by (meson converse_rtranclp_into_rtranclp r_into_rtranclp)
qed

lemma demo_grid_reachable: "demo_reachable lib demo_grid"
  by (rule grid_steps_reachable [OF fresh_steps [OF demo_grid_run] grid_reachable.Start])

section \<open>Properties\<close>

text \<open>
  C9: The system never has more than one node.  Since every agent announces the same host, the
  registry of a reachable state has at most one entry; every active agent works under its id, every
  placed job is placed on it, and the free resources the scheduler counts on are those of a single
  configuration or the fixed ones of the heartbeat, however many agents there are.
\<close>

theorem grid_one_node:
  assumes "grid_reachable lib config api to_json of_json srt g" "comparison_sort srt" "m = master_of g"
  shows "length (node_reg m) \<le> 1 \<and>
    (a \<in> set (gr_agents g) \<longrightarrow> ad_active (ap_daemon a) \<longrightarrow> (\<exists>node. node_reg m = [(ad_node_id (ap_daemon a), node)])) \<and>
    (get_job (job_mgr m) k = Some job \<longrightarrow> ji_assigned_node_id job \<noteq> '''' \<longrightarrow>
      (\<exists>node. node_reg m = [(ji_assigned_node_id job, node)])) \<and>
    (node_reg m = [(n, node)] \<longrightarrow> ni_available_resources node = available_resources
      \<or> (\<exists>cfg. ni_available_resources node = total_resources cfg))"
proof -
  note ok = grid_reachable_ok [OF assms(1,2), folded assms(3)]
  have fits: "master_fits m" using ok(1) by (simp add: grid_ok_def assms(3))
  have single: "\<exists>node. node_reg m = [(n, node)]" if "known_node m n" for n
    using that fits ok(2) by (intro single_node) (auto simp: known_node_def master_fits_def master_ok_def)
  have "length (node_reg m) \<le> 1"
  proof (cases "node_reg m")
    case (Cons p t)
    obtain k v where "p = (k, v)" by (cases p)
    with Cons have "known_node m k" by (simp add: known_node_def get_node_def)
    from single [OF this] show ?thesis by auto
  qed simp
  moreover have "known_node m (ad_node_id (ap_daemon a))" if "a \<in> set (gr_agents g)" "ad_active (ap_daemon a)" for a
    using that ok(1) by (auto simp: grid_ok_def agent_known_def assms(3))
  moreover have "known_node m (ji_assigned_node_id job)"
    if "get_job (job_mgr m) k = Some job" "ji_assigned_node_id job \<noteq> ''''" for k job
    using that fits by (auto simp: master_fits_def job_nodes_def)
  moreover have "ni_available_resources node \<in> insert available_resources (range total_resources)"
    if "node_reg m = [(n, node)]" for n node
    using that fits by (auto simp: master_fits_def agent_node_def get_node_def)
  ultimately show ?thesis using single by blast
qed

theorem grid_one_node_witness:
  "\<exists>node. node_reg (master_of demo_grid) = [(''node-00000000'', node)]"
  using grid_one_node [THEN conjunct2, THEN conjunct1, THEN mp, THEN mp, OF demo_grid_reachable
      std.comparison_sort_axioms refl, of demo_agent]
  by (simp add: demo_grid_def demo_agent_def registered_daemon_def)

lemma small_fits:
  assumes "fits req available_resources"
  shows "unat (cpu_cores req) \<le> 4 \<and> unat (ram_mb req) \<le> 8192 \<and> gpu_count req = 0"
  using assms by (auto simp: fits_def available_resources_def default_resource_spec_def word_le_nat_alt unat_eq_0)

text \<open>What the registry holds after a heartbeat, until an agent registers.\<close>

definition beaten :: "'db master \<Rightarrow> bool" where
  "beaten m \<longleftrightarrow> (\<forall>n node. get_node (node_reg m) n = Some node \<longrightarrow> ni_available_resources node = available_resources)"

definition all_active :: "'db grid \<Rightarrow> bool" where
  "all_active g \<longleftrightarrow> (\<forall>a\<in>set (gr_agents g). ad_active (ap_daemon a))"

lemma beats_beaten:
  assumes "heartbeat_begin h now d = Some (hb, d')" "send_heartbeat_rpc m later hb = (st, answer, m')" "beaten m"
  shows "beaten m'"
proof -
  obtain snap where "hb = heartbeat_request_of d now snap" using heartbeat_begin_Some [OF assms(1)] by blast
  then have "hb_available_resources hb = available_resources"
    by (simp add: heartbeat_request_of_def heartbeat_message_def)
  then show ?thesis
    using assms(2,3) by (auto simp: send_heartbeat_rpc_eq beaten_def node_simps beat_def split: if_splits)
qed

lemma delivered_nodes [simp]: "node_reg (delivered m now r) = node_reg m"
  by (cases r) (simp_all add: delivered_def)

lemma agent_step_beaten:
  assumes "agent_step m a m' a'" "ad_active (ap_daemon a)" "beaten m"
  shows "beaten m'"
  using assms(1)
proof (cases rule: agent_step_in.cases)
  case (Beat h now hb d' later st answer got)
  then show ?thesis using beats_beaten assms(3) by blast
next
  case (Announce xs th ys now)
  then show ?thesis using assms(3) by (auto simp: beaten_def simp del: callback.simps)
next
  case (Report xs th ys r now)
  then show ?thesis using assms(3) by (auto simp: beaten_def simp del: callback.simps)
qed (use assms(2,3) in auto)

lemma grid_step_beaten:
  assumes "grid_step lib config api tj oj srt g g'" "all_active g" "beaten (master_of g)"
  shows "beaten (master_of g')"
  using assms(1)
proof (cases rule: grid_step_in.cases)
  case (Web env uuid now rnd conn res m' effects)
  obtain body where "gateway_call api tj oj env uuid now rnd body (master_of g) m'"
    using do_accept_call [OF Web(2)] by blast
  from gateway_job_nodes(2) [OF this, of "\<lambda>_. True"] show ?thesis
    using Web(1) assms(3) by (simp add: beaten_def job_nodes_def)
next
  case (Agent k m' a')
  have "gr_agents g ! k \<in> set (gr_agents g)" using Agent(2) by simp
  then show ?thesis using agent_step_beaten [OF Agent(3) _ assms(3)] Agent(1) assms(2) by (simp add: all_active_def)
qed (use assms(3) in \<open>simp_all add: beaten_def\<close>)

lemma beaten_plan:
  assumes "master_ok m" "comparison_sort srt" "beaten m" "(i, n) \<in> set (plan_of srt m t)"
  shows "\<exists>job. get_job (job_mgr m) i = Some job \<and>
    unat (cpu_cores (spec_resources (ji_spec job))) \<le> 4 \<and> unat (ram_mb (spec_resources (ji_spec job))) \<le> 8192 \<and>
    gpu_count (spec_resources (ji_spec job)) = 0"
proof -
  have "pass_ready srt (fair_share_mgr m) (job_mgr m) (node_reg m) t"
    using assms(1,2) by (simp add: pass_ready_def master_ok_def no_usage_comparable)
  note sound = pass_plan_sound [OF this]
  obtain job where "(job, n) \<in> set (fst (pass_plan srt (fair_share_mgr m) (job_mgr m) (node_reg m) t))" "i = ji_job_id job"
    using assms(4) by (auto simp: plan_of_def)
  with sound(1,3) assms(3) show ?thesis using small_fits unfolding beaten_def by metis
qed

text \<open>
  C31: A heartbeat hides what its machine has.  Whatever an agent's configuration announced, when its
  heartbeat has reached the master, and whether or not the answer reaches the agent, no pass of the
  scheduler that begins later places a job that asks for a GPU, for more than 4 cores or for more than
  8192 MB, in any run in which all agents are registered, since only a registration makes the announced
  resources known again.
\<close>

theorem grid_heartbeat_hides:
  assumes r: "grid_reachable lib config api to_json of_json srt g" "comparison_sort srt"
    and a: "k < length (gr_agents g)" "a = gr_agents g ! k" "ad_active (ap_daemon a)" "ap_cancels a = []"
    and beat: "heartbeat_begin h now (ap_daemon a) = Some (hb, d')"
      "send_heartbeat_rpc (master_of g) later hb = (st, answer, m')" "got = st \<or> \<not> status_ok got"
    and g1: "g1 = with_master m' (g\<lparr>gr_agents := (gr_agents g)[k :=
        a\<lparr>ap_daemon := d', ap_cancels := snd (heartbeat_reply got answer)\<rparr>]\<rparr>)"
    and run: "(\<lambda>x y. grid_step lib config api to_json of_json srt x y \<and> all_active x)\<^sup>*\<^sup>* g1 g2"
  shows "grid_step lib config api to_json of_json srt g g1 \<and> hr_acknowledged answer \<and>
    ((i, n) \<in> set (plan_of srt (master_of g2) t) \<longrightarrow> (\<exists>job. get_job (job_mgr (master_of g2)) i = Some job \<and>
       unat (cpu_cores (spec_resources (ji_spec job))) \<le> 4 \<and> unat (ram_mb (spec_resources (ji_spec job))) \<le> 8192 \<and>
       gpu_count (spec_resources (ji_spec job)) = 0))"
proof -
  let ?m = "master_of g" and ?n = "ad_node_id (ap_daemon a)"
  note ok = grid_reachable_ok [OF r]
  note beats = agent_beats [OF beat(1,2)]
  have "agent_step ?m (gr_agents g ! k) m' (a\<lparr>ap_daemon := d', ap_cancels := snd (heartbeat_reply got answer)\<rparr>)"
    using agent_step_in.Beat [of a h now hb d' ?m later st answer m' got True] a(2-4) beat by simp
  from grid_step_in.Agent [OF a(1) this, of lib config api to_json of_json srt]
  have step: "grid_step lib config api to_json of_json srt g g1" by (simp add: g1)
  have "a \<in> set (gr_agents g)" using a(1,2) by simp
  then obtain node where node: "get_node (node_reg ?m) ?n = Some node"
    using ok(1) a(3) by (auto simp: grid_ok_def agent_known_def known_node_def)
  have "hb_node_id hb = ?n"
    using heartbeat_begin_Some [OF beat(1)] by (auto simp: heartbeat_request_of_def heartbeat_message_def)
  then have ack: "hr_acknowledged answer" using beat(2) node by (auto simp: send_heartbeat_rpc_eq)
  have r1: "grid_reachable lib config api to_json of_json srt g1" by (rule grid_reachable.Step [OF r(1) step])
  have m': "master_of g1 = m'" by (simp add: g1)
  note ok1 = grid_reachable_ok [OF r1 r(2), unfolded m']
  obtain node' where node': "get_node (node_reg m') ?n = Some node'" "ni_available_resources node' = available_resources"
    using beats(6) [OF node] by blast
  obtain v where "node_reg m' = [(?n, v)]"
    using single_node [of "node_reg m'" ?n] ok1(1,2) node'(1) by (auto simp: grid_ok_def master_fits_def master_ok_def m')
  with node' have "beaten m'" by (auto simp: beaten_def get_node_def split: if_splits)
  with r1 have start: "grid_reachable lib config api to_json of_json srt g1 \<and> beaten (master_of g1)" by (simp add: m')
  from run have "grid_reachable lib config api to_json of_json srt g2 \<and> beaten (master_of g2)"
    by (induction rule: rtranclp_induct) (use start grid_step_beaten in \<open>auto intro: grid_reachable.Step\<close>)
  with step ack beaten_plan [OF grid_reachable_ok(2) [OF _ r(2)] r(2)] show ?thesis by blast
qed


lemma demo_agent_fields [simp]:
  "gr_agents demo_grid = [demo_agent]" "master_of demo_grid = cl_master run1" "cl_plan (gr_cluster demo_grid) = []"
  "ap_daemon demo_agent = registered_daemon default_agent_config" "ad_active (registered_daemon cfg)"
  "ad_node_id (registered_daemon cfg) = ''node-00000000''" "ad_monitor (registered_daemon cfg) = new_monitor"
  "ad_executor (registered_daemon cfg) = new_executor (ac_work_dir cfg)" "ap_offer demo_agent = None" "ap_threads demo_agent = []"
  by (simp_all add: demo_grid_def demo_agent_def registered_daemon_def run1_registered new_daemon_def new_process_def)

theorem grid_heartbeat_hides_witness:
  "\<exists>hb d' g1. heartbeat_begin (demo_host 1000 9000) 20 (registered_daemon default_agent_config) = Some (hb, d') \<and>
     hr_acknowledged (fst (snd (send_heartbeat_rpc (cl_master run1) 21 hb))) \<and>
     grid_step plain_library default_gateway_config ref_api no_json no_parse std_sort demo_grid g1"
proof -
  let ?d = "registered_daemon default_agent_config"
  obtain snap mon where "collect (demo_host 1000 9000) ''node-00000000'' new_monitor = Some (snap, mon)"
    using collect_demo [of 9000] by force
  then have begins: "heartbeat_begin (demo_host 1000 9000) 20 ?d = Some (heartbeat_request_of ?d 20 snap, ?d\<lparr>ad_monitor := mon\<rparr>)"
    by (simp add: heartbeat_begin_def)
  let ?r = "send_heartbeat_rpc (master_of demo_grid) 21 (heartbeat_request_of ?d 20 snap)"
  have a: "0 < length (gr_agents demo_grid)" "demo_agent = gr_agents demo_grid ! 0" "ad_active (ap_daemon demo_agent)"
    "ap_cancels demo_agent = []"
    by (simp_all add: demo_agent_def new_process_def)
  have b: "heartbeat_begin (demo_host 1000 9000) 20 (ap_daemon demo_agent) = Some (heartbeat_request_of ?d 20 snap, ?d\<lparr>ad_monitor := mon\<rparr>)"
    using begins by simp
  note hides = grid_heartbeat_hides [OF demo_grid_reachable [of plain_library] std.comparison_sort_axioms a b triple_parts [of ?r] disjI1 [OF refl] refl
      rtranclp.rtrancl_refl]
  from hides [THEN conjunct1] hides [THEN conjunct2, THEN conjunct1] begins show ?thesis by auto
qed

end
