(* ===== verification/Grid_Runs.thy ===== *)
theory Grid_Runs
  imports Grid
begin

text \<open>
  What the whole system can do: runs of \<open>Grid\<close> that take a job from the browser to its end, and runs
  in which it goes through the system twice.
\<close>

section \<open>Runs of one agent\<close>

lemma agent_run_fresh:
  assumes "agent_pair\<^sup>*\<^sup>* (master_of g, gr_agents g ! k) p" "k < length (gr_agents g)"
  shows "(fresh_step False lib config api tj oj srt)\<^sup>*\<^sup>* g (with_master (fst p) (g\<lparr>gr_agents := (gr_agents g)[k := snd p]\<rparr>))"
  using assms(1)
proof (induction rule: rtranclp_induct)
  case base
  show ?case by (simp add: with_master_def)
next
  case (step p q)
  let ?at = "\<lambda>p. with_master (fst p) (g\<lparr>gr_agents := (gr_agents g)[k := snd p]\<rparr>)"
  have a: "agent_step_in False (master_of (?at p)) (gr_agents (?at p) ! k) (fst q) (snd q)"
    using step(2) assms(2) by (simp add: agent_pair_def case_prod_unfold)
  from grid_step_in.Agent [OF _ a, of lib config api tj oj srt] assms(2) agent_not_redrawn [OF a]
  have "fresh_step False lib config api tj oj srt (?at p) (?at q)"
    by (simp add: fresh_step_def with_master_def)
  with step(3) show ?case by simp
qed

lemmas agent_run_grid = agent_run_fresh [THEN fresh_steps]

text \<open>An agent with nothing under way.\<close>

definition idle_agent :: "agent_process \<Rightarrow> bool" where
  "idle_agent a \<longleftrightarrow> ad_active (ap_daemon a) \<and> ap_offer a = None \<and> ap_threads a = [] \<and> running_jobs (executor_of a) = []"

definition healthy :: "os_run \<Rightarrow> bool" where
  "healthy os \<longleftrightarrow> os_pipe_ok os \<and> os_sandbox_ok os \<and> os_fork os > 0 \<and> os_ends os \<and> os_wait os \<noteq> Other_status"

lemma healthy_spawns: "healthy os \<Longrightarrow> \<not> sandbox_throws os spec \<and> early_failure i os = None \<and> os_ends os"
  by (simp add: healthy_def sandbox_throws_def early_failure_def)

abbreviation spawned :: "os_run \<Rightarrow> fetch_job_response \<Rightarrow> exec_thread" where
  "spawned os offer \<equiv> \<lparr>th_job = fj_job_id offer, th_spec = fj_spec offer, th_os = os, th_phase = Spawned\<rparr>"

text \<open>An idle agent after it has started the job it was offered.\<close>

definition started :: "os_run \<Rightarrow> fetch_job_response \<Rightarrow> agent_process \<Rightarrow> agent_process" where
  "started os offer a = with_executor (snd (execute_async (executor_of a) (fj_job_id offer)))
     (a\<lparr>ap_threads := [spawned os offer]\<rparr>)"

lemma idle_starts:
  assumes "idle_agent a" "fetch_job_rpc m (ad_node_id (ap_daemon a)) = (Status_OK, offer)" "fj_has_job offer"
  shows "agent_pair\<^sup>*\<^sup>* (m, a) (m, started os offer a)"
proof -
  let ?d = "(ap_daemon a)\<lparr>ad_executor := snd (execute_async (executor_of a) (fj_job_id offer))\<rparr>"
  have fetch: "agent_pair (m, a) (m, a\<lparr>ap_offer := Some (Status_OK, offer)\<rparr>)"
    using assms by (simp add: agent_pair_def agent_step_in.Fetch idle_agent_def)
  have "poll (ap_daemon a) Status_OK offer = (Some (fj_job_id offer, fj_spec offer), ?d)"
    using assms(1,3) by (simp add: poll_def fetch_reply_def execute_async_def idle_agent_def)
  moreover have "a\<lparr>ap_daemon := ?d, ap_offer := None, ap_threads := [spawned os offer]\<rparr> = started os offer a"
    using assms(1) by (cases a) (simp add: started_def with_executor_def idle_agent_def)
  ultimately have "agent_pair (m, a\<lparr>ap_offer := Some (Status_OK, offer)\<rparr>) (m, started os offer a)"
    using agent_step_in.Poll [of "a\<lparr>ap_offer := Some (Status_OK, offer)\<rparr>" Status_OK offer _ _ False m os] assms(1)
    by (simp add: agent_pair_def new_threads_def idle_agent_def)
  with fetch show ?thesis by (meson converse_rtranclp_into_rtranclp r_into_rtranclp)
qed

lemma finished_executor:
  assumes "idle_agent a" "execution_thread id id os (snd (execute_async (executor_of a) i)) i spec = (how, ex, evs)" "healthy os"
  shows "running_jobs ex = []" "how = Returned"
  using assms(1,2) healthy_spawns [OF assms(3)]
  by (auto simp: execution_thread_def Let_def idle_agent_def execute_async_def register_pid_def deregister_def)

text \<open>The started thread runs to its end.\<close>

lemma started_finishes:
  assumes a: "idle_agent a" and os: "healthy os"
    and run: "execution_thread id id os (snd (execute_async (executor_of a) (fj_job_id offer))) (fj_job_id offer) (fj_spec offer) = (Returned, ex, evs)"
  shows "agent_pair\<^sup>*\<^sup>* (m, (started os offer a)\<lparr>ap_offer := r\<rparr>)
      (deliver_all m now (ap_daemon a) evs, with_executor ex (a\<lparr>ap_offer := r\<rparr>))"
proof -
  let ?s = "(started os offer a)\<lparr>ap_offer := r\<rparr>"
  have d: "deliver_all m now (ap_daemon ?s) evs = deliver_all m now (ap_daemon a) evs"
    by (simp add: deliver_all_def started_def with_executor_def)
  have e: "with_executor ex (?s\<lparr>ap_threads := []\<rparr>) = with_executor ex (a\<lparr>ap_offer := r\<rparr>)"
    using a by (simp add: started_def with_executor_def idle_agent_def)
  have "ap_threads ?s = [] @ spawned os offer # []" "executor_of ?s = snd (execute_async (executor_of a) (fj_job_id offer))"
    by (simp_all add: started_def)
  from thread_alone [OF this(1), of ex evs m now] this(2) run d e show ?thesis by simp
qed

section \<open>An idle agent can finish all its jobs\<close>

text \<open>What becomes of a job: those that wait for the node are completed, the others stay as they are.\<close>

definition finished_for :: "string \<Rightarrow> job_info option \<Rightarrow> job_info option \<Rightarrow> bool" where
  "finished_for n old new \<longleftrightarrow>
     (case old of Some job \<Rightarrow> if awaits n job then map_option ji_status new = Some JOB_STATUS_COMPLETED else new = old
      | None \<Rightarrow> new = None)"

lemma deliver_all_frames:
  "jobs_keyed (job_mgr m) \<Longrightarrow> jobs_keyed (job_mgr (deliver_all m now d evs))"
  "node_reg (deliver_all m now d evs) = node_reg m"
proof (induction evs arbitrary: m)
  case (Cons e evs)
  {
    case 1
    have "jobs_keyed (job_mgr (deliver m now r))" for r
      using 1 job_effect_keyed [OF deliver_job_effect] by blast
    with 1 Cons.IH(1) show ?case by (simp split: option.split)
  next
    case 2
    show ?case using Cons.IH(2) by (simp split: option.split)
  }
qed simp_all

lemma one_job_done:
  assumes a: "idle_agent a" and keyed: "jobs_keyed (job_mgr m)"
    and fetch: "fetch_job_rpc m (ad_node_id (ap_daemon a)) = (Status_OK, offer)" "fj_has_job offer"
  shows "\<exists>m' a'. agent_pair\<^sup>*\<^sup>* (m, a) (m', a') \<and> idle_agent a' \<and> ad_node_id (ap_daemon a') = ad_node_id (ap_daemon a)
    \<and> jobs_keyed (job_mgr m') \<and> node_reg m' = node_reg m
    \<and> map_option ji_status (get_job (job_mgr m') (fj_job_id offer)) = Some JOB_STATUS_COMPLETED
    \<and> (\<forall>j. j \<noteq> fj_job_id offer \<longrightarrow> get_job (job_mgr m') j = get_job (job_mgr m) j)"
proof -
  let ?i = "fj_job_id offer" and ?os = "\<lparr>os_pipe_ok = True, os_sandbox_ok = True, os_fork = 1, os_reads = [], os_ends = True, os_wait = Exited 0\<rparr>"
  have os: "healthy ?os" by (simp add: healthy_def)
  obtain ex evs where run: "execution_thread id id ?os (snd (execute_async (executor_of a) ?i)) ?i (fj_spec offer) = (Returned, ex, evs)"
    using finished_executor(2) [OF a _ os] by (metis prod_cases3)
  let ?m' = "deliver_all m 0 (ap_daemon a) evs" and ?a' = "with_executor ex a"
  have "(started ?os offer a)\<lparr>ap_offer := None\<rparr> = started ?os offer a" "a\<lparr>ap_offer := None\<rparr> = a"
    using a by (cases a; simp add: started_def with_executor_def idle_agent_def)+
  then have "agent_pair\<^sup>*\<^sup>* (m, started ?os offer a) (?m', ?a')"
    using started_finishes [OF a os run, of m None 0] by simp
  with idle_starts [OF a fetch] have steps: "agent_pair\<^sup>*\<^sup>* (m, a) (?m', ?a')" by (rule rtranclp_trans)
  obtain job where "get_job (job_mgr m) ?i = Some job"
    using fetched_known [OF fetch keyed] by (auto simp: known_job_def)
  from execution_result [OF run this, of 0 "ap_daemon a"]
  have "map_option ji_status (get_job (job_mgr ?m') ?i) = Some JOB_STATUS_COMPLETED"
    "\<forall>j. j \<noteq> ?i \<longrightarrow> get_job (job_mgr ?m') j = get_job (job_mgr m) j"
    by (simp_all add: recorded_status_def)
  moreover have "idle_agent ?a'"
    using a finished_executor(1) [OF a run os] by (simp add: idle_agent_def)
  ultimately show ?thesis
    using steps deliver_all_frames(1) [OF keyed] deliver_all_frames(2) [of m 0 "ap_daemon a" evs]
    by (intro exI [of _ ?m'] exI [of _ ?a'] conjI) simp_all
qed

lemma idle_agent_drains:
  assumes "idle_agent a" "jobs_keyed (job_mgr m)" "n = ad_node_id (ap_daemon a)"
  shows "\<exists>m' a'. agent_pair\<^sup>*\<^sup>* (m, a) (m', a') \<and> idle_agent a' \<and> (\<forall>j. finished_for n (get_job (job_mgr m) j) (get_job (job_mgr m') j))"
  using assms
proof (induction "card (waiting n m)" arbitrary: m a rule: less_induct)
  case less
  show ?case
    using less.prems(2)
  proof (cases rule: fetch_job_rpc_cases [of m n])
    case none
    then have "\<forall>j. finished_for n (get_job (job_mgr m) j) (get_job (job_mgr m) j)"
      by (auto simp: finished_for_def awaits_def split: option.split)
    then show ?thesis using less.prems(1) by blast
  next
    case (job job)
    let ?i = "ji_job_id job"
    from one_job_done [OF less.prems(1,2) job(4) [unfolded less.prems(3)]] less.prems(3)
    obtain m1 a1 where run: "agent_pair\<^sup>*\<^sup>* (m, a) (m1, a1)" "idle_agent a1" "n = ad_node_id (ap_daemon a1)"
      "jobs_keyed (job_mgr m1)" "map_option ji_status (get_job (job_mgr m1) ?i) = Some JOB_STATUS_COMPLETED"
      "\<And>j. j \<noteq> ?i \<Longrightarrow> get_job (job_mgr m1) j = get_job (job_mgr m) j" by auto
    have "j \<in> waiting n m1 \<longleftrightarrow> j \<in> waiting n m - {?i}" for j
      using run(5) by (cases "j = ?i") (auto simp: waiting_def awaits_def run(6))
    then have "waiting n m1 = waiting n m - {?i}" by blast
    moreover have "?i \<in> waiting n m" using job(1-3) by (auto simp: waiting_def awaits_def)
    ultimately have "card (waiting n m1) < card (waiting n m)"
      using card_Diff1_less [OF finite_waiting] by metis
    from less.hyps [OF this run(2,4,3)] obtain m2 a2 where rest: "agent_pair\<^sup>*\<^sup>* (m1, a1) (m2, a2)" "idle_agent a2"
      "\<And>j. finished_for n (get_job (job_mgr m1) j) (get_job (job_mgr m2) j)" by blast
    have "finished_for n (get_job (job_mgr m) j) (get_job (job_mgr m2) j)" for j
      using rest(3) [of j] run(5,6) job(1-3)
      by (cases "j = ?i") (auto simp: finished_for_def awaits_def split: option.splits if_splits)
    with rtranclp_trans [OF run(1) rest(1)] rest(2) show ?thesis by blast
  qed
qed

section \<open>From the browser to the end of the job\<close>

text \<open>A connection that brings a job.\<close>

definition brings_job :: "http_library \<Rightarrow> gateway_env \<Rightarrow> string \<Rightarrow> http_request \<Rightarrow> job_spec \<Rightarrow> bool" where
  "brings_job lib env bytes req spec \<longleftrightarrow>
     lib_read lib body_limit bytes = Inr req \<and> \<not> lib_is_upgrade lib req \<and>
     rq_method req = POST \<and> rq_target req = ''/api/v1/jobs'' \<and>
     (\<exists>b. body_object env (rq_body req) = Inr b \<and> submit_request b = Inr spec)"

lemma connection_submits:
  assumes "brings_job lib env bytes req spec"
  shows "\<exists>res effects. do_accept lib config env (master_stub_of api tj oj uuid now rnd) m (Received bytes) =
    Inr (res, snd (snd (submit_job_rpc api m uuid now (setup_context (bearer_token req)) spec)), effects)"
proof -
  obtain b where b: "body_object env (rq_body req) = Inr b" "submit_request b = Inr spec"
    using assms by (auto simp: brings_job_def)
  let ?stub = "master_stub_of api tj oj uuid now rnd"
  let ?m' = "snd (snd (submit_job_rpc api m uuid now (setup_context (bearer_token req)) spec))"
  have "snd (dispatch env ?stub m (bearer_token req) (rq_body req) Submit_job) = (?m', [])"
    by (simp add: dispatch_def b bridge_submit_job_def case_prod_unfold Let_def)
  then obtain out where "dispatch env ?stub m (bearer_token req) (rq_body req) Submit_job = (out, ?m', [])"
    by (metis prod.collapse)
  from api_answer_post [OF _ _ _ this] assms
  have "api_answer env ?stub m req = (case out of Inl e \<Rightarrow> internal_error env e | Inr obj \<Rightarrow> (200, obj), ?m', [])"
    by (simp add: brings_job_def norm_path_of_def)
  then show ?thesis
    using assms by (simp add: do_accept_def handle_request_def brings_job_def handle_def case_prod_unfold Let_def)
qed

text \<open>A pass over one queued job and one node.\<close>

lemma single_job_plan:
  assumes "comparison_sort srt" "get_pending_jobs (job_mgr m) = [job]" "node_reg m = [(n, node)]"
    and "ni_node_id node = n" "ni_status node = NODE_STATUS_ONLINE" "fits (spec_resources (ji_spec job)) (ni_available_resources node)"
  shows "plan_of srt m now = [(ji_job_id job, n)]"
proof -
  have "strict_weak_order lt (set [job])" if "\<not> lt job job" for lt using that by (auto simp: strict_weak_order_def)
  moreover have "\<not> schedule_before fs job job" for fs by (simp add: schedule_before_def)
  ultimately have "mset (srt (schedule_before fs) [job]) = {#job#}" for fs
    using comparison_sort.sort_perm [OF assms(1)] by simp
  then have "srt (schedule_before fs) [job] = [job]" for fs by simp
  then show ?thesis
    using assms by (simp add: plan_of_def pass_plan_def online_nodes_def get_all_nodes_def)
qed

lemma singleton_list:
  assumes "\<And>y. y \<in> set xs \<Longrightarrow> y = x" "x \<in> set xs" "distinct xs"
  shows "xs = [x]"
proof (cases xs)
  case (Cons y ys)
  then have y: "y = x" using assms(1) [of y] by simp
  have "z \<notin> set ys" for z using assms(1) [of z] assms(3) Cons y by auto
  then have "ys = []" by (cases ys) auto
  with Cons y show ?thesis by simp
qed (use assms in simp)

lemma pending_single:
  assumes "jobs_keyed jm" "get_job jm i = Some job" "ji_status job = JOB_STATUS_QUEUED"
    and "\<And>k x. get_job jm k = Some x \<Longrightarrow> ji_status x = JOB_STATUS_QUEUED \<Longrightarrow> k = i"
  shows "get_pending_jobs jm = [job]"
proof -
  have id: "ji_job_id x = k" if "get_job jm k = Some x" for k x
    using that assms(1) by (simp add: get_job_def keyed_map_of)
  have queued: "x \<in> set (get_pending_jobs jm) \<longleftrightarrow> get_job jm (ji_job_id x) = Some x \<and> ji_status x = JOB_STATUS_QUEUED" for x
    by (rule pending_keyed(1) [OF assms(1)])
  have "x = job" if "x \<in> set (get_pending_jobs jm)" for x
  proof -
    have "ji_job_id x = i" using that queued assms(4) by blast
    then show ?thesis using that queued [of x] assms(2) by simp
  qed
  moreover have "job \<in> set (get_pending_jobs jm)" using assms(2,3) id [OF assms(2)] queued by simp
  moreover have "distinct (get_pending_jobs jm)"
    using pending_keyed(2) [OF assms(1)] by (simp add: distinct_map)
  ultimately show ?thesis by (rule singleton_list)
qed

text \<open>The one queued job of a system whose scheduler is idle gets placed by the next pass.\<close>

lemma pass_places:
  assumes r: "grid_reachable lib config api tj oj srt g" "comparison_sort srt" and idle: "cl_plan (gr_cluster g) = []"
    and pending: "get_pending_jobs (job_mgr (master_of g)) = [job]" and n: "known_node (master_of g) n"
    and fit: "\<And>node. get_node (node_reg (master_of g)) n = Some node \<Longrightarrow> fits (spec_resources (ji_spec job)) (ni_available_resources node)"
  shows "\<exists>m'. (fresh_step False lib config api tj oj srt)\<^sup>*\<^sup>* g (with_master m' g) \<and>
    jobs_keyed (job_mgr m') \<and> get_job (job_mgr m') (ji_job_id job) = map_option (status_update now JOB_STATUS_ASSIGNED n) (get_job (job_mgr (master_of g)) (ji_job_id job))"
proof -
  let ?m = "master_of g" and ?i = "ji_job_id job"
  note ok = grid_reachable_ok [OF r]
  obtain node where node: "node_reg ?m = [(n, node)]"
    using single_node [of "node_reg ?m" n] ok(1,2) n by (auto simp: grid_ok_def master_fits_def master_ok_def known_node_def)
  then have get: "get_node (node_reg ?m) n = Some node" by (simp add: get_node_def)
  have "ni_status node = NODE_STATUS_ONLINE" "keyed ni_node_id (node_reg ?m)"
    using ok(2) get registry_okD(1) unfolding master_ok_def by blast+
  moreover from this(2) have "ni_node_id node = n" by (simp add: node keyed_def)
  ultimately have plan: "plan_of srt ?m now = [(?i, n)]"
    using single_job_plan [OF r(2) pending node] fit [OF get] by blast
  let ?m1 = "?m\<lparr>fair_share_mgr := apply_decay (fair_share_mgr ?m) now\<rparr>"
  let ?m2 = "?m1\<lparr>job_mgr := snd (update_job_status (job_mgr ?m) now ?i JOB_STATUS_ASSIGNED n)\<rparr>"
  let ?g1 = "g\<lparr>gr_cluster := (gr_cluster g)\<lparr>cl_master := ?m1, cl_plan := [(?i, n)]\<rparr>\<rparr>"
  have "grid_step_in False lib config api tj oj srt g ?g1"
    using grid_step_in.Pass_begin [OF idle, of False lib config api tj oj srt now] pending plan by simp
  then have s1: "fresh_step False lib config api tj oj srt g ?g1" by (simp add: fresh_step_def not_redrawn(1))
  have "fresh_step False lib config api tj oj srt ?g1 (g\<lparr>gr_cluster := (gr_cluster g)\<lparr>cl_master := ?m2, cl_plan := []\<rparr>\<rparr>)"
    using grid_step_in.Pass_assign [of ?g1 ?i n "[]" False lib config api tj oj srt now] not_redrawn(3) [of "?m2" "?m1" now ?i JOB_STATUS_ASSIGNED n]
    by (simp add: fresh_step_def)
  moreover have "(gr_cluster g)\<lparr>cl_master := ?m2, cl_plan := []\<rparr> = (gr_cluster g)\<lparr>cl_master := ?m2\<rparr>"
    using idle by (cases "gr_cluster g") simp
  ultimately have "(fresh_step False lib config api tj oj srt)\<^sup>*\<^sup>* g (with_master ?m2 g)"
    using s1 by (simp add: with_master_def)
  moreover have "jobs_keyed (job_mgr ?m2)" using ok(2) by (simp add: master_ok_def update_job_status_keyed)
  ultimately show ?thesis by (intro exI [of _ ?m2]) (simp add: job_simps)
qed

text \<open>
  C5: A job submitted in the browser can always be finished.  In every reachable state with an idle
  scheduler, an empty queue and an idle agent whose node has the resources reported free, the
  \<open>POST /api/v1/jobs\<close> of any user leaves a queued job of that user, and from there a run of the system
  takes it to \<open>COMPLETED\<close> without any message lost, whatever other jobs wait for the agent and in
  whatever order it is offered them.
\<close>

theorem rest_job_completes:
  assumes r: "grid_reachable lib config api to_json of_json srt g" "comparison_sort srt"
    and idle: "cl_plan (gr_cluster g) = []" "get_pending_jobs (job_mgr (master_of g)) = []"
    and agent: "k < length (gr_agents g)" "idle_agent (gr_agents g ! k)" "n = ad_node_id (ap_daemon (gr_agents g ! k))"
    and fit: "get_node (node_reg (master_of g)) n = Some node" "fits (spec_resources spec) (ni_available_resources node)"
    and call: "brings_job lib env bytes req spec" "i = job_id_of_uuid uuid" "u = caller_of (setup_context (bearer_token req))"
  shows "\<exists>res m1 effects g'.
    do_accept lib config env (master_stub_of api to_json of_json uuid now rnd) (master_of g) (Received bytes) = Inr (res, m1, effects) \<and>
    get_job (job_mgr m1) i = Some (new_job_info i now spec u u) \<and>
    (grid_step_in False lib config api to_json of_json srt)\<^sup>*\<^sup>* (with_master m1 g) g' \<and>
    map_option ji_status (get_job (job_mgr (master_of g')) i) = Some JOB_STATUS_COMPLETED"
proof -
  let ?m1 = "snd (snd (submit_job_rpc api (master_of g) uuid now (setup_context (bearer_token req)) spec))"
  let ?g1 = "with_master ?m1 g" and ?job = "new_job_info i now spec u u"
  obtain res effects where web: "do_accept lib config env (master_stub_of api to_json of_json uuid now rnd) (master_of g)
      (Received bytes) = Inr (res, ?m1, effects)"
    using connection_submits [OF call(1)] by blast
  have r1: "grid_reachable lib config api to_json of_json srt ?g1"
    by (rule grid_reachable.Step [OF r(1) grid_step_in.Web [OF web]])
  have job: "get_job (job_mgr ?m1) i = Some ?job" by (simp add: get_job_submit call(2,3))
  have keyed: "jobs_keyed (job_mgr (master_of g))" using grid_reachable_ok(2) [OF r] by (simp add: master_ok_def)
  have "k = i" if "get_job (job_mgr ?m1) k = Some x" "ji_status x = JOB_STATUS_QUEUED" for k x
  proof (rule ccontr)
    assume "k \<noteq> i"
    with that(1) have x: "get_job (job_mgr (master_of g)) k = Some x" by (simp add: get_job_submit call(2))
    then have "ji_job_id x = k" using keyed by (simp add: get_job_def keyed_map_of)
    with x that(2) pending_keyed(1) [OF keyed, of x] idle(2) show False by simp
  qed
  moreover have "jobs_keyed (job_mgr ?m1)" using grid_reachable_ok(2) [OF r1 r(2)] by (simp add: master_ok_def)
  ultimately have pending: "get_pending_jobs (job_mgr (master_of ?g1)) = [?job]"
    using pending_single [OF _ job] by simp
  obtain m2 where pass: "(grid_step_in False lib config api to_json of_json srt)\<^sup>*\<^sup>* ?g1 (with_master m2 ?g1)" "jobs_keyed (job_mgr m2)"
    "get_job (job_mgr m2) i = Some (status_update 0 JOB_STATUS_ASSIGNED n ?job)"
    using pass_places [OF r1 r(2) _ pending, of n 0] idle(1) fit job by (auto simp: known_node_def dest: fresh_steps)
  obtain m3 a3 where run: "agent_pair\<^sup>*\<^sup>* (m2, gr_agents g ! k) (m3, a3)" "\<And>j. finished_for n (get_job (job_mgr m2) j) (get_job (job_mgr m3) j)"
    using idle_agent_drains [OF agent(2) pass(2) agent(3)] by blast
  let ?g2 = "with_master m2 ?g1"
  have "(grid_step_in False lib config api to_json of_json srt)\<^sup>*\<^sup>* ?g2 (with_master m3 (?g2\<lparr>gr_agents := (gr_agents ?g2)[k := a3]\<rparr>))"
    using agent_run_grid [of ?g2 k "(m3, a3)"] run(1) agent(1) by simp
  with pass(1) have "(grid_step_in False lib config api to_json of_json srt)\<^sup>*\<^sup>* ?g1 (with_master m3 (?g2\<lparr>gr_agents := (gr_agents ?g2)[k := a3]\<rparr>))"
    by (rule rtranclp_trans)
  moreover have "map_option ji_status (get_job (job_mgr m3) i) = Some JOB_STATUS_COMPLETED"
    using run(2) [of i] pass(3) by (simp add: finished_for_def awaits_def)
  ultimately show ?thesis
    using web job by (intro exI [of _ res] exI [of _ ?m1] exI [of _ effects]) auto
qed

section \<open>Jobs that run twice\<close>

lemma idle_fields:
  assumes "idle_agent a" "running_jobs ex = []"
  shows "idle_agent (with_executor ex a)"
  using assms by (simp add: idle_agent_def)

text \<open>
  The polling loop is answered again before the first thread has reported its start, and acts on the
  answer when that thread is over.
\<close>

abbreviation holding :: "fetch_job_response \<Rightarrow> agent_process \<Rightarrow> agent_process" where
  "holding offer a \<equiv> a\<lparr>ap_offer := Some (Status_OK, offer)\<rparr>"

lemma fetched_again:
  assumes "idle_agent a" "fetch_job_rpc m (ad_node_id (ap_daemon a)) = (Status_OK, offer)" "fj_has_job offer"
  shows "agent_pair\<^sup>*\<^sup>* (m, a) (m, holding offer (started os offer a))"
proof -
  have "agent_pair (m, started os offer a) (m, holding offer (started os offer a))"
    using assms by (simp add: agent_pair_def agent_step_in.Fetch started_def with_executor_def idle_agent_def)
  with idle_starts [OF assms, of os] show ?thesis by (rule rtranclp.rtrancl_into_rtrancl)
qed

lemma first_ends:
  assumes a: "idle_agent a" and os: "healthy os" and known: "get_job (job_mgr m) (fj_job_id offer) \<noteq> None"
  shows "\<exists>m' ex. agent_pair\<^sup>*\<^sup>* (m, holding offer (started os offer a)) (m', holding offer (with_executor ex a)) \<and>
    idle_agent (with_executor ex a) \<and> get_job (job_mgr m') (fj_job_id offer) \<noteq> None \<and>
    map_option ji_status (get_job (job_mgr m') (fj_job_id offer)) = Some JOB_STATUS_COMPLETED"
proof -
  let ?i = "fj_job_id offer"
  obtain ex evs where run: "execution_thread id id os (snd (execute_async (executor_of a) ?i)) ?i (fj_spec offer) = (Returned, ex, evs)"
    using finished_executor(2) [OF a _ os] by (metis prod_cases3)
  let ?m' = "deliver_all m 0 (ap_daemon a) evs"
  have "idle_agent (with_executor ex a)" by (rule idle_fields [OF a finished_executor(1) [OF a run os]])
  moreover have "agent_pair\<^sup>*\<^sup>* (m, holding offer (started os offer a)) (?m', holding offer (with_executor ex a))"
    using started_finishes [OF a os run, of m "Some (Status_OK, offer)" 0] by (cases a) (simp add: with_executor_def)
  moreover obtain job where "get_job (job_mgr m) ?i = Some job" using known by blast
  from execution_result [OF run this, of 0 "ap_daemon a"] os
  have "map_option ji_status (get_job (job_mgr ?m') ?i) = Some JOB_STATUS_COMPLETED"
    by (simp add: recorded_status_def healthy_def)
  moreover from this have "get_job (job_mgr ?m') ?i \<noteq> None" by auto
  ultimately show ?thesis by blast
qed

lemma starts_again:
  assumes "idle_agent a" "fj_has_job offer"
  shows "agent_pair (m, holding offer a) (m, started os offer a)"
proof -
  let ?i = "fj_job_id offer"
  let ?d = "(ap_daemon a)\<lparr>ad_executor := snd (execute_async (executor_of a) ?i)\<rparr>"
  have "poll (ap_daemon a) Status_OK offer = (Some (?i, fj_spec offer), ?d)"
    using assms by (simp add: poll_def fetch_reply_def execute_async_def idle_agent_def)
  moreover have "(holding offer a)\<lparr>ap_daemon := ?d, ap_offer := None, ap_threads := [spawned os offer]\<rparr> = started os offer a"
    using assms(1) by (cases a) (simp add: started_def with_executor_def idle_agent_def)
  ultimately show ?thesis
    using agent_step_in.Poll [of "holding offer a" Status_OK offer _ _ False m os] assms(1)
    by (simp add: agent_pair_def new_threads_def idle_agent_def)
qed

text \<open>A started thread as far as the end of its child, which it has still to remove from the table.\<close>

lemma started_reaps:
  assumes "healthy os" "get_job (job_mgr m) (fj_job_id offer) \<noteq> None"
  shows "\<exists>m' a'. agent_pair\<^sup>*\<^sup>* (m, started os offer a) (m', a') \<and> ap_threads a' = [(spawned os offer)\<lparr>th_phase := Reaped\<rparr>] \<and>
    map_option ji_status (get_job (job_mgr m') (fj_job_id offer)) = Some JOB_STATUS_RUNNING"
proof -
  let ?s = "started os offer a" and ?th = "spawned os offer"
  let ?at = "\<lambda>ex p. with_executor ex (a\<lparr>ap_threads := [] @ ?th\<lparr>th_phase := p\<rparr> # []\<rparr>)"
  define ex where "ex = snd (execute_async (executor_of a) (fj_job_id offer))"
  define ex1 where "ex1 = register_pid ex (fj_job_id offer) (os_fork os)"
  define m' where "m' = deliver m 0 (Report_started \<lparr>rp_node_id = ad_node_id (ap_daemon a), rp_job_id = fj_job_id offer\<rparr> (os_fork os))"
  note os = healthy_spawns [OF assms(1)]
  then have 1: "agent_pair (m, ?s) (m, ?at ex Forked)"
    using agent_step_in.Fork [of ?s "[]" ?th "[]" False m] by (simp add: agent_pair_def started_def ex_def)
  have 2: "agent_pair (m, ?at ex Forked) (m, ?at ex1 Pid_known)"
    using agent_step_in.Register_pid [of "?at ex Forked" "[]" "?th\<lparr>th_phase := Forked\<rparr>" "[]" False m]
    by (simp add: agent_pair_def ex1_def)
  have "m' = delivered m 0 (callback (ap_daemon a) (Started (fj_job_id offer) (os_fork os)))"
    by (simp add: m'_def delivered_def)
  then have 3: "agent_pair (m, ?at ex1 Pid_known) (m', ?at ex1 Announced)"
    using agent_step_in.Announce [of "?at ex1 Pid_known" "[]" "?th\<lparr>th_phase := Pid_known\<rparr>" "[]" m' m 0 False]
    by (simp add: agent_pair_def del: callback.simps)
  have 4: "agent_pair (m', ?at ex1 Announced) (m', ?at ex1 Reaped)"
    using agent_step_in.Reap [of "?at ex1 Announced" "[]" "?th\<lparr>th_phase := Announced\<rparr>" "[]" False m'] os
    by (simp add: agent_pair_def)
  have "agent_pair\<^sup>*\<^sup>* (m, ?s) (m', ?at ex1 Reaped)"
    using 1 2 3 4 by (meson converse_rtranclp_into_rtranclp r_into_rtranclp)
  moreover have "map_option ji_status (get_job (job_mgr m') (fj_job_id offer)) = Some JOB_STATUS_RUNNING"
    using assms(2) by (auto simp: m'_def get_job_deliver simp del: deliver.simps)
  ultimately show ?thesis by (intro exI [of _ m'] exI [of _ "?at ex1 Reaped"]) simp
qed

text \<open>
  C10: A completed job runs again, although every message arrives and no process ends, and one agent is
  enough.  Whenever an idle agent is offered a job, a run without faults leads to a state in which the
  master is as before and the agent, while its thread for the job has not yet reported the start, already
  holds a second offer of the job; from there to one in which the job is \<open>COMPLETED\<close>, its thread is over,
  and the agent still holds that offer; the next step of the polling loop starts the job a second time;
  and a further run takes it back to \<open>RUNNING\<close> at the master.
\<close>

theorem grid_reruns_completed:
  assumes r: "grid_reachable lib config api to_json of_json srt g" "comparison_sort srt"
    and agent: "k < length (gr_agents g)" "idle_agent (gr_agents g ! k)"
    and fetch: "fetch_job_rpc (master_of g) (ad_node_id (ap_daemon (gr_agents g ! k))) = (Status_OK, offer)" "fj_has_job offer"
    and os: "healthy os"
    and run: "run = grid_step_in False lib config api to_json of_json srt" and i: "i = fj_job_id offer"
  shows "\<exists>g1 g2 g3 g4. run\<^sup>*\<^sup>* g g1 \<and> run\<^sup>*\<^sup>* g1 g2 \<and> run g2 g3 \<and> run\<^sup>*\<^sup>* g3 g4 \<and>
    master_of g1 = master_of g \<and> ap_threads (gr_agents g1 ! k) = [spawned os offer] \<and>
    ap_offer (gr_agents g1 ! k) = Some (Status_OK, offer) \<and>
    map_option ji_status (get_job (job_mgr (master_of g2)) i) = Some JOB_STATUS_COMPLETED \<and>
    ap_threads (gr_agents g2 ! k) = [] \<and> ap_offer (gr_agents g2 ! k) = Some (Status_OK, offer) \<and>
    master_of g3 = master_of g2 \<and> ap_threads (gr_agents g3 ! k) = [spawned os offer] \<and>
    map_option ji_status (get_job (job_mgr (master_of g4)) i) = Some JOB_STATUS_RUNNING"
proof -
  let ?a = "gr_agents g ! k" and ?m = "master_of g"
  let ?at = "\<lambda>m a. with_master m (g\<lparr>gr_agents := (gr_agents g)[k := a]\<rparr>)"
  have move: "run\<^sup>*\<^sup>* (?at m a) (?at m' a')" if "agent_pair\<^sup>*\<^sup>* (m, a) (m', a')" for m a m' a'
    using agent_run_grid [of "?at m a" k "(m', a')" lib config api to_json of_json srt] that agent(1)
    by (simp add: run with_master_def)
  have g: "?at ?m ?a = g" using agent(1) by (simp add: with_master_def)
  have keyed: "jobs_keyed (job_mgr ?m)" using grid_reachable_ok(2) [OF r] by (simp add: master_ok_def)
  have known: "get_job (job_mgr ?m) i \<noteq> None" using fetched_known [OF fetch keyed] by (simp add: known_job_def i)
  let ?a1 = "holding offer (started os offer ?a)"
  obtain m2 ex where first: "agent_pair\<^sup>*\<^sup>* (?m, ?a1) (m2, holding offer (with_executor ex ?a))"
    "idle_agent (with_executor ex ?a)" "get_job (job_mgr m2) i \<noteq> None"
    "map_option ji_status (get_job (job_mgr m2) i) = Some JOB_STATUS_COMPLETED"
    using first_ends [OF agent(2) os known [unfolded i]] by (auto simp only: i)
  let ?b = "with_executor ex ?a"
  obtain m4 a4 where again: "agent_pair\<^sup>*\<^sup>* (m2, started os offer ?b) (m4, a4)"
    "map_option ji_status (get_job (job_mgr m4) i) = Some JOB_STATUS_RUNNING"
    using started_reaps [OF os first(3) [unfolded i], of ?b] by (auto simp only: i)
  have s: "agent_pair (m2, holding offer ?b) (m2, started os offer ?b)" by (rule starts_again [OF first(2) fetch(2)])
  have "run (?at m2 (holding offer ?b)) (?at m2 (started os offer ?b))"
    using grid_step_in.Agent [of k "?at m2 (holding offer ?b)" False m2 "started os offer ?b" lib config api to_json of_json srt] s agent(1)
    by (simp add: agent_pair_def run with_master_def)
  moreover have "ap_threads ?b = []" using first(2) by (simp add: idle_agent_def)
  ultimately show ?thesis
    using move [OF fetched_again [OF agent(2) fetch, of os]] move [OF first(1)] move [OF again(1)] first(4) again(2) agent(1)
    unfolding g
    by (intro exI [of _ "?at ?m ?a1"] exI [of _ "?at m2 (holding offer ?b)"] exI [of _ "?at m2 (started os offer ?b)"]
        exI [of _ "?at m4 a4"]) (simp add: started_def)
qed

text \<open>
  C13: What a cancellation reaches.  On every agent of a reachable state, at most one of the threads of a
  job holds its entry, while one does a second start of the job is refused, and every job a thread runs
  is known to the master.  A cancel signals only the pid of the thread that holds the entry of that very
  job; but until the thread has removed the entry this is also so when its child was already reaped.
\<close>

theorem grid_cancel_targets:
  assumes "grid_reachable lib config api to_json of_json srt g" "comparison_sort srt" "a \<in> set (gr_agents g)"
  shows "(ap_threads a = xs @ th # ys \<longrightarrow> holds_entry th \<longrightarrow> th' \<in> set (xs @ ys) \<longrightarrow> th_job th' = th_job th \<longrightarrow>
      \<not> holds_entry th') \<and>
    (th \<in> set (ap_threads a) \<longrightarrow> holds_entry th \<longrightarrow> \<not> fst (execute_async (executor_of a) (th_job th))) \<and>
    (th \<in> set (ap_threads a) \<longrightarrow> get_job (job_mgr (master_of g)) (th_job th) \<noteq> None) \<and>
    (cancel (executor_of a) i = Some p \<longrightarrow>
      (\<exists>th\<in>set (ap_threads a). th_job th = i \<and> th_phase th \<in> {Pid_known, Announced, Reaped} \<and> os_fork (th_os th) = p)) \<and>
    (th \<in> set (ap_threads a) \<longrightarrow> th_phase th \<in> {Pid_known, Announced, Reaped} \<longrightarrow> os_fork (th_os th) > 0 \<longrightarrow>
      cancel (executor_of a) (th_job th) = Some (os_fork (th_os th)))"
proof -
  have ok: "process_ok a" "agent_known (master_of g) a"
    using grid_reachable_ok(1) [OF assms(1,2)] assms(3) by (simp_all add: grid_ok_def)
  show ?thesis
  proof (rule conj_goals(4); (intro impI)?)
    show "\<not> holds_entry th'" if "ap_threads a = xs @ th # ys" "holds_entry th" "th' \<in> set (xs @ ys)" "th_job th' = th_job th"
      using one_holder [OF ok(1)] that by blast
    show "\<not> fst (execute_async (executor_of a) (th_job th))" if "th \<in> set (ap_threads a)" "holds_entry th"
      using process_okD [OF ok(1) that] by (simp add: execute_async_def)
    show "get_job (job_mgr (master_of g)) (th_job th) \<noteq> None" if "th \<in> set (ap_threads a)"
      using that ok(2) by (simp add: agent_known_def known_job_def)
    show "\<exists>th\<in>set (ap_threads a). th_job th = i \<and> th_phase th \<in> {Pid_known, Announced, Reaped} \<and> os_fork (th_os th) = p"
      if "cancel (executor_of a) i = Some p"
      by (rule cancel_hits_thread [OF ok(1) that])
    show "cancel (executor_of a) (th_job th) = Some (os_fork (th_os th))"
      if "th \<in> set (ap_threads a)" "th_phase th \<in> {Pid_known, Announced, Reaped}" "os_fork (th_os th) > 0"
      using process_okD [OF ok(1) that(1)] that(2,3) by (auto simp: cancel_def phase_defs)
  qed
qed

section \<open>The properties on a small run\<close>

definition job_call :: http_request where
  "job_call = \<lparr>rq_method = POST, rq_target = ''/api/v1/jobs'', rq_authorization = Some ''Bearer mock-jwt-for-admin'',
     rq_body = ''2''\<rparr>"

definition job_library :: http_library where
  "job_library = \<lparr>lib_read = (\<lambda>limit bytes. Inr job_call), lib_is_upgrade = (\<lambda>_. False)\<rparr>"

abbreviation small_spec :: job_spec where
  "small_spec \<equiv> default_job_spec\<lparr>spec_name := ''a'', spec_command := ''ls'',
     spec_resources := default_resource_spec\<lparr>cpu_cores := 1, ram_mb := 1024\<rparr>\<rparr>"

lemma demo_brings: "brings_job job_library (demo_env demo_parse no_files) ''x'' job_call small_spec"
  by (simp add: brings_job_def job_library_def job_call_def body_object_def demo_env_def demo_parse_def
      submit_request_def optional_string_cases)

lemma demo_idle:
  "idle_agent demo_agent" "get_pending_jobs (job_mgr (cl_master run1)) = []"
  "get_node (node_reg (cl_master run1)) ''node-00000000'' = Some run_node"
  by (simp_all add: idle_agent_def get_pending_jobs_def list_jobs_def run1_registered get_node_def new_executor_def)

lemma demo_fits: "fits (spec_resources small_spec) (ni_available_resources run_node)"
  by (simp add: fits_def new_node_def total_resources_def default_agent_config_def default_resource_spec_def
      word_le_nat_alt)

theorem rest_job_completes_witness:
  "\<exists>m1 g'. (grid_step_in False job_library default_gateway_config ref_api no_json no_parse std_sort)\<^sup>*\<^sup>* (with_master m1 demo_grid) g' \<and>
     map_option ji_status (get_job (job_mgr (master_of g')) ''job-11111111'') = Some JOB_STATUS_COMPLETED"
proof -
  have i: "''job-11111111'' = job_id_of_uuid ''11111111''" by (simp add: job_id_of_uuid_def)
  have a: "0 < length (gr_agents demo_grid)" "idle_agent (gr_agents demo_grid ! 0)"
    "''node-00000000'' = ad_node_id (ap_daemon (gr_agents demo_grid ! 0))"
    using demo_idle(1) by simp_all
  have p: "get_pending_jobs (job_mgr (master_of demo_grid)) = []"
    "get_node (node_reg (master_of demo_grid)) ''node-00000000'' = Some run_node"
    using demo_idle by simp_all
  from rest_job_completes [OF demo_grid_reachable std.comparison_sort_axioms demo_agent_fields(3) p(1) a p(2)
      demo_fits demo_brings i refl, of 5 0]
  show ?thesis by blast
qed

text \<open>The same system with the job placed: its agent is offered it.\<close>

abbreviation demo_fresh :: "tables grid \<Rightarrow> bool" where
  "demo_fresh g \<equiv> (fresh_step True job_library default_gateway_config ref_api no_json no_parse std_sort)\<^sup>*\<^sup>*
     (start_grid ref_api default_master_config 0 no_tables no_tables) g"

lemma demo_fresh_reachable: "demo_fresh g \<Longrightarrow> demo_reachable job_library g"
  by (rule grid_steps_reachable [OF fresh_steps grid_reachable.Start])

lemma demo_offered_run:
  "\<exists>m offer. demo_fresh (with_master m demo_grid) \<and> jobs_keyed (job_mgr m) \<and>
     fetch_job_rpc m ''node-00000000'' = (Status_OK, offer) \<and> fj_has_job offer"
proof -
  let ?i = "job_id_of_uuid ''11111111''" and ?md = "setup_context (bearer_token job_call)"
  let ?m1 = "snd (snd (submit_job_rpc ref_api (cl_master run1) ''11111111'' 5 ?md small_spec))"
  let ?job = "new_job_info ?i 5 small_spec (caller_of ?md) (caller_of ?md)"
  let ?g1 = "with_master ?m1 demo_grid"
  obtain res effects where "do_accept job_library default_gateway_config (demo_env demo_parse no_files)
      (master_stub_of ref_api no_json no_parse ''11111111'' 5 0) (master_of demo_grid) (Received ''x'') = Inr (res, ?m1, effects)"
    using connection_submits [OF demo_brings, of default_gateway_config ref_api no_json no_parse "''11111111''" 5 0 "cl_master run1"]
    by (simp only: demo_agent_fields) blast
  from grid_step_in.Web [OF this, of True] not_redrawn(2) [of "cl_master run1" ?m1]
  have "fresh_step True job_library default_gateway_config ref_api no_json no_parse std_sort demo_grid ?g1"
    by (simp add: fresh_step_def get_job_def run1_registered)
  with demo_grid_run have f1: "demo_fresh ?g1" by (rule rtranclp.rtrancl_into_rtrancl)
  then have r1: "demo_reachable job_library ?g1" by (rule demo_fresh_reachable)
  have job: "get_job (job_mgr ?m1) ?i = Some ?job" by (simp add: get_job_submit)
  have "get_job (job_mgr (cl_master run1)) k = None" for k by (simp add: get_job_def run1_registered)
  then have "k = ?i" if "get_job (job_mgr ?m1) k = Some x" for k x
    using that by (cases "k = ?i") (simp_all add: get_job_submit)
  moreover have "jobs_keyed (job_mgr ?m1)"
    using grid_reachable_ok(2) [OF r1 std.comparison_sort_axioms] by (simp add: master_ok_def)
  ultimately have pending: "get_pending_jobs (job_mgr (master_of ?g1)) = [?job]"
    using pending_single [OF _ job] by simp
  have node: "node_reg ?m1 = node_reg (cl_master run1)" by simp
  obtain m2 where m2: "(fresh_step False job_library default_gateway_config ref_api no_json no_parse std_sort)\<^sup>*\<^sup>* ?g1 (with_master m2 ?g1)"
    "jobs_keyed (job_mgr m2)" "get_job (job_mgr m2) ?i = Some (status_update 0 JOB_STATUS_ASSIGNED ''node-00000000'' ?job)"
    using pass_places [OF r1 std.comparison_sort_axioms _ pending, of "''node-00000000''" 0] demo_idle(3) demo_fits job
    by (auto simp: known_node_def)
  have "demo_fresh (with_master m2 demo_grid)"
    using rtranclp_trans [OF f1 fresh_steps_faults [OF m2(1)]] by (simp add: with_master_def)
  moreover have "\<exists>offer. fetch_job_rpc m2 ''node-00000000'' = (Status_OK, offer) \<and> fj_has_job offer"
    using m2(2)
  proof (cases rule: fetch_job_rpc_cases [of m2 "''node-00000000''"])
    case none
    then show ?thesis using none(2) [OF m2(3)] by simp
  qed simp
  ultimately show ?thesis using m2(2) by blast
qed

lemma demo_offered:
  "\<exists>m offer. demo_reachable job_library (with_master m demo_grid) \<and> jobs_keyed (job_mgr m) \<and>
     fetch_job_rpc m ''node-00000000'' = (Status_OK, offer) \<and> fj_has_job offer"
  using demo_offered_run demo_fresh_reachable by blast

definition healthy_os :: os_run where
  "healthy_os = \<lparr>os_pipe_ok = True, os_sandbox_ok = True, os_fork = 42, os_reads = [''out''], os_ends = True, os_wait = Exited 0\<rparr>"

lemma healthy_os: "healthy healthy_os"
  by (simp add: healthy_def healthy_os_def)

theorem grid_reruns_completed_witness:
  "\<exists>g g' i. demo_reachable job_library g \<and>
     map_option ji_status (get_job (job_mgr (master_of g)) i) = Some JOB_STATUS_COMPLETED \<and>
     grid_step_in False job_library default_gateway_config ref_api no_json no_parse std_sort g g' \<and>
     (\<exists>th\<in>set (ap_threads (gr_agents g' ! 0)). th_job th = i \<and> th_phase th = Spawned)"
proof -
  obtain m offer where r: "demo_reachable job_library (with_master m demo_grid)"
    and f: "fetch_job_rpc m ''node-00000000'' = (Status_OK, offer)" "fj_has_job offer"
    using demo_offered by blast
  let ?g = "with_master m demo_grid"
  let ?run = "grid_step_in False job_library default_gateway_config ref_api no_json no_parse std_sort"
  have a: "0 < length (gr_agents ?g)" "idle_agent (gr_agents ?g ! 0)" using demo_idle(1) by simp_all
  have "fetch_job_rpc (master_of ?g) (ad_node_id (ap_daemon (gr_agents ?g ! 0))) = (Status_OK, offer)" using f(1) by simp
  from grid_reruns_completed [OF r std.comparison_sort_axioms a this f(2) healthy_os refl refl] obtain g1 g2 g3 where
    g: "?run\<^sup>*\<^sup>* ?g g1" "?run\<^sup>*\<^sup>* g1 g2" "?run g2 g3"
    "map_option ji_status (get_job (job_mgr (master_of g2)) (fj_job_id offer)) = Some JOB_STATUS_COMPLETED"
    "ap_threads (gr_agents g3 ! 0) = [spawned healthy_os offer]" by blast
  have "demo_reachable job_library g2"
    by (rule grid_steps_reachable [OF grid_steps_faults [OF rtranclp_trans [OF g(1,2)]] r])
  with g(3-5) show ?thesis by force
qed

text \<open>The agent has run the job and not yet removed it from its table.\<close>

lemma demo_reaped:
  "\<exists>m a offer. demo_reachable job_library (with_master m (demo_grid\<lparr>gr_agents := [a]\<rparr>)) \<and>
     ap_threads a = [(spawned healthy_os offer)\<lparr>th_phase := Reaped\<rparr>] \<and>
     map_option ji_status (get_job (job_mgr m) (fj_job_id offer)) = Some JOB_STATUS_RUNNING"
proof -
  obtain m offer where r: "demo_reachable job_library (with_master m demo_grid)" "jobs_keyed (job_mgr m)"
    and f: "fetch_job_rpc m ''node-00000000'' = (Status_OK, offer)" "fj_has_job offer"
    using demo_offered by blast
  let ?g = "with_master m demo_grid"
  have "get_job (job_mgr m) (fj_job_id offer) \<noteq> None"
    using fetched_known [OF f r(2)] by (simp add: known_job_def)
  from started_reaps [OF healthy_os this] obtain m' a' where
    run: "agent_pair\<^sup>*\<^sup>* (m, started healthy_os offer demo_agent) (m', a')"
      "ap_threads a' = [(spawned healthy_os offer)\<lparr>th_phase := Reaped\<rparr>]"
      "map_option ji_status (get_job (job_mgr m') (fj_job_id offer)) = Some JOB_STATUS_RUNNING" by blast
  have "agent_pair\<^sup>*\<^sup>* (master_of ?g, gr_agents ?g ! 0) (m', a')"
    using idle_starts [OF demo_idle(1) _ f(2), of m healthy_os] f(1) run(1) by (simp add: rtranclp_trans)
  from grid_steps_reachable [OF grid_steps_faults [OF agent_run_grid [OF this]] r(1)]
  have "demo_reachable job_library (with_master m' (demo_grid\<lparr>gr_agents := [a']\<rparr>))"
    by (simp add: with_master_def)
  with run(2,3) show ?thesis by blast
qed

theorem grid_cancel_targets_witness:
  "\<exists>g a th. demo_reachable job_library g \<and> a \<in> set (gr_agents g) \<and> th \<in> set (ap_threads a) \<and> th_phase th = Reaped \<and>
     cancel (executor_of a) (th_job th) = Some 42"
proof -
  obtain m a offer where g: "demo_reachable job_library (with_master m (demo_grid\<lparr>gr_agents := [a]\<rparr>))"
    and th: "ap_threads a = [(spawned healthy_os offer)\<lparr>th_phase := Reaped\<rparr>]"
    using demo_reaped by blast
  let ?g = "with_master m (demo_grid\<lparr>gr_agents := [a]\<rparr>)" and ?th = "(spawned healthy_os offer)\<lparr>th_phase := Reaped\<rparr>"
  have a: "a \<in> set (gr_agents ?g)" by simp
  from grid_cancel_targets [THEN conjunct2, THEN conjunct2, THEN conjunct2, THEN conjunct2, THEN mp, THEN mp, THEN mp,
      OF g std.comparison_sort_axioms a, of ?th]
  have "cancel (executor_of a) (th_job ?th) = Some 42" by (simp add: th healthy_os_def)
  with g a th show ?thesis by (intro exI [of _ ?g] exI [of _ a] exI [of _ ?th]) simp
qed

end
