(* ===== verification/Grid_Orphans.thy ===== *)
theory Grid_Orphans
  imports Grid_Runs
begin

text \<open>
  Jobs whose agent is gone.  A process that ends takes its execution threads with it, and the master
  never looks at the heartbeats it misses: nothing ever ends such a job or starts it again.
\<close>

definition touches :: "string \<Rightarrow> agent_process \<Rightarrow> bool" where
  "touches i a \<longleftrightarrow> (\<exists>th\<in>set (ap_threads a). th_job th = i) \<or>
     (\<exists>st offer. ap_offer a = Some (st, offer) \<and> fj_has_job offer \<and> fj_job_id offer = i)"

definition job_in :: "job_status set \<Rightarrow> string \<Rightarrow> 'db master \<Rightarrow> bool" where
  "job_in S i m \<longleftrightarrow> (\<exists>job. get_job (job_mgr m) i = Some job \<and> ji_status job \<in> S)"

abbreviation dead_status :: "job_status set" where
  "dead_status \<equiv> {JOB_STATUS_RUNNING, JOB_STATUS_CANCELLED}"

text \<open>The master waits for a job that no process runs or was offered and no pass has chosen.\<close>

definition orphan :: "string \<Rightarrow> 'db grid \<Rightarrow> bool" where
  "orphan i g \<longleftrightarrow> job_in dead_status i (master_of g) \<and> i \<notin> fst ` set (cl_plan (gr_cluster g)) \<and>
     (\<forall>a\<in>set (gr_agents g). \<not> touches i a)"

text \<open>A new submission drew the same id.\<close>

definition id_drawn :: "string \<Rightarrow> 'db master \<Rightarrow> bool" where
  "id_drawn i m \<longleftrightarrow> (\<exists>now spec u un. get_job (job_mgr m) i = Some (new_job_info i now spec u un))"

lemma review_jobs:
  "job_mgr (snd (snd (admin_review_request api tj oj m uuid now rv))) = job_mgr m \<or>
   (\<exists>put spec u un. job_mgr (snd (snd (admin_review_request api tj oj m uuid now rv))) =
      snd (submit_job put (job_mgr m) uuid now spec u un))"
  by (auto simp: admin_review_request_def Let_def split: prod.split option.split)

lemma gateway_jobs:
  assumes "gateway_call api tj oj env uuid now rnd body m m'"
  shows "job_mgr m' = job_mgr m \<or> (\<exists>k. job_mgr m' = snd (cancel_job (job_mgr m) now k)) \<or>
    (\<exists>put spec u un. job_mgr m' = snd (submit_job put (job_mgr m) uuid now spec u un))"
  using assms
proof (cases rule: gateway_call.cases)
  case (Call_review rv)
  then show ?thesis using review_jobs [of api tj oj m uuid now rv] by blast
next
  case (Call_submit md spec)
  then have "job_mgr m' = snd (submit_job (set_kv api) (job_mgr m) uuid now spec (caller_of md) (caller_of md))" by simp
  then show ?thesis by blast
qed auto

lemma gateway_dead:
  assumes "gateway_call api tj oj env uuid now rnd body m m'" "job_in dead_status i m"
  shows "job_in dead_status i m' \<or> id_drawn i m'"
proof -
  consider "job_mgr m' = job_mgr m" | k where "job_mgr m' = snd (cancel_job (job_mgr m) now k)"
    | put spec u un where "job_mgr m' = snd (submit_job put (job_mgr m) uuid now spec u un)"
    using gateway_jobs [OF assms(1)] by blast
  then show ?thesis
  proof cases
    case (2 k)
    obtain job where job: "get_job (job_mgr m) i = Some job" "ji_status job \<in> dead_status"
      using assms(2) by (auto simp: job_in_def)
    have "get_job (job_mgr m') i = Some (if i = k \<and> \<not> terminal (ji_status job)
        then job\<lparr>ji_status := JOB_STATUS_CANCELLED, ji_completed_at := now\<rparr> else job)"
      using job(1) by (cases "i = k") (simp_all add: 2 get_job_cancel)
    with job(2) have "job_in dead_status i m'" by (auto simp: job_in_def)
    then show ?thesis ..
  next
    case (3 put spec u un)
    then show ?thesis
      using assms(2) by (cases "i = job_id_of_uuid uuid") (auto simp: job_in_def id_drawn_def get_job_submit)
  qed (use assms(2) in \<open>simp add: job_in_def\<close>)
qed

text \<open>An agent that does not touch the job changes nothing about it and does not begin to.\<close>

lemma report_other:
  "k \<noteq> i \<Longrightarrow> get_job (job_mgr (delivered m now (callback d (Started k p)))) i = get_job (job_mgr m) i"
  "res_job_id r \<noteq> i \<Longrightarrow> get_job (job_mgr (delivered m now (callback d (Completed r)))) i = get_job (job_mgr m) i"
  by (simp_all add: delivered_def get_job_deliver del: deliver.simps)

lemma agent_frame:
  assumes "agent_step m a m' a'" "\<not> touches i a" "process_ok a"
  shows "get_job (job_mgr m') i = get_job (job_mgr m) i"
  using assms(1)
proof (cases rule: agent_step_in.cases)
  case (Register uuid now st res d')
  from arg_cong [OF daemon_registers(4) [OF Register(3)], of job_mgr] show ?thesis by simp
next
  case (Register_lost uuid now st res)
  from arg_cong [OF daemon_registers(4) [OF Register_lost(3)], of job_mgr] show ?thesis by simp
next
  case (Beat h now hb d' later st answer got)
  then show ?thesis using agent_beats(2) [OF Beat(4,5)] by simp
next
  case (Announce xs th ys now)
  then have "th_job th \<noteq> i" using assms(2) by (auto simp: touches_def)
  then show ?thesis using Announce(4) report_other(1) by auto
next
  case (Report xs th ys r now)
  then have "th_job th \<noteq> i" "res_job_id r = th_job th"
    using assms(2,3) by (auto simp: touches_def process_ok_def results_ok_def)
  with report_other(2) [of r i m now "ap_daemon a"] show ?thesis using Report(4) by (auto simp del: callback.simps)
qed simp_all

lemma agent_untouched:
  assumes "agent_step m a m' a'" "\<not> touches i a" "job_in dead_status i m" "jobs_keyed (job_mgr m)"
  shows "\<not> touches i a'"
  using assms(1)
proof (cases rule: agent_step_in.cases)
  case (Fetch st offer)
  have "fj_job_id offer \<noteq> i" if "fj_has_job offer"
    using assms(4)
  proof (cases rule: fetch_job_rpc_cases [of m "ad_node_id (ap_daemon a)"])
    case none
    then show ?thesis using Fetch(5) that by (simp add: default_fetch_job_response_def)
  next
    case (job job)
    then show ?thesis using Fetch(5) assms(3) by (auto simp: job_in_def)
  qed
  then show ?thesis using Fetch(1,2) assms(2) by (auto simp: touches_def)
next
  case (Poll st offer spawn d' os)
  have "th_job th \<noteq> i" if "th \<in> set (new_threads os spawn)" for th
    using poll_spawns(3) [OF Poll(4) that] Poll(3) assms(2) by (auto simp: touches_def)
  then show ?thesis using Poll(2) assms(2) by (auto simp: touches_def)
qed (use assms(2) in \<open>auto simp: touches_def\<close>)

lemma orphan_step:
  assumes step: "grid_step lib config api tj oj srt g g'" and ok: "grid_ok g" "master_ok (master_of g)" "comparison_sort srt"
    and orphan: "orphan i g" and fresh: "\<not> id_drawn i (master_of g')"
  shows "orphan i g'"
proof -
  have keyed: "jobs_keyed (job_mgr (master_of g))" using ok(2) by (simp add: master_ok_def)
  have dead: "job_in dead_status i (master_of g)" and plan: "i \<notin> fst ` set (cl_plan (gr_cluster g))"
    and free: "\<And>a. a \<in> set (gr_agents g) \<Longrightarrow> \<not> touches i a"
    using orphan by (auto simp: orphan_def)
  show ?thesis
    using step
  proof (cases rule: grid_step_in.cases)
    case (Web env uuid now rnd conn res m' effects)
    obtain body where "gateway_call api tj oj env uuid now rnd body (master_of g) m'"
      using do_accept_call [OF Web(2)] by blast
    then have "job_in dead_status i m'" using gateway_dead dead fresh Web(1) by fastforce
    then show ?thesis using Web(1) plan free by (simp add: orphan_def)
  next
    case (Pass_begin now)
    have "pass_ready srt (fair_share_mgr (master_of g)) (job_mgr (master_of g)) (node_reg (master_of g)) now"
      using ok(2,3) by (simp add: pass_ready_def master_ok_def no_usage_comparable)
    note sound = pass_plan_sound [OF this]
    have "i \<noteq> ji_job_id job" if "(job, n) \<in> set (fst (pass_plan srt (fair_share_mgr (master_of g))
        (job_mgr (master_of g)) (node_reg (master_of g)) now))" for job n
      using sound(1,2) [OF that] dead by (auto simp: job_in_def)
    then have "i \<notin> fst ` set (plan_of srt (master_of g) now)" by (force simp: plan_of_def)
    then show ?thesis using Pass_begin(1) dead free by (simp add: orphan_def job_in_def)
  next
    case (Pass_assign k n plan' now)
    then show ?thesis using dead free plan by (auto simp: orphan_def job_in_def job_simps)
  next
    case (Agent k m' a')
    let ?a = "gr_agents g ! k"
    have a: "?a \<in> set (gr_agents g)" using Agent(2) by simp
    then have "process_ok ?a" using ok(1) by (simp add: grid_ok_def)
    from agent_frame [OF Agent(3) free [OF a] this] agent_untouched [OF Agent(3) free [OF a] dead keyed] dead
    have "job_in dead_status i m'" "\<not> touches i a'" by (simp_all add: job_in_def)
    then show ?thesis
      using Agent(1) plan free by (auto simp: orphan_def dest!: set_update_subset_insert [THEN subsetD])
  next
    case (Launch cfg)
    then show ?thesis using dead plan free by (auto simp: orphan_def touches_def new_process_def)
  next
    case (Process_end xs a ys)
    then show ?thesis using dead plan free by (simp add: orphan_def)
  qed
qed

text \<open>
  C14: A job whose agent is gone is never finished.  When the master has a job as \<open>RUNNING\<close> that no
  process runs any more or was offered, as after the end of its agent, then in every run, whatever other
  agents do and however often the scheduler passes, it stays \<open>RUNNING\<close> until it is cancelled and is
  never placed, started or ended again, as long as no new submission draws its id.
\<close>

theorem orphaned_job_stuck:
  assumes r: "grid_reachable lib config api to_json of_json srt g" "comparison_sort srt" and "orphan i g"
    and run: "(\<lambda>x y. grid_step lib config api to_json of_json srt x y \<and> \<not> id_drawn i (master_of y))\<^sup>*\<^sup>* g g'"
  shows "orphan i g' \<and> (\<exists>job. get_job (job_mgr (master_of g')) i = Some job \<and>
      ji_status job \<in> {JOB_STATUS_RUNNING, JOB_STATUS_CANCELLED}) \<and>
    (\<forall>a\<in>set (gr_agents g'). \<forall>th\<in>set (ap_threads a). th_job th \<noteq> i)"
proof -
  have "orphan i g' \<and> grid_reachable lib config api to_json of_json srt g'"
    using run
  proof (induction rule: rtranclp_induct)
    case (step x y)
    then show ?case
      using orphan_step grid_reachable_ok [OF _ r(2)] r(2) by (metis grid_reachable.Step)
  qed (use assms in simp)
  then show ?thesis by (auto simp: orphan_def job_in_def touches_def)
qed

text \<open>
  One archive can cost the jobs of a whole agent.  When the sandbox of a job cannot be made, its thread
  ends the process, and every other job that runs there, no other process touches and no pass has chosen
  is an orphan from then on.
\<close>

lemma bad_archive_orphans:
  assumes agents: "gr_agents g = xs @ a # ys" and th: "th \<in> set (ap_threads a)" "th_phase th = Spawned"
    and throws: "sandbox_throws (th_os th) (th_spec th)"
    and job: "map_option ji_status (get_job (job_mgr (master_of g)) i) = Some JOB_STATUS_RUNNING"
      "i \<notin> fst ` set (cl_plan (gr_cluster g))" "\<And>b. b \<in> set (xs @ ys) \<Longrightarrow> \<not> touches i b"
  shows "fst (execution_thread before during (th_os th) (executor_of a) (th_job th) (th_spec th)) = Process_terminated \<and>
    (\<exists>g'. grid_step lib config api to_json of_json srt g g' \<and> gr_agents g' = xs @ ys \<and> orphan i g')"
proof -
  let ?g' = "g\<lparr>gr_agents := xs @ ys\<rparr>"
  have "orphan i ?g'" using job by (auto simp: orphan_def job_in_def)
  moreover have "grid_step lib config api to_json of_json srt g ?g'" by (rule grid_step_in.Process_end [OF agents]) simp
  ultimately show ?thesis using throws by (auto simp: execution_thread_def)
qed

text \<open>The agent of the small run ends, and a new one is launched.\<close>

theorem orphaned_job_stuck_witness:
  "\<exists>g i job. demo_reachable job_library g \<and> gr_agents g = [new_process default_agent_config] \<and>
     get_job (job_mgr (master_of g)) i = Some job \<and> ji_status job \<in> {JOB_STATUS_RUNNING, JOB_STATUS_CANCELLED}"
proof -
  obtain m a and offer :: fetch_job_response where r: "demo_reachable job_library (with_master m (demo_grid\<lparr>gr_agents := [a]\<rparr>))"
    and running: "map_option ji_status (get_job (job_mgr m) (fj_job_id offer)) = Some JOB_STATUS_RUNNING"
    using demo_reaped by blast
  let ?i = "fj_job_id offer" and ?g = "with_master m (demo_grid\<lparr>gr_agents := []\<rparr>)"
  let ?g' = "?g\<lparr>gr_agents := gr_agents ?g @ [new_process default_agent_config]\<rparr>"
  have "grid_step job_library default_gateway_config ref_api no_json no_parse std_sort
      (with_master m (demo_grid\<lparr>gr_agents := [a]\<rparr>)) ?g"
    using grid_step_in.Process_end [of "with_master m (demo_grid\<lparr>gr_agents := [a]\<rparr>)" "[]" a "[]"]
    by (simp add: with_master_def demo_grid_def)
  with r have r1: "demo_reachable job_library ?g" by (rule grid_reachable.Step)
  have orphan: "orphan ?i ?g"
    using running by (auto simp: orphan_def job_in_def)
  have step: "grid_step job_library default_gateway_config ref_api no_json no_parse std_sort ?g ?g'"
    by (rule grid_step_in.Launch)
  have "\<not> id_drawn ?i (master_of ?g')"
    using running by (auto simp: id_drawn_def)
  with step have "(\<lambda>x y. grid_step job_library default_gateway_config ref_api no_json no_parse std_sort x y
      \<and> \<not> id_drawn ?i (master_of y))\<^sup>*\<^sup>* ?g ?g'" by (intro r_into_rtranclp) simp
  from orphaned_job_stuck [OF r1 std.comparison_sort_axioms orphan this] grid_reachable.Step [OF r1 step]
  show ?thesis by fastforce
qed

end
