(* ===== verification/Grid_Specs.thy ===== *)
theory Grid_Specs
  imports Grid_Orphans
begin

text \<open>
  What the agents run is what was submitted: the offer of a job, the polling loop and the execution
  threads hand on the specification the master keeps for that very job, in every run of \<open>Grid\<close> in which
  no submission draws the id of a job that is already known.
\<close>

text \<open>The master keeps the job with this specification, and no pass will place it any more.\<close>

definition placed_as :: "'db master \<Rightarrow> string \<Rightarrow> job_spec \<Rightarrow> bool" where
  "placed_as m i spec \<longleftrightarrow>
     (\<exists>job. get_job (job_mgr m) i = Some job \<and> ji_spec job = spec \<and> ji_status job \<noteq> JOB_STATUS_QUEUED)"

definition specs_ok :: "'db master \<Rightarrow> agent_process \<Rightarrow> bool" where
  "specs_ok m a \<longleftrightarrow> (\<forall>th\<in>set (ap_threads a). placed_as m (th_job th) (th_spec th)) \<and>
     (\<forall>st offer. ap_offer a = Some (st, offer) \<longrightarrow> fj_has_job offer \<longrightarrow> placed_as m (fj_job_id offer) (fj_spec offer))"

lemma placed_as_kept:
  assumes "job_effect (job_mgr m) (job_mgr m')" "\<not> redrawn m m'" "placed_as m i spec"
  shows "placed_as m' i spec"
proof -
  obtain job where job: "get_job (job_mgr m) i = Some job" "ji_spec job = spec" "ji_status job \<noteq> JOB_STATUS_QUEUED"
    using assms(3) by (auto simp: placed_as_def)
  show ?thesis
    using assms(1)
  proof (cases rule: job_effect.cases)
    case (Submitted put uuid now spec' u un)
    then have "get_job (job_mgr m') i = Some job"
      using assms(2) job(1) unfolding redrawn_def by (metis get_job_submit option.distinct(1))
    then show ?thesis using job by (simp add: placed_as_def)
  next
    case (Cancelled now k)
    then show ?thesis using job by (cases "i = k \<and> \<not> terminal (ji_status job)") (auto simp: placed_as_def get_job_cancel)
  next
    case (Updated st now k n)
    then show ?thesis using job by (auto simp: placed_as_def get_job_update)
  qed (use assms(3) in \<open>simp add: placed_as_def\<close>)
qed

lemma fetched_placed:
  assumes "fetch_job_rpc m n = (st, offer)" "fj_has_job offer" "jobs_keyed (job_mgr m)"
  shows "placed_as m (fj_job_id offer) (fj_spec offer)"
  using assms(3)
proof (cases rule: fetch_job_rpc_cases [of m n])
  case none
  then show ?thesis using assms(1,2) by (simp add: default_fetch_job_response_def)
next
  case (job job)
  then show ?thesis using assms(1) by (auto simp: placed_as_def)
qed

lemma polled_spec:
  assumes "poll d st offer = (spawn, d')" "th \<in> set (new_threads os spawn)"
  shows "fj_has_job offer \<and> th_job th = fj_job_id offer \<and> th_spec th = fj_spec offer"
  using assms by (auto simp: poll_def fetch_reply_def new_threads_def Let_def split: if_splits option.splits prod.splits)

lemma specs_ok_kept:
  "specs_ok m a \<Longrightarrow> (\<And>i spec. placed_as m i spec \<Longrightarrow> placed_as m' i spec) \<Longrightarrow> specs_ok m' a"
  by (simp add: specs_ok_def)

text \<open>An agent takes its jobs from the master's offers only, and hands them on as they are.\<close>

lemma agent_step_specs:
  assumes "agent_step m a m' a'" "jobs_keyed (job_mgr m)" "specs_ok m a"
    and kept: "\<And>i spec. placed_as m i spec \<Longrightarrow> placed_as m' i spec"
  shows "specs_ok m' a'"
proof -
  have old: "specs_ok m' a" by (rule specs_ok_kept [OF assms(3) kept])
  show ?thesis
    using assms(1)
  proof (cases rule: agent_step_in.cases)
    case (Fetch st offer)
    then show ?thesis using old fetched_placed [OF Fetch(5) _ assms(2)] by (auto simp: specs_ok_def)
  next
    case (Poll st offer spawn d' os)
    have "placed_as m' (th_job th) (th_spec th)" if "th \<in> set (new_threads os spawn)" for th
      using polled_spec [OF Poll(4) that] old Poll(3) by (auto simp: specs_ok_def)
    then show ?thesis using old Poll(2) by (auto simp: specs_ok_def)
  qed (use old in \<open>auto simp: specs_ok_def\<close>)
qed

lemma grid_step_specs:
  assumes step: "grid_step lib config api tj oj srt g g'" and keyed: "jobs_keyed (job_mgr (master_of g))"
    and fresh: "\<not> redrawn (master_of g) (master_of g')" and ok: "\<forall>a\<in>set (gr_agents g). specs_ok (master_of g) a"
  shows "\<forall>a\<in>set (gr_agents g'). specs_ok (master_of g') a"
proof -
  have "job_effect (job_mgr (master_of g)) (job_mgr (master_of g'))"
    using grid_step_cluster [OF step] step_effects(1) by (auto intro: job_effect.Same)
  note kept = placed_as_kept [OF this fresh]
  have old: "\<forall>a\<in>set (gr_agents g). specs_ok (master_of g') a" using ok specs_ok_kept kept by blast
  show ?thesis
    using step
  proof (cases rule: grid_step_in.cases)
    case (Agent k m' a')
    have "gr_agents g ! k \<in> set (gr_agents g)" using Agent(2) by simp
    then have "specs_ok m' a'" using agent_step_specs [OF Agent(3) keyed] ok kept Agent(1) by simp
    then show ?thesis
      using Agent(1) old by (auto dest!: set_update_subset_insert [THEN subsetD])
  next
    case (Launch cfg)
    then show ?thesis using old by (simp add: specs_ok_def new_process_def)
  qed (use old in simp_all)
qed

lemma specs_reachable:
  assumes "(fresh_step True lib config api tj oj srt)\<^sup>*\<^sup>* (start_grid api mconfig now admin jobs) g" "comparison_sort srt"
  shows "grid_reachable lib config api tj oj srt g \<and> (\<forall>a\<in>set (gr_agents g). specs_ok (master_of g) a)"
  using assms(1)
proof (induction rule: rtranclp_induct)
  case base
  then show ?case using grid_reachable.Start by (auto simp: start_grid_def)
next
  case (step x y)
  then have "grid_reachable lib config api tj oj srt x" "grid_step lib config api tj oj srt x y"
    "\<not> redrawn (master_of x) (master_of y)" by (simp_all add: fresh_step_def)
  moreover from this(1) have "jobs_keyed (job_mgr (master_of x))"
    using grid_reachable_ok(2) [OF _ assms(2)] unfolding master_ok_def by blast
  ultimately show ?case using step(3) grid_step_specs grid_reachable.Step by blast
qed

text \<open>
  C4: The agents run what was submitted.  In every run of the whole system, with messages lost and
  processes ending at any moment, in which no submission draws the id of a known job: each execution
  thread of each agent has the id and the specification (command, archive, container) of one job of the
  master, and that job is not queued, so that it was placed before the thread began and no pass places it
  while the thread lives; the same holds of the offer an agent has still to act on.
\<close>

theorem threads_run_submitted:
  assumes "(fresh_step True lib config api to_json of_json srt)\<^sup>*\<^sup>* (start_grid api mconfig now admin jobs) g" "comparison_sort srt" "a \<in> set (gr_agents g)"
  shows "(th \<in> set (ap_threads a) \<longrightarrow> (\<exists>job. get_job (job_mgr (master_of g)) (th_job th) = Some job \<and>
      ji_spec job = th_spec th \<and> ji_status job \<noteq> JOB_STATUS_QUEUED \<and>
      (\<forall>t n. (th_job th, n) \<notin> set (plan_of srt (master_of g) t)))) \<and>
    (ap_offer a = Some (st, offer) \<longrightarrow> fj_has_job offer \<longrightarrow> (\<exists>job. get_job (job_mgr (master_of g)) (fj_job_id offer) = Some job \<and>
      ji_spec job = fj_spec offer \<and> ji_status job \<noteq> JOB_STATUS_QUEUED))"
proof -
  have ok: "specs_ok (master_of g) a" and r: "grid_reachable lib config api to_json of_json srt g"
    using specs_reachable [OF assms(1,2)] assms(3) by blast+
  have "pass_ready srt (fair_share_mgr (master_of g)) (job_mgr (master_of g)) (node_reg (master_of g)) t" for t
    using grid_reachable_ok(2) [OF r assms(2)] assms(2) by (simp add: pass_ready_def master_ok_def no_usage_comparable)
  note sound = pass_plan_sound [OF this]
  have "(i, n) \<notin> set (plan_of srt (master_of g) t)" if "placed_as (master_of g) i spec" for i spec n t
    using sound(1,2) that by (fastforce simp: plan_of_def placed_as_def)
  with ok show ?thesis unfolding specs_ok_def placed_as_def by blast
qed

theorem threads_run_submitted_witness:
  "\<exists>g a th job. demo_fresh g \<and> a \<in> set (gr_agents g) \<and> th \<in> set (ap_threads a) \<and>
     get_job (job_mgr (master_of g)) (th_job th) = Some job \<and> ji_spec job = th_spec th \<and> ji_status job \<noteq> JOB_STATUS_QUEUED"
proof -
  obtain m offer where f: "demo_fresh (with_master m demo_grid)" "fetch_job_rpc m ''node-00000000'' = (Status_OK, offer)"
    "fj_has_job offer" using demo_offered_run by blast
  let ?g = "with_master m demo_grid" and ?a = "started healthy_os offer demo_agent"
  have "agent_pair\<^sup>*\<^sup>* (master_of ?g, gr_agents ?g ! 0) (m, ?a)"
    using idle_starts [OF demo_idle(1) _ f(3), of m healthy_os] f(2) by simp
  from rtranclp_trans [OF f(1) fresh_steps_faults [OF agent_run_fresh [OF this]]]
  have run: "demo_fresh (with_master m (demo_grid\<lparr>gr_agents := [?a]\<rparr>))" by (simp add: with_master_def)
  have th: "spawned healthy_os offer \<in> set (ap_threads ?a)" by (simp add: started_def)
  have a: "?a \<in> set (gr_agents (with_master m (demo_grid\<lparr>gr_agents := [?a]\<rparr>)))" by simp
  from threads_run_submitted [THEN conjunct1, THEN mp, OF run std.comparison_sort_axioms a th] a th run
  show ?thesis by blast
qed

end
