(* ===== verification/Service_Threads.thy ===== *)
theory Service_Threads
  imports Agent_Service
begin

text \<open>
  The handlers of \<open>master/src/grpc_service.cpp\<close> on the threads of the gRPC server.  \<open>StateStore\<close>,
  \<open>JobManager\<close> and \<open>NodeRegistry\<close> each lock their own mutex for one operation, and a handler takes
  no lock of its own, so between two operations of one handler those of others can run.  A handler is a
  sequence of such locked sections; the theory relates it to the handler in one piece of
  \<open>Master_Service\<close> and \<open>Agent_Service\<close>, and shows what holds in every interleaving and what does not.
\<close>

section \<open>Sequences of locked sections\<close>

text \<open>A section takes the shared components and leaves them with the rest of the handler.\<close>

datatype ('s, 'a) handler = Answer 'a | Locked "'s \<Rightarrow> ('s, 'a) handler \<times> 's"

definition ask :: "('s \<Rightarrow> 'x) \<Rightarrow> ('x \<Rightarrow> ('s, 'a) handler) \<Rightarrow> ('s, 'a) handler" where
  "ask g k = Locked (\<lambda>s. (k (g s), s))"

definition act :: "('s \<Rightarrow> 'x \<times> 's) \<Rightarrow> ('x \<Rightarrow> ('s, 'a) handler) \<Rightarrow> ('s, 'a) handler" where
  "act g k = Locked (\<lambda>s. let (x, s') = g s in (k x, s'))"

text \<open>A handler that is not interrupted.\<close>

primrec run_alone :: "('s, 'a) handler \<Rightarrow> 's \<Rightarrow> 'a \<times> 's" where
  "run_alone (Answer a) = (\<lambda>s. (a, s))"
| "run_alone (Locked f) = (\<lambda>s. case map_prod run_alone id (f s) of (r, s') \<Rightarrow> r s')"

lemma run_alone_simps [simp]:
  "run_alone (ask g k) s = run_alone (k (g s)) s"
  "run_alone (act h l) s = run_alone (l (fst (h s))) (snd (h s))"
  by (simp_all add: ask_def act_def case_prod_unfold Let_def)

declare run_alone.simps(2) [simp del]

section \<open>The handlers\<close>

datatype rpc_answer =
    Token grpc_status auth_token
  | User grpc_status user_info
  | Users grpc_status "user_info list"
  | Job grpc_status job_info
  | Response grpc_status status_response
  | Registered grpc_status register_node_response
  | Beaten grpc_status heartbeat_response

definition put_kv :: "'db sqlite_api \<Rightarrow> string \<Rightarrow> string \<Rightarrow> 'db master \<Rightarrow> bool \<times> 'db master" where
  "put_kv api k v m = (let (ok, db) = set_kv api (admin_db m) k v in (ok, m\<lparr>admin_db := db\<rparr>))"

abbreviation kv_of :: "'db sqlite_api \<Rightarrow> string \<Rightarrow> 'db master \<Rightarrow> string option" where
  "kv_of api k m \<equiv> get_kv api (admin_db m) k"

definition login_calls :: "'db sqlite_api \<Rightarrow> credentials \<Rightarrow> ('db master, rpc_answer) handler" where
  "login_calls api request =
     ask (kv_of api (''user:'' @ cr_username request)) (\<lambda>db_pass.
       if db_pass \<noteq> None \<and> the db_pass = cr_password request
       then ask (kv_of api (''role:'' @ cr_username request)) (\<lambda>db_role.
              Answer (Token Status_OK (default_auth_token
                \<lparr>at_access_token := ''mock-jwt-for-'' @ cr_username request, at_token_type := ''Bearer'',
                 at_user := default_user_info\<lparr>ui_username := cr_username request,
                   ui_role := (if db_role \<noteq> None \<and> the db_role = ''admin''
                               then USER_ROLE_ADMIN else USER_ROLE_USER)\<rparr>\<rparr>)))
       else Answer (Token (Status_error UNAUTHENTICATED ''Invalid credentials'') default_auth_token))"

text \<open>The end of \<open>CreateUser\<close>: the user list that was read is extended and written.\<close>

definition extend_list_calls ::
  "'db sqlite_api \<Rightarrow> unix_time \<Rightarrow> create_user_request \<Rightarrow> string option \<Rightarrow> ('db master, rpc_answer) handler" where
  "extend_list_calls api now request existing_list =
     (let user_list = (case existing_list of None \<Rightarrow> ''admin,user1'' | Some l \<Rightarrow> l);
          done = Answer (User Status_OK (default_user_info\<lparr>ui_username := cu_username request,
                   ui_role := cu_role request, ui_created_at := now\<rparr>))
      in if str_find (cu_username request) user_list = None
         then act (put_kv api ''system:user_list'' (user_list @ '','' @ cu_username request)) (\<lambda>_. done)
         else done)"

text \<open>What follows the check whether the user exists.\<close>

definition store_user_calls ::
  "'db sqlite_api \<Rightarrow> unix_time \<Rightarrow> create_user_request \<Rightarrow> ('db master, rpc_answer) handler" where
  "store_user_calls api now request =
     act (put_kv api (''user:'' @ cu_username request) (cu_password request)) (\<lambda>_.
     act (put_kv api (''role:'' @ cu_username request)
            (if cu_role request = USER_ROLE_ADMIN then ''admin'' else ''user'')) (\<lambda>_.
     ask (kv_of api ''system:user_list'') (extend_list_calls api now request)))"

definition create_user_calls ::
  "'db sqlite_api \<Rightarrow> unix_time \<Rightarrow> create_user_request \<Rightarrow> ('db master, rpc_answer) handler" where
  "create_user_calls api now request =
     ask (kv_of api (''user:'' @ cu_username request)) (\<lambda>existing.
       if existing \<noteq> None
       then Answer (User (Status_error ALREADY_EXISTS ''User already exists'') default_user_info)
       else store_user_calls api now request)"

text \<open>The loop of \<open>AdminListUsers\<close> asks for one role after the other.\<close>

fun roles_calls ::
  "'db sqlite_api \<Rightarrow> string list \<Rightarrow> user_info list \<Rightarrow> ('db master, rpc_answer) handler" where
  "roles_calls api [] users = Answer (Users Status_OK users)"
| "roles_calls api (uname # names) users =
     ask (kv_of api (''role:'' @ uname)) (\<lambda>role.
       roles_calls api names (users @ [default_user_info\<lparr>ui_username := uname,
         ui_role := (if role = Some ''admin'' then USER_ROLE_ADMIN else USER_ROLE_USER)\<rparr>]))"

definition list_users_calls :: "'db sqlite_api \<Rightarrow> ('db master, rpc_answer) handler" where
  "list_users_calls api = ask (listed_users api) (\<lambda>names. roles_calls api names [])"

definition submit_job_calls ::
  "'db sqlite_api \<Rightarrow> string \<Rightarrow> unix_time \<Rightarrow> metadata \<Rightarrow> job_spec \<Rightarrow> ('db master, rpc_answer) handler" where
  "submit_job_calls api uuid now metadata spec =
     act (\<lambda>m. let (job_id, jm) = submit_job (set_kv api) (job_mgr m) uuid now spec (caller_of metadata) (caller_of metadata)
              in (job_id, m\<lparr>job_mgr := jm\<rparr>)) (\<lambda>job_id.
     ask (\<lambda>m. get_job (job_mgr m) job_id) (\<lambda>job_opt. Answer (case job_opt of
         Some job \<Rightarrow> Job Status_OK job
       | None \<Rightarrow> Job (Status_error INTERNAL ''Failed to retrieve submitted job'') default_job_info)))"

definition public_request_calls ::
  "'db sqlite_api \<Rightarrow> (job_request \<Rightarrow> string option) \<Rightarrow> unix_time \<Rightarrow> nat \<Rightarrow> job_request
     \<Rightarrow> ('db master, rpc_answer) handler" where
  "public_request_calls api to_json now rnd request =
     (let req = (if jr_request_id request = ''''
                 then request\<lparr>jr_request_id := request_id_of now rnd\<rparr> else request);
          req = req\<lparr>jr_submitted_at := now, jr_status := JOB_REQUEST_PENDING\<rparr>
      in case to_json req of
           None \<Rightarrow> Answer (Response Status_OK (default_status_response\<lparr>sr_message := ''Failed to serialize request''\<rparr>))
         | Some json_data \<Rightarrow>
             act (\<lambda>m. let (ok, db) = add_job_request api (admin_db m) (jr_request_id req)
                          (jr_applicant_email req) (job_request_status_number (jr_status req)) json_data
                      in (ok, m\<lparr>admin_db := db\<rparr>)) (\<lambda>ok.
             Answer (Response Status_OK (if ok
               then default_status_response\<lparr>sr_success := True, sr_message := jr_request_id req\<rparr>
               else default_status_response\<lparr>sr_message := ''Failed to store request in database''\<rparr>))))"

definition put_request ::
  "'db sqlite_api \<Rightarrow> job_request \<Rightarrow> string \<Rightarrow> 'db master \<Rightarrow> bool \<times> 'db master" where
  "put_request api req json_data m =
     (let (ok, db) = update_request_status api (admin_db m) (jr_request_id req)
            (job_request_status_number (jr_status req)) json_data
      in (ok, m\<lparr>admin_db := db\<rparr>))"

text \<open>What follows the search in \<open>UpdateJobRequest\<close> and \<open>AdminReviewRequest\<close>, with what it found.\<close>

definition change_request_calls ::
  "'db sqlite_api \<Rightarrow> (job_request \<Rightarrow> string option) \<Rightarrow> (string \<Rightarrow> bool \<times> job_request)
     \<Rightarrow> job_request \<Rightarrow> string \<Rightarrow> ('db master, rpc_answer) handler" where
  "change_request_calls api to_json of_json request target =
     (if target = '''' then Answer (Response Status_OK (default_status_response\<lparr>sr_message := ''Request not found''\<rparr>))
      else let (parsed, req) = of_json target
           in if \<not> parsed
              then Answer (Response Status_OK (default_status_response\<lparr>sr_message := ''Failed to parse request''\<rparr>))
              else let archive = spec_archive_path (jr_requested_spec request);
                       req = (if archive \<noteq> ''''
                              then req\<lparr>jr_requested_spec := (jr_requested_spec req)\<lparr>spec_archive_path := archive\<rparr>\<rparr>
                              else req)
                   in case to_json req of
                        None \<Rightarrow> Answer (Response Status_OK
                          (default_status_response\<lparr>sr_message := ''Failed to serialize update''\<rparr>))
                      | Some json_data \<Rightarrow> act (put_request api req json_data) (\<lambda>_.
                          Answer (Response Status_OK (default_status_response\<lparr>sr_success := True\<rparr>))))"

definition update_request_calls ::
  "'db sqlite_api \<Rightarrow> (job_request \<Rightarrow> string option) \<Rightarrow> (string \<Rightarrow> bool \<times> job_request)
     \<Rightarrow> job_request \<Rightarrow> ('db master, rpc_answer) handler" where
  "update_request_calls api to_json of_json request =
     ask (\<lambda>m. target_json api (admin_db m) (jr_request_id request)) (change_request_calls api to_json of_json request)"

text \<open>The end of a review: the reviewed request is printed and stored.\<close>

definition store_review_calls ::
  "'db sqlite_api \<Rightarrow> (job_request \<Rightarrow> string option) \<Rightarrow> bool \<Rightarrow> job_request \<Rightarrow> ('db master, rpc_answer) handler" where
  "store_review_calls api to_json approve req =
     (case to_json req of
        None \<Rightarrow> Answer (Response (Status_error INTERNAL ''Failed to serialize request'') default_status_response)
      | Some json_data \<Rightarrow> act (put_request api req json_data) (\<lambda>_.
          Answer (Response Status_OK (default_status_response\<lparr>sr_success := True,
            sr_message := (if approve then ''Request approved and job scheduled'' else ''Request rejected'')\<rparr>))))"

definition review_calls ::
  "'db sqlite_api \<Rightarrow> (job_request \<Rightarrow> string option) \<Rightarrow> (string \<Rightarrow> bool \<times> job_request)
     \<Rightarrow> string \<Rightarrow> unix_time \<Rightarrow> review_request \<Rightarrow> ('db master, rpc_answer) handler" where
  "review_calls api to_json of_json uuid now request =
     ask (\<lambda>m. target_json api (admin_db m) (rv_request_id request)) (\<lambda>target.
       if target = '''' then Answer (Response (Status_error NOT_FOUND ''Request not found'') default_status_response)
       else let (parsed, req) = of_json target
            in if \<not> parsed
               then Answer (Response (Status_error INTERNAL ''Failed to parse stored request'') default_status_response)
               else let req = req\<lparr>jr_reviewed_at := now, jr_review_comment := rv_comment request\<rparr>
                    in if rv_approve request
                       then act (\<lambda>m. let (job_id, jm) = submit_job (set_kv api) (job_mgr m) uuid now
                                       (jr_requested_spec req) ''public-user'' (jr_applicant_name req)
                                     in (job_id, m\<lparr>job_mgr := jm\<rparr>)) (\<lambda>_.
                            store_review_calls api to_json True (req\<lparr>jr_status := JOB_REQUEST_APPROVED\<rparr>))
                       else store_review_calls api to_json False (req\<lparr>jr_status := JOB_REQUEST_REJECTED\<rparr>))"

definition heartbeat_calls :: "unix_time \<Rightarrow> heartbeat_request \<Rightarrow> ('db master, rpc_answer) handler" where
  "heartbeat_calls now request =
     act (\<lambda>m. let (ok, nodes) = update_heartbeat (node_reg m) now (hb_node_id request)
                  (hb_available_resources request) (hb_running_jobs request) in (ok, m\<lparr>node_reg := nodes\<rparr>)) (\<lambda>ok.
       if \<not> ok then Answer (Beaten Status_OK
         (default_heartbeat_response\<lparr>hr_acknowledged := ok, hr_message := ''Node not registered''\<rparr>))
       else ask (\<lambda>m. get_jobs_to_cancel_for_node (job_mgr m) now (hb_node_id request)) (\<lambda>to_cancel.
         Answer (Beaten Status_OK
           (default_heartbeat_response\<lparr>hr_acknowledged := ok, hr_jobs_to_cancel := to_cancel\<rparr>))))"

text \<open>The handlers with one section: their definitions in one piece are that section.\<close>

definition one_section :: "('x \<Rightarrow> 'y \<Rightarrow> 'a) \<Rightarrow> ('s \<Rightarrow> 'x \<times> 'y \<times> 's) \<Rightarrow> ('s, 'a) handler" where
  "one_section c g = Locked (\<lambda>s. let (x, y, s') = g s in (Answer (c x y), s'))"

lemma run_one_section [simp]:
  "run_alone (one_section c g) s = (c (fst (g s)) (fst (snd (g s))), snd (snd (g s)))"
  by (simp add: one_section_def run_alone.simps(2) case_prod_unfold Let_def)

section \<open>A handler alone is the handler in one piece\<close>

lemma put_kv_parts [simp]: "snd (put_kv api k v m) = m\<lparr>admin_db := snd (set_kv api (admin_db m) k v)\<rparr>"
  by (simp add: put_kv_def case_prod_unfold Let_def)

lemma put_request_parts [simp]:
  "snd (put_request api req j m) = m\<lparr>admin_db := snd (update_request_status api (admin_db m) (jr_request_id req)
     (job_request_status_number (jr_status req)) j)\<rparr>"
  by (simp add: put_request_def case_prod_unfold Let_def)

lemma roles_alone:
  "run_alone (roles_calls api names users) m =
     (Users Status_OK (users @ map (\<lambda>uname. default_user_info\<lparr>ui_username := uname,
        ui_role := (if kv_of api (''role:'' @ uname) m = Some ''admin'' then USER_ROLE_ADMIN else USER_ROLE_USER)\<rparr>) names), m)"
  by (induction names arbitrary: users) simp_all

lemma create_user_alone:
  "run_alone (create_user_calls api now r) m =
     (let (st, info, m') = create_user api m now r in (User st info, m'))"
  by (simp add: create_user_calls_def store_user_calls_def extend_list_calls_def create_user_def Let_def)

lemma update_request_alone:
  "run_alone (update_request_calls api to_json of_json jr) m =
     (let (st, response, m') = update_job_request api to_json of_json m jr in (Response st response, m'))"
  by (simp add: update_request_calls_def change_request_calls_def update_job_request_def Let_def case_prod_unfold
      split: option.split)

lemma review_alone:
  "run_alone (review_calls api to_json of_json uuid now rv) m =
     (let (st, response, m') = admin_review_request api to_json of_json m uuid now rv in (Response st response, m'))"
  by (simp add: review_calls_def store_review_calls_def admin_review_request_def Let_def case_prod_unfold
      split: option.split)

lemma login_alone:
  "run_alone (login_calls api c) m = (let (st, token) = login api m c in (Token st token, m))"
  by (simp add: login_calls_def login_def Let_def)

lemma public_request_alone:
  "run_alone (public_request_calls api to_json now rnd jr) m =
     (let (st, response, m') = submit_public_request api to_json m now rnd jr in (Response st response, m'))"
  by (simp add: public_request_calls_def submit_public_request_def Let_def case_prod_unfold split: option.split)

lemma submit_job_alone:
  "run_alone (submit_job_calls api uuid now md spec) m =
     (let (st, job, m') = submit_job_rpc api m uuid now md spec in (Job st job, m'))"
  by (simp add: submit_job_calls_def submit_job_rpc_def Let_def case_prod_unfold split: option.split)

lemma heartbeat_alone:
  "run_alone (heartbeat_calls now hb) m = (let (st, response, m') = send_heartbeat_rpc m now hb in (Beaten st response, m'))"
  by (simp add: heartbeat_calls_def send_heartbeat_rpc_def Let_def case_prod_unfold default_heartbeat_response_def)

lemma list_users_alone:
  "run_alone (list_users_calls api) m = (let (st, users) = admin_list_users api m in (Users st users, m))"
  by (simp add: list_users_calls_def admin_list_users_def roles_alone)

section \<open>Interleaving\<close>

text \<open>
  The handlers that write, and those with several sections, with any arguments; \<open>ok\<close> limits the
  users that are created.
\<close>

definition plain_account :: "create_user_request \<Rightarrow> bool" where
  "plain_account r \<longleftrightarrow> plain (cu_username r) \<and> plain (cu_password r)"

inductive master_call ::
  "(create_user_request \<Rightarrow> bool) \<Rightarrow> 'db sqlite_api \<Rightarrow> (job_request \<Rightarrow> string option) \<Rightarrow> (string \<Rightarrow> bool \<times> job_request)
     \<Rightarrow> ('db master, rpc_answer) handler \<Rightarrow> bool"
  for ok api to_json of_json where
  Login: "master_call ok api to_json of_json (login_calls api c)"
| Create_user: "ok r \<Longrightarrow>
    master_call ok api to_json of_json (create_user_calls api now r)"
| List_users: "master_call ok api to_json of_json (list_users_calls api)"
| Submit: "master_call ok api to_json of_json (submit_job_calls api uuid now md spec)"
| Cancel: "master_call ok api to_json of_json (one_section Response (\<lambda>m. cancel_job_rpc m now i))"
| Public_request: "master_call ok api to_json of_json (public_request_calls api to_json now rnd jr)"
| Update_request: "master_call ok api to_json of_json (update_request_calls api to_json of_json jr)"
| Review: "master_call ok api to_json of_json (review_calls api to_json of_json uuid now rv)"
| Register: "master_call ok api to_json of_json (one_section Registered (\<lambda>m. register_node_rpc m uuid now reg))"
| Heartbeat: "master_call ok api to_json of_json (heartbeat_calls now hb)"
| Started: "master_call ok api to_json of_json (one_section Response (\<lambda>m. report_job_started_rpc m now rep))"
| Completed: "master_call ok api to_json of_json (one_section Response (\<lambda>m. report_job_completed_rpc m now rep))"
| Failed: "master_call ok api to_json of_json (one_section Response (\<lambda>m. report_job_failed_rpc m now rep))"

text \<open>A call arrives, or one of the handlers under way does its next section.\<close>

inductive service_step ::
  "(('s, 'a) handler \<Rightarrow> bool) \<Rightarrow> 's \<times> ('s, 'a) handler list \<Rightarrow> 's \<times> ('s, 'a) handler list \<Rightarrow> bool"
  for call where
  Arrive: "call h \<Longrightarrow> service_step call (s, hs) (s, hs @ [h])"
| Section: "f s = (h, s') \<Longrightarrow> service_step call (s, xs @ Locked f # ys) (s', xs @ h # ys)"

inductive_cases service_stepE: "service_step call (s, hs) (s', hs')"

lemma section_steps:
  "service_step call (s, xs @ ask g k # ys) (s, xs @ k (g s) # ys)"
  "service_step call (s, xs @ act f l # ys) (snd (f s), xs @ l (fst (f s)) # ys)"
  unfolding ask_def act_def by (rule service_step.Section; simp add: case_prod_unfold Let_def)+

lemma run_alone_steps:
  "(service_step call)\<^sup>*\<^sup>* (s, xs @ h # ys) (snd (run_alone h s), xs @ Answer (fst (run_alone h s)) # ys)"
proof (induction h arbitrary: s)
  case (Locked f)
  have "service_step call (s, xs @ Locked f # ys) (snd (f s), xs @ fst (f s) # ys)"
    by (rule service_step.Section) simp
  moreover have "(service_step call)\<^sup>*\<^sup>* (snd (f s), xs @ fst (f s) # ys)
      (snd (run_alone (fst (f s)) (snd (f s))), xs @ Answer (fst (run_alone (fst (f s)) (snd (f s)))) # ys)"
    by (rule Locked) (auto intro: prod_set_defs fsts.intros simp: fsts.simps)
  ultimately show ?case
    by (simp add: run_alone.simps(2) case_prod_unfold Let_def converse_rtranclp_into_rtranclp)
qed simp

section \<open>What every interleaving keeps\<close>

text \<open>
  \<open>keeps I Q h\<close>: every section of \<open>h\<close> keeps \<open>I\<close> if it holds when the section begins, whatever happened
  between the sections, and the answer satisfies \<open>Q\<close>.
\<close>

primrec keeps :: "('s \<Rightarrow> bool) \<Rightarrow> ('a \<Rightarrow> bool) \<Rightarrow> ('s, 'a) handler \<Rightarrow> bool" where
  "keeps I Q (Answer a) \<longleftrightarrow> Q a"
| "keeps I Q (Locked f) \<longleftrightarrow> (\<forall>s. I s \<longrightarrow> (case map_prod (keeps I Q) id (f s) of (rest, s') \<Rightarrow> rest \<and> I s'))"

lemma keeps_sections [simp]:
  "keeps I Q (ask g k) \<longleftrightarrow> (\<forall>s. I s \<longrightarrow> keeps I Q (k (g s)))"
  "keeps I Q (act f l) \<longleftrightarrow> (\<forall>s. I s \<longrightarrow> keeps I Q (l (fst (f s))) \<and> I (snd (f s)))"
  "keeps I Q (one_section c f') \<longleftrightarrow> (\<forall>s. I s \<longrightarrow> Q (c (fst (f' s)) (fst (snd (f' s)))) \<and> I (snd (snd (f' s))))"
  by (simp_all add: ask_def act_def one_section_def case_prod_unfold Let_def)

declare keeps.simps(2) [simp del]

lemma interleaving_keeps:
  assumes calls: "\<And>h. call h \<Longrightarrow> keeps I Q h" and start: "I s" "\<forall>h\<in>set hs. keeps I Q h"
    and run: "(service_step call)\<^sup>*\<^sup>* (s, hs) (s', hs')"
  shows "I s' \<and> (\<forall>h\<in>set hs'. keeps I Q h)"
  using run
proof (induction "(s', hs')" arbitrary: s' hs' rule: rtranclp_induct)
  case (step y)
  from step(2) step(3) [of "fst y" "snd y"] calls show ?case
    by (cases rule: service_step.cases) (auto simp: keeps.simps(2))
qed (use start in simp)

text \<open>\<open>guarantees R h\<close>: whatever happened before it, every section of \<open>h\<close> takes the state along \<open>R\<close>.\<close>

primrec guarantees :: "('s \<Rightarrow> 's \<Rightarrow> bool) \<Rightarrow> ('s, 'a) handler \<Rightarrow> bool" where
  "guarantees R (Answer a) \<longleftrightarrow> True"
| "guarantees R (Locked f) \<longleftrightarrow> (\<forall>s. case map_prod (guarantees R) id (f s) of (rest, s') \<Rightarrow> rest \<and> R s s')"

lemma guarantees_sections [simp]:
  "guarantees R (ask g k) \<longleftrightarrow> (\<forall>s. guarantees R (k (g s)) \<and> R s s)"
  "guarantees R (act f l) \<longleftrightarrow> (\<forall>s. guarantees R (l (fst (f s))) \<and> R s (snd (f s)))"
  "guarantees R (one_section c f') \<longleftrightarrow> (\<forall>s. R s (snd (snd (f' s))))"
  by (simp_all add: ask_def act_def one_section_def case_prod_unfold Let_def)

lemma guaranteesD: "guarantees R (Locked f) \<Longrightarrow> f s = (h, s') \<Longrightarrow> guarantees R h \<and> R s s'"
  by (simp add: case_prod_unfold) (metis fst_conv snd_conv)

declare guarantees.simps(2) [simp del]

text \<open>An account, the requests on file and a user list that can be written back.\<close>

definition stored ::
  "'db sqlite_api \<Rightarrow> ('db \<Rightarrow> string \<Rightarrow> request_row option) \<Rightarrow> string \<Rightarrow> string \<Rightarrow> string option \<Rightarrow> string set
     \<Rightarrow> 'db master \<Rightarrow> bool" where
  "stored api reqs u p r ids m \<longleftrightarrow> user_list_plain api m \<and> kv_of api (''user:'' @ u) m = Some p \<and>
     kv_of api (''role:'' @ u) m = r \<and> ids \<subseteq> dom (reqs (admin_db m))"

lemma stored_jobs [simp]:
  "stored api reqs u p r ids (m\<lparr>job_mgr := jm\<rparr>) = stored api reqs u p r ids m"
  "stored api reqs u p r ids (m\<lparr>node_reg := nodes\<rparr>) = stored api reqs u p r ids m"
  by (simp_all add: stored_def user_list_plain_def)

lemma stored_writes:
  assumes engine: "sqlite_engine api kv reqs" and u: "plain u" and m: "stored api reqs u p r ids m"
  shows "plain k \<Longrightarrow> plain v \<Longrightarrow> k \<noteq> ''user:'' @ u \<Longrightarrow> k \<noteq> ''role:'' @ u \<Longrightarrow>
      stored api reqs u p r ids (m\<lparr>admin_db := snd (set_kv api (admin_db m) k v)\<rparr>)"
    and "stored api reqs u p r ids (m\<lparr>admin_db := snd (update_request_status api (admin_db m) i s j)\<rparr>)"
    and "stored api reqs u p r ids (m\<lparr>admin_db := snd (add_job_request api (admin_db m) i e s j)\<rparr>)"
proof -
  note get = sqlite_engine.get_kv_eq [OF engine]
  have keys: "plain (''user:'' @ u)" "plain (''role:'' @ u)" using u by simp_all
  show "stored api reqs u p r ids (m\<lparr>admin_db := snd (set_kv api (admin_db m) k v)\<rparr>)"
    if "plain k" "plain v" "k \<noteq> ''user:'' @ u" "k \<noteq> ''role:'' @ u"
    using sqlite_engine.set_kv_effect [OF engine that(1,2) prod.collapse [symmetric], of "admin_db m"] m that keys
    by (simp add: stored_def user_list_plain_def get split del: if_split) (simp split: if_splits)
  show "stored api reqs u p r ids (m\<lparr>admin_db := snd (update_request_status api (admin_db m) i s j)\<rparr>)"
    using sqlite_engine.update_request_status_effect [OF engine prod.collapse [symmetric], of "admin_db m" i s j] m keys
    by (auto simp: stored_def user_list_plain_def get split: option.split)
  show "stored api reqs u p r ids (m\<lparr>admin_db := snd (add_job_request api (admin_db m) i e s j)\<rparr>)"
    using sqlite_engine.add_job_request_effect(1,2) [OF engine prod.collapse [symmetric], of "admin_db m" i e s j] m keys
    by (auto simp: stored_def user_list_plain_def get)
qed

text \<open>No answer of a call creates \<open>u\<close>.\<close>

definition creates :: "string \<Rightarrow> rpc_answer \<Rightarrow> bool" where
  "creates u a \<longleftrightarrow> (\<exists>st info. a = User st info \<and> status_ok st \<and> ui_username info = u)"

lemma creates_cases [simp]:
  "creates u (User st info) \<longleftrightarrow> status_ok st \<and> ui_username info = u"
  "\<not> creates u (Token st token)" "\<not> creates u (Users st users)" "\<not> creates u (Job st job)"
  "\<not> creates u (Response st response)" "\<not> creates u (Registered st reply)" "\<not> creates u (Beaten st answer)"
  by (simp_all add: creates_def)

lemma create_user_keeps:
  assumes "sqlite_engine api kv reqs" "plain u" "plain (cu_username c)" "plain (cu_password c)"
  shows "keeps (stored api reqs u p r ids) (\<lambda>a. \<not> creates u a) (create_user_calls api now c)"
proof (cases "cu_username c = u")
  case True
  then show ?thesis by (simp add: create_user_calls_def stored_def)
next
  case False
  note writes = stored_writes(1) [OF assms(1,2)]
  have list: "plain (case kv_of api ''system:user_list'' m of None \<Rightarrow> ''admin,user1'' | Some l \<Rightarrow> l)"
    if "stored api reqs u p r ids m" for m
    using that by (auto simp: stored_def user_list_plain_def split: option.split)
  show ?thesis
    using False assms(3,4)
    by (simp add: create_user_calls_def store_user_calls_def extend_list_calls_def writes list Let_def)
qed

lemma roles_keeps: "\<forall>users. Q (Users Status_OK users) \<Longrightarrow> keeps I Q (roles_calls api names us)"
  by (induction names arbitrary: us) simp_all

lemma master_call_keeps:
  assumes "master_call plain_account api to_json of_json h" "sqlite_engine api kv reqs" "plain u"
  shows "keeps (stored api reqs u p r ids) (\<lambda>a. \<not> creates u a) h"
  using assms(1)
proof (cases rule: master_call.cases)
  case (Create_user c now)
  then show ?thesis using create_user_keeps [OF assms(2,3)] by (simp add: plain_account_def)
next
  case List_users
  then show ?thesis by (simp add: list_users_calls_def roles_keeps)
qed (simp_all add: login_calls_def submit_job_calls_def public_request_calls_def update_request_calls_def
    change_request_calls_def review_calls_def store_review_calls_def heartbeat_calls_def cancel_job_rpc_def
    register_node_rpc_def report_job_started_rpc_def report_job_completed_rpc_def report_job_failed_rpc_def
    case_prod_unfold Let_def stored_writes(2,3) [OF assms(2,3)] split: option.split)

section \<open>Properties\<close>

text \<open>
  The threads refine the handlers.  A handler whose sections follow each other, with nothing in
  between, answers and leaves the components as its definition in one piece does, for every handler with
  more than one section; and among any other handlers under way it can run like this.
\<close>

theorem handlers_alone:
  "run_alone (login_calls api c) m = (let (st, token) = login api m c in (Token st token, m)) \<and>
   run_alone (create_user_calls api now r) m = (let (st, info, m') = create_user api m now r in (User st info, m')) \<and>
   run_alone (list_users_calls api) m = (let (st, users) = admin_list_users api m in (Users st users, m)) \<and>
   run_alone (submit_job_calls api uuid now md spec) m =
     (let (st, job, m') = submit_job_rpc api m uuid now md spec in (Job st job, m')) \<and>
   run_alone (public_request_calls api to_json now rnd jr) m =
     (let (st, response, m') = submit_public_request api to_json m now rnd jr in (Response st response, m')) \<and>
   run_alone (update_request_calls api to_json of_json jr) m =
     (let (st, response, m') = update_job_request api to_json of_json m jr in (Response st response, m')) \<and>
   run_alone (review_calls api to_json of_json uuid now rv) m =
     (let (st, response, m') = admin_review_request api to_json of_json m uuid now rv in (Response st response, m')) \<and>
   run_alone (heartbeat_calls now hb) m =
     (let (st, response, m') = send_heartbeat_rpc m now hb in (Beaten st response, m')) \<and>
   (service_step call)\<^sup>*\<^sup>* (s, xs @ h # ys) (snd (run_alone h s), xs @ Answer (fst (run_alone h s)) # ys)"
  by (intro conjI login_alone create_user_alone list_users_alone submit_job_alone public_request_alone
      update_request_alone review_alone heartbeat_alone run_alone_steps)

text \<open>
  C24: What concurrency cannot break.  Start at a moment at which no handler is under way beyond its
  arrival, with an account whose name has no quote, and with a user list without a quote.  However the
  sections of the calls then interleave, of those that wait and of any that arrive later, as long as
  only names and passwords without a quote are created: the account keeps its password and its role, so
  that every login of its user is answered as before; no creation of that user is ever accepted; and
  every request on file stays on file.  (A creation of that user that has passed its check before
  that moment is not covered, and can indeed overwrite the password: \<open>user_created_twice\<close>.)
\<close>

theorem accounts_stable:
  assumes engine: "sqlite_engine api kv reqs" "requests_available api" and u: "plain u"
    and m: "kv_of api (''user:'' @ u) m = Some p" "user_list_plain api m"
    and arrived: "\<forall>h\<in>set waiting. master_call plain_account api to_json of_json h"
    and run: "(service_step (master_call plain_account api to_json of_json))\<^sup>*\<^sup>* (m, waiting) (m', hs)"
  shows "login api m' \<lparr>cr_username = u, cr_password = q\<rparr> = login api m \<lparr>cr_username = u, cr_password = q\<rparr> \<and>
    (Answer (User st info) \<in> set hs \<longrightarrow> ui_username info = u \<longrightarrow> \<not> status_ok st) \<and>
    fst ` set (list_requests api (admin_db m)) \<subseteq> fst ` set (list_requests api (admin_db m'))"
proof -
  let ?r = "kv_of api (''role:'' @ u) m" and ?ids = "dom (reqs (admin_db m))"
  have "stored api reqs u p ?r ?ids m" using m by (simp add: stored_def)
  moreover have fresh: "keeps (stored api reqs u p ?r ?ids) (\<lambda>a. \<not> creates u a) h"
    if "master_call plain_account api to_json of_json h" for h
    using master_call_keeps [OF that engine(1)] u by simp
  ultimately have kept: "stored api reqs u p ?r ?ids m'" "\<forall>h\<in>set hs. keeps (stored api reqs u p ?r ?ids) (\<lambda>a. \<not> creates u a) h"
    using interleaving_keeps [OF fresh _ _ run] fresh arrived by simp_all
  have ids: "fst ` set (list_requests api db) = dom (reqs db)" for db
  proof -
    have "i \<in> fst ` set (list_requests api db) \<longleftrightarrow> reqs db i \<noteq> None" for i
      using sqlite_engine.list_requests_map_of [OF engine(1), of db i] engine(2)
      by (metis map_of_eq_None_iff option.map_disc_iff requests_available_def)
    then show ?thesis by (intro set_eqI) (simp only: domIff)
  qed
  have "login api m' \<lparr>cr_username = u, cr_password = q\<rparr> = login api m \<lparr>cr_username = u, cr_password = q\<rparr>"
    using kept(1) m(1) by (intro login_cong) (simp_all add: stored_def)
  moreover have "Answer (User st info) \<in> set hs \<longrightarrow> ui_username info = u \<longrightarrow> \<not> status_ok st"
    using kept(2) by fastforce
  ultimately show ?thesis using kept(1) by (simp add: ids stored_def)
qed

text \<open>A login of the administrator stays as it is while a user is being created.\<close>

theorem accounts_stable_witness:
  "login ref_api (snd (run_alone (create_user_calls ref_api 5
      \<lparr>cu_username = ''eve'', cu_password = ''pw'', cu_role = USER_ROLE_USER\<rparr>) ref_master))
     \<lparr>cr_username = ''admin'', cr_password = ''admin123''\<rparr>
   = login ref_api ref_master \<lparr>cr_username = ''admin'', cr_password = ''admin123''\<rparr>"
proof -
  let ?h = "create_user_calls ref_api 5 \<lparr>cu_username = ''eve'', cu_password = ''pw'', cu_role = USER_ROLE_USER\<rparr>"
  let ?call = "master_call plain_account ref_api demo_to_json demo_of_json"
  have "?call ?h" by (rule master_call.Create_user) (simp add: plain_account_def)
  then have arrived: "\<forall>h\<in>set [?h]. ?call h" by simp
  have run: "(service_step ?call)\<^sup>*\<^sup>* (ref_master, [?h]) (snd (run_alone ?h ref_master), [Answer (fst (run_alone ?h ref_master))])"
    using run_alone_steps [of ?call ref_master "[]" ?h "[]"] by simp
  show ?thesis
    by (rule accounts_stable [THEN conjunct1, OF ref.sqlite_engine_axioms ref_requests_available _ _ ref_user_list_plain arrived run,
          of _ "''admin123''"])
       (simp_all add: ref_master_def)
qed

section \<open>Races\<close>

lemma put_reads:
  assumes "sqlite_engine api kv reqs" "writes_succeed api" "plain k" "plain v" "plain k'"
  shows "get_kv api (snd (set_kv api db k v)) k' = (if k' = k then Some v else get_kv api db k')"
  using assms
  by (simp add: sqlite_engine.get_kv_eq [OF assms(1)] writes_succeed_def
      sqlite_engine.set_kv_effect(1) [OF assms(1,3,4) prod.collapse [symmetric]])

lemma store_user_reads:
  assumes engine: "sqlite_engine api kv reqs" and ok: "writes_succeed api"
    and plain: "plain (cu_username c)" "plain (cu_password c)" "user_list_plain api m" "plain k"
  shows "kv_of api k (snd (run_alone (store_user_calls api now c) m)) =
    (if k = ''user:'' @ cu_username c then Some (cu_password c)
     else if k = ''role:'' @ cu_username c then Some (role_name (cu_role c))
     else if k = ''system:user_list'' \<and> str_find (cu_username c) (user_list_of api m) = None
     then Some (user_list_of api m @ '','' @ cu_username c)
     else kv_of api k m)"
proof -
  note put = put_reads [OF engine ok]
  have role: "plain (role_name (cu_role c))" by (simp add: role_name_def)
  have list: "plain (user_list_of api m)"
    using plain(3) by (auto simp: user_list_plain_def split: option.split)
  show ?thesis
    using plain(1,2,4) role list
    by (simp add: store_user_calls_def extend_list_calls_def role_name_def [symmetric] Let_def put split del: if_split
        cong: if_cong)
       (simp add: put)
qed

lemma store_user_answer:
  "fst (run_alone (store_user_calls api now c) m) = User Status_OK (default_user_info
     \<lparr>ui_username := cu_username c, ui_role := cu_role c, ui_created_at := now\<rparr>)"
  by (simp add: store_user_calls_def extend_list_calls_def Let_def)

lemma check_passed:
  "kv_of api (''user:'' @ cu_username c) m = None \<Longrightarrow>
     service_step call (m, xs @ create_user_calls api now c # ys) (m, xs @ store_user_calls api now c # ys)"
  unfolding create_user_calls_def ask_def by (rule service_step.Section) simp

text \<open>Two creations that both look for the user before either stores it.\<close>

lemma both_pass_check:
  assumes "kv_of api (''user:'' @ cu_username c) m = None" "kv_of api (''user:'' @ cu_username d) m = None"
  shows "(service_step call)\<^sup>*\<^sup>* (m, [create_user_calls api now c, create_user_calls api later d])
    (m, [store_user_calls api now c, store_user_calls api later d])"
  using check_passed [OF assms(1), of call "[]" now "[create_user_calls api later d]"]
    check_passed [OF assms(2), of call "[store_user_calls api now c]" later "[]"]
  by simp

lemma run_both:
  assumes "s1 = snd (run_alone h s)" "s2 = snd (run_alone h' s1)"
  shows "(service_step call)\<^sup>*\<^sup>* (s, [h, h']) (s2, [Answer (fst (run_alone h s)), Answer (fst (run_alone h' s1))])"
  using run_alone_steps [of call s "[]" h "[h']"]
    run_alone_steps [of call s1 "[Answer (fst (run_alone h s))]" h' "[]"] assms
  by simp

text \<open>
  C25: A name can be given away twice.  Two creations of one user who does not exist yet can both be
  accepted, since each looks before either stores; after that only the password that was stored last logs
  in, and the caller whose creation was accepted first is locked out of the account.
\<close>

theorem user_created_twice:
  assumes engine: "sqlite_engine api kv reqs" "writes_succeed api"
    and plain: "plain u" "plain p" "plain p'" "user_list_plain api m"
    and new: "kv_of api (''user:'' @ u) m = None"
    and calls: "c = \<lparr>cu_username = u, cu_password = p, cu_role = role\<rparr>" "d = \<lparr>cu_username = u, cu_password = p', cu_role = role'\<rparr>"
  shows "\<exists>m' infoc infod.
    (service_step call)\<^sup>*\<^sup>* (m, [create_user_calls api now c, create_user_calls api later d])
      (m', [Answer (User Status_OK infoc), Answer (User Status_OK infod)]) \<and>
    (\<forall>q. status_ok (fst (login api m' \<lparr>cr_username = u, cr_password = q\<rparr>)) \<longleftrightarrow> q = p') \<and>
    kv_of api (''role:'' @ u) m' = Some (role_name role')"
proof -
  let ?m1 = "snd (run_alone (store_user_calls api now c) m)"
  let ?m2 = "snd (run_alone (store_user_calls api later d) ?m1)"
  note reads = store_user_reads [OF engine]
  have "user_list_plain api ?m1"
    using plain by (auto simp: user_list_plain_def reads calls(1) split: option.splits)
  then have "kv_of api (''user:'' @ u) ?m2 = Some p'" "kv_of api (''role:'' @ u) ?m2 = Some (role_name role')"
    using plain by (simp_all add: reads calls(2))
  moreover have "(service_step call)\<^sup>*\<^sup>* (m, [create_user_calls api now c, create_user_calls api later d])
      (?m2, [Answer (fst (run_alone (store_user_calls api now c) m)),
        Answer (fst (run_alone (store_user_calls api later d) ?m1))])"
    using new by (intro rtranclp_trans [OF both_pass_check run_both]) (simp_all add: calls)
  ultimately show ?thesis
    unfolding store_user_answer by (intro exI conjI; (assumption | auto simp: login_ok_iff))
qed

theorem user_created_twice_witness:
  "\<exists>m' infoc infod. (service_step (\<lambda>_. False))\<^sup>*\<^sup>*
      (ref_master, [create_user_calls ref_api 5 \<lparr>cu_username = ''eve'', cu_password = ''a'', cu_role = USER_ROLE_USER\<rparr>,
         create_user_calls ref_api 6 \<lparr>cu_username = ''eve'', cu_password = ''b'', cu_role = USER_ROLE_ADMIN\<rparr>])
      (m', [Answer (User Status_OK infoc), Answer (User Status_OK infod)]) \<and>
    (\<forall>q. status_ok (fst (login ref_api m' \<lparr>cr_username = ''eve'', cr_password = q\<rparr>)) \<longleftrightarrow> q = ''b'') \<and>
    kv_of ref_api (''role:'' @ ''eve'') m' = Some (role_name USER_ROLE_ADMIN)"
  by (rule user_created_twice [OF ref.sqlite_engine_axioms ref_writes_succeed _ _ _ ref_user_list_plain _ refl refl])
     (simp_all add: ref_master_def)

text \<open>\<open>CreateUser\<close> up to the point where it has read the list of users.\<close>

lemma list_read:
  assumes "m1 = snd (put_kv api (''role:'' @ cu_username c) (role_name (cu_role c))
    (snd (put_kv api (''user:'' @ cu_username c) (cu_password c) m)))"
  shows "(service_step call)\<^sup>*\<^sup>* (m, xs @ store_user_calls api now c # ys)
    (m1, xs @ extend_list_calls api now c (kv_of api ''system:user_list'' m1) # ys)"
  using section_steps(2) [of call m xs "put_kv api (''user:'' @ cu_username c) (cu_password c)" _ ys]
    section_steps(2) [of call _ xs "put_kv api (''role:'' @ cu_username c) (role_name (cu_role c))" _ ys]
    section_steps(1) [of call m1 xs "kv_of api ''system:user_list''" "extend_list_calls api now c" ys]
  unfolding assms store_user_calls_def role_name_def
  by (meson converse_rtranclp_into_rtranclp r_into_rtranclp)

text \<open>
  C38: A listing can be lost.  Two users can be created at the same time so that both log in with their
  passwords, but the list of users is as if only the one whose creation ended last had been created: it
  had read the list before the other one was added, and wrote it back afterwards.
\<close>

theorem user_listing_lost:
  assumes engine: "sqlite_engine api kv reqs" "writes_succeed api"
    and plain: "plain u" "plain p" "plain u'" "plain p'" "user_list_plain api m"
    and new: "u \<noteq> u'" "kv_of api (''user:'' @ u) m = None" "kv_of api (''user:'' @ u') m = None"
    and unlisted: "str_find u (user_list_of api m) = None"
    and calls: "c = \<lparr>cu_username = u, cu_password = p, cu_role = role\<rparr>" "d = \<lparr>cu_username = u', cu_password = p', cu_role = role'\<rparr>"
  shows "\<exists>m' infoc infod.
    (service_step call)\<^sup>*\<^sup>* (m, [create_user_calls api now c, create_user_calls api later d])
      (m', [Answer (User Status_OK infoc), Answer (User Status_OK infod)]) \<and>
    status_ok (fst (login api m' \<lparr>cr_username = u, cr_password = p\<rparr>)) \<and>
    status_ok (fst (login api m' \<lparr>cr_username = u', cr_password = p'\<rparr>)) \<and>
    user_list_of api m' = user_list_of api m @ '','' @ u \<and>
    listed_users api m' = listed_users api (snd (snd (create_user api m now c)))"
proof -
  define m1 where "m1 = snd (put_kv api (''role:'' @ cu_username c) (role_name (cu_role c))
    (snd (put_kv api (''user:'' @ cu_username c) (cu_password c) m)))"
  let ?rest = "extend_list_calls api now c (kv_of api ''system:user_list'' m1)"
  let ?m2 = "snd (run_alone (store_user_calls api later d) m1)"
  let ?m3 = "snd (run_alone ?rest ?m2)"
  note reads = store_user_reads [OF engine] and put = put_reads [OF engine]
  have m1: "kv_of api k m1 = (if k = ''role:'' @ u then Some (role_name role) else if k = ''user:'' @ u then Some p
      else kv_of api k m)" if "plain k" for k
    using that plain by (simp add: m1_def calls(1) put role_name_def)
  have list: "plain (user_list_of api m)" "user_list_plain api m1"
    using plain(5) m1 by (auto simp: user_list_plain_def split: option.split)
  have rest: "run_alone ?rest ?m2 = (User Status_OK (default_user_info\<lparr>ui_username := u, ui_role := role, ui_created_at := now\<rparr>),
      snd (put_kv api ''system:user_list'' (user_list_of api m @ '','' @ u) ?m2))"
    using unlisted by (simp add: extend_list_calls_def m1 calls(1) Let_def)
  have m3: "kv_of api k ?m3 = (if k = ''system:user_list'' then Some (user_list_of api m @ '','' @ u) else kv_of api k ?m2)"
    if "plain k" for k
    using that plain(1) list(1) by (simp add: rest put)
  have m2: "kv_of api (''user:'' @ u) ?m2 = Some p" "kv_of api (''user:'' @ u') ?m2 = Some p'"
    using plain new(1) list(2) by (simp_all add: reads calls(2) m1)
  have "kv_of api ''system:user_list'' (snd (snd (create_user api m now c))) = Some (user_list_of api m @ '','' @ u)"
    using create_user_alone [of api now c m] reads [of c m "''system:user_list''" now] plain new(2) unlisted
    by (simp add: create_user_calls_def calls(1) case_prod_unfold Let_def)
  then have "listed_users api ?m3 = listed_users api (snd (snd (create_user api m now c)))"
    using m3 by (simp add: listed_users_def)
  moreover have "(service_step call)\<^sup>*\<^sup>* (m, [create_user_calls api now c, create_user_calls api later d])
      (?m3, [Answer (fst (run_alone ?rest ?m2)), Answer (fst (run_alone (store_user_calls api later d) m1))])"
  proof -
    have 1: "service_step call (m, [create_user_calls api now c, create_user_calls api later d])
        (m, [store_user_calls api now c, create_user_calls api later d])"
      using check_passed [of api m c call "[]" now] new(2) by (simp add: calls(1))
    have 2: "(service_step call)\<^sup>*\<^sup>* (m, [store_user_calls api now c, create_user_calls api later d])
        (m1, [?rest, create_user_calls api later d])"
      using list_read [OF m1_def, of call "[]" now] by simp
    have 3: "service_step call (m1, [?rest, create_user_calls api later d]) (m1, [?rest, store_user_calls api later d])"
      using check_passed [of api m1 d call "[?rest]" later "[]"] new plain by (simp add: calls(2) m1)
    have 4: "(service_step call)\<^sup>*\<^sup>* (m1, [?rest, store_user_calls api later d])
        (?m2, [?rest, Answer (fst (run_alone (store_user_calls api later d) m1))])"
      using run_alone_steps [of call m1 "[?rest]" "store_user_calls api later d" "[]"] by simp
    have 5: "(service_step call)\<^sup>*\<^sup>* (?m2, [?rest, Answer (fst (run_alone (store_user_calls api later d) m1))])
        (?m3, [Answer (fst (run_alone ?rest ?m2)), Answer (fst (run_alone (store_user_calls api later d) m1))])"
      using run_alone_steps [of call ?m2 "[]" ?rest] by simp
    show ?thesis
      by (rule converse_rtranclp_into_rtranclp [of "service_step call", OF 1 rtranclp_trans [OF 2
            converse_rtranclp_into_rtranclp [of "service_step call", OF 3 rtranclp_trans [OF 4 5]]]])
  qed
  ultimately show ?thesis
    using m2 m3 plain unfolding store_user_answer rest fst_conv
    by (intro exI [of _ "?m3"] exI conjI) (assumption | simp add: login_ok_iff rest)+
qed

theorem user_listing_lost_witness:
  "\<exists>m' infoc infod. (service_step (\<lambda>_. False))\<^sup>*\<^sup>*
      (ref_master, [create_user_calls ref_api 5 \<lparr>cu_username = ''eve'', cu_password = ''a'', cu_role = USER_ROLE_USER\<rparr>,
         create_user_calls ref_api 6 \<lparr>cu_username = ''bob'', cu_password = ''b'', cu_role = USER_ROLE_USER\<rparr>])
      (m', [Answer (User Status_OK infoc), Answer (User Status_OK infod)]) \<and>
    status_ok (fst (login ref_api m' \<lparr>cr_username = ''eve'', cr_password = ''a''\<rparr>)) \<and>
    status_ok (fst (login ref_api m' \<lparr>cr_username = ''bob'', cr_password = ''b''\<rparr>)) \<and>
    user_list_of ref_api m' = user_list_of ref_api ref_master @ '','' @ ''eve'' \<and>
    listed_users ref_api m' = listed_users ref_api (snd (snd (create_user ref_api ref_master 5
      \<lparr>cu_username = ''eve'', cu_password = ''a'', cu_role = USER_ROLE_USER\<rparr>)))"
proof (rule user_listing_lost [OF ref.sqlite_engine_axioms ref_writes_succeed _ _ _ _ ref_user_list_plain _ _ _ _ refl refl])
  have "user_list_of ref_api ref_master = ''admin,user1''" by (simp add: ref_master_def)
  then show "str_find ''eve'' (user_list_of ref_api ref_master) = None" by (simp only:) code_simp
qed (simp_all add: ref_master_def)

text \<open>
  C27: A review can be undone.  While an approval is under way, an \<open>UpdateJobRequest\<close> (which asks for no
  token) that has read the request before and writes it back afterwards restores its old status.  Both
  calls report success and the job is submitted, but the request on file is as it was, apart from the
  archive path, with no trace of the review.
\<close>

theorem review_undone:
  assumes engine: "sqlite_engine api kv reqs" "requests_available api" and json: "json_roundtrips to_json of_json"
    and stored: "map_of (list_requests api (admin_db m)) (jr_request_id req) = Some j" "to_json req = Some j"
    and id: "CHR 0x00 \<notin> set (jr_request_id req)"
    and rv: "rv_request_id rv = jr_request_id req" "rv_approve rv" "to_json (reviewed now rv req) = Some j1"
    and request: "jr_request_id request = jr_request_id req"
      "changed = (if spec_archive_path (jr_requested_spec request) \<noteq> ''''
         then req\<lparr>jr_requested_spec := (jr_requested_spec req)\<lparr>spec_archive_path := spec_archive_path (jr_requested_spec request)\<rparr>\<rparr>
         else req)" "to_json changed = Some j2"
  shows "\<exists>m'. (service_step call)\<^sup>*\<^sup>*
      (m, [review_calls api to_json of_json uuid now rv, update_request_calls api to_json of_json request])
      (m', [Answer (Response Status_OK (default_status_response
              \<lparr>sr_success := True, sr_message := ''Request approved and job scheduled''\<rparr>)),
            Answer (Response Status_OK (default_status_response\<lparr>sr_success := True\<rparr>))]) \<and>
    get_job (job_mgr m') (job_id_of_uuid uuid) = Some (new_job_info (job_id_of_uuid uuid) now (jr_requested_spec req)
      ''public-user'' (jr_applicant_name req)) \<and>
    map_of (list_requests api (admin_db m')) (jr_request_id req) = Some j2 \<and> of_json j2 = (True, changed) \<and>
    jr_status changed = jr_status req \<and> jr_reviewed_at changed = jr_reviewed_at req"
proof -
  let ?review = "review_calls api to_json of_json uuid now rv" and ?rest = "change_request_calls api to_json of_json request j"
  let ?m1 = "snd (run_alone ?review m)" and ?m2 = "snd (run_alone ?rest (snd (run_alone ?review m)))"
  let ?approved = "Response Status_OK (default_status_response\<lparr>sr_success := True, sr_message := ''Request approved and job scheduled''\<rparr>)"
  let ?done = "Response Status_OK (default_status_response\<lparr>sr_success := True\<rparr>)"
  have parse: "j \<noteq> ''''" "of_json j = (True, req)" "CHR 0x00 \<notin> set j1" "CHR 0x00 \<notin> set j2" "of_json j2 = (True, changed)"
    using json stored(2) rv(3) request(3) by (auto simp: json_roundtrips_def)
  have changed: "jr_request_id changed = jr_request_id req" "jr_status changed = jr_status req" "jr_reviewed_at changed = jr_reviewed_at req"
    by (simp_all add: request(2))
  obtain c where rv_eq: "rv = \<lparr>rv_request_id = jr_request_id req, rv_approve = True, rv_comment = c\<rparr>"
    using rv(1,2) by (cases rv) auto
  have review: "fst (run_alone ?review m) = ?approved"
    "job_mgr ?m1 = snd (submit_job (set_kv api) (job_mgr m) uuid now (jr_requested_spec req) ''public-user'' (jr_applicant_name req))"
    "admin_db ?m1 = snd (update_request_status api (admin_db m) (jr_request_id req)
       (job_request_status_number (jr_status (reviewed now rv req))) j1)"
    using review_stored [OF json stored, of uuid now True c] rv(3) by (simp_all add: review_alone rv_eq Let_def)
  have rest: "run_alone ?rest ?m1 = (?done, snd (put_request api changed j2 ?m1))"
    using parse(1,2) request(2,3) by (simp add: change_request_calls_def Let_def)
  have "map_of (list_requests api (admin_db ?m2)) (jr_request_id req) = Some j2"
    using stored_after_update [OF engine id parse(4) stored_after_update [OF engine id parse(3) stored(1)]]
    by (simp add: rest review(3) changed(1))
  moreover have "get_job (job_mgr ?m2) (job_id_of_uuid uuid) = Some (new_job_info (job_id_of_uuid uuid) now (jr_requested_spec req)
      ''public-user'' (jr_applicant_name req))"
    by (simp add: rest review(2) job_simps)
  moreover have "(service_step call)\<^sup>*\<^sup>* (m, [?review, update_request_calls api to_json of_json request]) (?m2, [Answer ?approved, Answer ?done])"
  proof -
    have "target_json api (admin_db m) (jr_request_id request) = j" by (simp add: target_json_map_of request(1) stored(1))
    then have "service_step call (m, [?review, update_request_calls api to_json of_json request]) (m, [?review, ?rest])"
      using section_steps(1) [of call m "[?review]" "\<lambda>m. target_json api (admin_db m) (jr_request_id request)"
          "change_request_calls api to_json of_json request" "[]"]
      by (simp add: update_request_calls_def)
    from converse_rtranclp_into_rtranclp [of "service_step call", OF this run_both [OF refl refl]]
    show ?thesis by (simp add: review(1) rest)
  qed
  ultimately show ?thesis using parse(5) changed(2,3) by blast
qed

theorem review_undone_witness:
  "\<exists>m'. (service_step (\<lambda>_. False))\<^sup>*\<^sup>*
      (requests_master, [review_calls ref_api demo_to_json demo_of_json ''0123456789'' 9 demo_review,
         update_request_calls ref_api demo_to_json demo_of_json (default_job_request\<lparr>jr_request_id := ''req-1''\<rparr>)])
      (m', [Answer (Response Status_OK (default_status_response
              \<lparr>sr_success := True, sr_message := ''Request approved and job scheduled''\<rparr>)),
            Answer (Response Status_OK (default_status_response\<lparr>sr_success := True\<rparr>))]) \<and>
    get_job (job_mgr m') (job_id_of_uuid ''0123456789'') = Some (new_job_info (job_id_of_uuid ''0123456789'') 9
      (jr_requested_spec demo_request) ''public-user'' (jr_applicant_name demo_request)) \<and>
    map_of (list_requests ref_api (admin_db m')) (jr_request_id demo_request) = Some ''{0}''"
proof -
  let ?request = "default_job_request\<lparr>jr_request_id := ''req-1''\<rparr>"
  have stored: "map_of (list_requests ref_api (admin_db requests_master)) (jr_request_id demo_request) = Some ''{0}''"
    by (simp add: sqlite_engine.list_requests_map_of [OF ref.sqlite_engine_axioms]
        ref_requests_available [unfolded requests_available_def] requests_master_def demo_request_def)
  have prints: "demo_to_json (reviewed 9 demo_review demo_request) = Some ''{1}''" "demo_to_json demo_request = Some ''{0}''"
    by (simp_all add: demo_to_json_def demo_request_def reviewed_def demo_review_def default_job_request_def)
  have same: "demo_request = (if spec_archive_path (jr_requested_spec ?request) \<noteq> ''''
      then demo_request\<lparr>jr_requested_spec := (jr_requested_spec demo_request)\<lparr>spec_archive_path :=
        spec_archive_path (jr_requested_spec ?request)\<rparr>\<rparr> else demo_request)"
    by (simp add: default_job_request_def default_job_spec_def)
  have ids: "CHR 0x00 \<notin> set (jr_request_id demo_request)" "rv_request_id demo_review = jr_request_id demo_request"
    "rv_approve demo_review" "jr_request_id ?request = jr_request_id demo_request"
    by (simp_all add: demo_request_def demo_review_def)
  from review_undone [OF ref.sqlite_engine_axioms ref_requests_available demo_json_roundtrips stored prints(2) ids(1-3)
      prints(1) ids(4) same prints(2)]
  show ?thesis by blast
qed

end
