(* ===== verification/Threaded_Master.thy ===== *)
theory Threaded_Master
  imports Cluster Service_Threads
begin

text \<open>
  The running master at the grain of its mutexes: any number of handlers under way, each between two
  of its locked sections (\<open>Service_Threads\<close>), and the scheduler thread, whose pass reads the queue, then
  decays the usage and reads the nodes, and then assigns job after job
  (\<open>master/src/scheduler/scheduler_engine.cpp\<close>).  Whatever \<open>Cluster\<close> can do, this machine can do; and the
  invariant of \<open>Cluster\<close> holds in it all the same.
\<close>

section \<open>The machine\<close>

text \<open>\<open>tm_queue\<close> is the table of jobs as it was when the pass in progress read its queue from it.\<close>

record 'db threaded =
  tm_cluster :: "'db cluster"
  tm_queue :: "'db job_manager option"
  tm_handlers :: "('db master, rpc_answer) handler list"

abbreviation tm_master :: "'db threaded \<Rightarrow> 'db master" where
  "tm_master t \<equiv> cl_master (tm_cluster t)"

inductive threaded_step ::
  "'db sqlite_api \<Rightarrow> (job_request \<Rightarrow> string option) \<Rightarrow> (string \<Rightarrow> bool \<times> job_request) \<Rightarrow> job_sort
     \<Rightarrow> 'db threaded \<Rightarrow> 'db threaded \<Rightarrow> bool"
  for api to_json of_json srt where
  Arrive: "master_call (\<lambda>_. True) api to_json of_json h \<Longrightarrow>
    threaded_step api to_json of_json srt t (t\<lparr>tm_handlers := tm_handlers t @ [h]\<rparr>)"
| Section: "tm_handlers t = xs @ Locked f # ys \<Longrightarrow> f (tm_master t) = (h, m') \<Longrightarrow>
    threaded_step api to_json of_json srt t
      (t\<lparr>tm_cluster := (tm_cluster t)\<lparr>cl_master := m'\<rparr>, tm_handlers := xs @ h # ys\<rparr>)"
| Queue_read: "cl_plan (tm_cluster t) = [] \<Longrightarrow> tm_queue t = None \<Longrightarrow> get_pending_jobs (job_mgr (tm_master t)) \<noteq> [] \<Longrightarrow>
    threaded_step api to_json of_json srt t (t\<lparr>tm_queue := Some (job_mgr (tm_master t))\<rparr>)"
| Nodes_read: "tm_queue t = Some jm \<Longrightarrow>
    plan = map (\<lambda>(job, n). (ji_job_id job, n))
      (fst (pass_plan srt (fair_share_mgr (tm_master t)) jm (node_reg (tm_master t)) now)) \<Longrightarrow>
    threaded_step api to_json of_json srt t
      (t\<lparr>tm_cluster := (tm_cluster t)\<lparr>cl_master := (tm_master t)\<lparr>fair_share_mgr := apply_decay (fair_share_mgr (tm_master t)) now\<rparr>,
           cl_plan := plan\<rparr>, tm_queue := None\<rparr>)"
| Assign: "cl_plan (tm_cluster t) = (i, n) # plan \<Longrightarrow>
    threaded_step api to_json of_json srt t
      (t\<lparr>tm_cluster := (tm_cluster t)\<lparr>cl_master := (tm_master t)\<lparr>job_mgr :=
            snd (update_job_status (job_mgr (tm_master t)) now i JOB_STATUS_ASSIGNED n)\<rparr>, cl_plan := plan\<rparr>\<rparr>)"

definition start_threaded :: "'db sqlite_api \<Rightarrow> master_config \<Rightarrow> unix_time \<Rightarrow> 'db \<Rightarrow> 'db \<Rightarrow> 'db threaded" where
  "start_threaded api config now admin jobs =
     \<lparr>tm_cluster = start_cluster api config now admin jobs, tm_queue = None, tm_handlers = []\<rparr>"

inductive threaded_reachable ::
  "'db sqlite_api \<Rightarrow> (job_request \<Rightarrow> string option) \<Rightarrow> (string \<Rightarrow> bool \<times> job_request) \<Rightarrow> job_sort \<Rightarrow> 'db threaded \<Rightarrow> bool"
  for api to_json of_json srt where
  Start: "threaded_reachable api to_json of_json srt (start_threaded api config now admin jobs)"
| Step: "threaded_reachable api to_json of_json srt t \<Longrightarrow> threaded_step api to_json of_json srt t t' \<Longrightarrow>
    threaded_reachable api to_json of_json srt t'"

section \<open>The runs of the cluster\<close>

lemma service_threaded:
  assumes "(service_step (master_call (\<lambda>_. True) api to_json of_json))\<^sup>*\<^sup>* (m, hs) (m', hs')"
    "tm_master t = m" "tm_handlers t = hs"
  shows "(threaded_step api to_json of_json srt)\<^sup>*\<^sup>* t (t\<lparr>tm_cluster := (tm_cluster t)\<lparr>cl_master := m'\<rparr>, tm_handlers := hs'\<rparr>)"
  using assms(1)
proof (induction "(m', hs')" arbitrary: m' hs' rule: rtranclp_induct)
  case base
  then show ?case using assms(2,3) by (cases t, cases "tm_cluster t") auto
next
  case (step y)
  let ?t = "t\<lparr>tm_cluster := (tm_cluster t)\<lparr>cl_master := fst y\<rparr>, tm_handlers := snd y\<rparr>"
  have "threaded_step api to_json of_json srt ?t (t\<lparr>tm_cluster := (tm_cluster t)\<lparr>cl_master := m'\<rparr>, tm_handlers := hs'\<rparr>)"
    using step(2)
  proof (cases rule: service_step.cases)
    case (Arrive h hs)
    then show ?thesis using threaded_step.Arrive [where t = ?t and srt = srt] by simp
  next
    case (Section f s h xs ys)
    then show ?thesis using threaded_step.Section [where t = ?t and srt = srt] by simp
  qed
  with step(3) [of "fst y" "snd y"] show ?case by (simp add: rtranclp.rtrancl_into_rtrancl)
qed

text \<open>A call that arrives and is not interrupted.\<close>

lemma call_threaded:
  assumes "master_call (\<lambda>_. True) api to_json of_json h" "snd (run_alone h (tm_master t)) = m'"
  shows "\<exists>hs. (threaded_step api to_json of_json srt)\<^sup>*\<^sup>* t (t\<lparr>tm_cluster := (tm_cluster t)\<lparr>cl_master := m'\<rparr>, tm_handlers := hs\<rparr>)"
proof -
  let ?call = "master_call (\<lambda>_. True) api to_json of_json"
  have "service_step ?call (tm_master t, tm_handlers t) (tm_master t, tm_handlers t @ [h])"
    using assms(1) by (rule service_step.Arrive)
  from converse_rtranclp_into_rtranclp [of "service_step ?call", OF this
      run_alone_steps [of ?call "tm_master t" "tm_handlers t" h "[]"]]
  show ?thesis using service_threaded [OF _ refl refl] assms(2) by blast
qed

lemma report_call:
  "\<exists>h. master_call ok api to_json of_json h \<and> (\<forall>m. snd (run_alone h m) = deliver m now rep)"
proof (cases rep)
  case (Report_started r p)
  then show ?thesis
    using master_call.Started [of ok api to_json of_json now r] by force
next
  case (Report_completed r c out)
  then show ?thesis
    using master_call.Completed [of ok api to_json of_json now r] by force
next
  case (Report_failed r e c)
  then show ?thesis
    using master_call.Failed [of ok api to_json of_json now r] by force
qed

lemmas run_alone_eqs = create_user_alone submit_job_alone public_request_alone update_request_alone review_alone
  heartbeat_alone case_prod_unfold Let_def

lemma cluster_step_threaded:
  assumes "cluster_step api to_json of_json srt c c'" "tm_cluster t = c" "tm_queue t = None"
  shows "\<exists>t'. (threaded_step api to_json of_json srt)\<^sup>*\<^sup>* t t' \<and> tm_cluster t' = c' \<and> tm_queue t' = None"
proof -
  have call: ?thesis if "master_call (\<lambda>_. True) api to_json of_json h" "c' = c\<lparr>cl_master := snd (run_alone h (cl_master c))\<rparr>" for h
    using call_threaded [OF that(1) refl, of srt t] assms(2,3) that(2) by fastforce
  show ?thesis
    using assms(1)
  proof (cases rule: cluster_step.cases)
    case (Report now rep)
    obtain h where "master_call (\<lambda>_. True) api to_json of_json h" "\<forall>m. snd (run_alone h m) = deliver m now rep"
      using report_call by blast
    with Report show ?thesis using call [of h] by simp
  next
    case (Pass_begin now)
    let ?q = "t\<lparr>tm_queue := Some (job_mgr (cl_master c))\<rparr>"
    have "threaded_step api to_json of_json srt t ?q"
      using threaded_step.Queue_read [where t = t] Pass_begin assms(2,3) by simp
    moreover have "threaded_step api to_json of_json srt ?q (t\<lparr>tm_cluster := c', tm_queue := None\<rparr>)"
      using threaded_step.Nodes_read [where t = ?q and srt = srt and now = now] Pass_begin assms(2)
      by (simp add: plan_of_def)
    ultimately show ?thesis by (intro exI [of _ "t\<lparr>tm_cluster := c', tm_queue := None\<rparr>"])
      (auto intro: converse_rtranclp_into_rtranclp)
  next
    case (Pass_assign i n plan now)
    have "threaded_step api to_json of_json srt t (t\<lparr>tm_cluster := c'\<rparr>)"
      using threaded_step.Assign [where t = t and srt = srt and now = now] Pass_assign assms(2) by simp
    then show ?thesis using assms(3) by (intro exI [of _ "t\<lparr>tm_cluster := c'\<rparr>"]) auto
  next
    case (Create_user now r)
    then show ?thesis by (intro call [OF master_call.Create_user [where now = now and r = r]]) (simp_all add: run_alone_eqs)
  next
    case (Submit uuid now md spec)
    then show ?thesis by (intro call [OF master_call.Submit [where uuid = uuid and now = now and md = md and spec = spec]]) (simp_all add: run_alone_eqs)
  next
    case (Cancel now i)
    then show ?thesis by (intro call [OF master_call.Cancel [where now = now and i = i]]) (simp_all add: run_alone_eqs)
  next
    case (Public_request now rnd request)
    then show ?thesis by (intro call [OF master_call.Public_request [where now = now and rnd = rnd and jr = request]]) (simp_all add: run_alone_eqs)
  next
    case (Update_request request)
    then show ?thesis by (intro call [OF master_call.Update_request [where jr = request]]) (simp_all add: run_alone_eqs)
  next
    case (Review uuid now rv)
    then show ?thesis by (intro call [OF master_call.Review [where uuid = uuid and now = now and rv = rv]]) (simp_all add: run_alone_eqs)
  next
    case (Register uuid now reg)
    then show ?thesis by (intro call [OF master_call.Register [where uuid = uuid and now = now and reg = reg]]) (simp_all add: run_alone_eqs)
  next
    case (Heartbeat now hb)
    then show ?thesis by (intro call [OF master_call.Heartbeat [where now = now and hb = hb]]) (simp_all add: run_alone_eqs)
  qed
qed

section \<open>The invariant\<close>

definition master_effect :: "'db master \<Rightarrow> 'db master \<Rightarrow> bool" where
  "master_effect m m' \<longleftrightarrow> job_effect (job_mgr m) (job_mgr m') \<and> node_effect (node_reg m) (node_reg m') \<and>
     fair_share_mgr m' = fair_share_mgr m"

lemma master_effect_parts [simp]:
  "master_effect m m" "master_effect m (m\<lparr>admin_db := db\<rparr>)"
  "master_effect m (m\<lparr>job_mgr := snd (submit_job put (job_mgr m) uuid now spec u un)\<rparr>)"
  "master_effect m (m\<lparr>job_mgr := snd (cancel_job (job_mgr m) now i)\<rparr>)"
  "st \<in> {JOB_STATUS_ASSIGNED, JOB_STATUS_RUNNING, JOB_STATUS_COMPLETED, JOB_STATUS_FAILED} \<Longrightarrow>
     master_effect m (m\<lparr>job_mgr := snd (update_job_status (job_mgr m) now i st n)\<rparr>)"
  "master_effect m (m\<lparr>node_reg := snd (register_node (node_reg m) uuid now info)\<rparr>)"
  "master_effect m (m\<lparr>node_reg := snd (update_heartbeat (node_reg m) now i r k)\<rparr>)"
  by (simp_all add: master_effect_def job_effect.intros node_effect.intros)

lemma roles_guarantees: "guarantees master_effect (roles_calls api names us)"
  by (induction names arbitrary: us) simp_all

lemma call_guarantees: "master_call ok api to_json of_json h \<Longrightarrow> guarantees master_effect h"
  by (induction rule: master_call.induct)
    (simp_all add: login_calls_def create_user_calls_def store_user_calls_def extend_list_calls_def list_users_calls_def
      roles_guarantees submit_job_calls_def public_request_calls_def update_request_calls_def change_request_calls_def
      review_calls_def store_review_calls_def heartbeat_calls_def cancel_job_rpc_def register_node_rpc_def
      report_job_started_rpc_def report_job_completed_rpc_def report_job_failed_rpc_def case_prod_unfold Let_def
      split: option.split)

text \<open>The jobs of the queue a pass has read are still known.\<close>

definition queue_ok :: "'db master \<Rightarrow> 'db job_manager \<Rightarrow> bool" where
  "queue_ok m jm \<longleftrightarrow> jobs_keyed jm \<and> (\<forall>k. get_job jm k \<noteq> None \<longrightarrow> get_job (job_mgr m) k \<noteq> None)"

definition threaded_ok :: "'db threaded \<Rightarrow> bool" where
  "threaded_ok t \<longleftrightarrow> master_ok (tm_master t) \<and> plan_ok (tm_cluster t) \<and>
     (\<forall>jm. tm_queue t = Some jm \<longrightarrow> queue_ok (tm_master t) jm) \<and> (\<forall>h\<in>set (tm_handlers t). guarantees master_effect h)"

lemma effect_ok:
  assumes "master_effect m m'" "master_ok m"
  shows "master_ok m'" "placeable m p \<Longrightarrow> placeable m' p" "queue_ok m jm \<Longrightarrow> queue_ok m' jm"
  using effects_ok [of m m'] job_effect_known [of "job_mgr m" "job_mgr m'"] assms
  by (auto simp: master_effect_def queue_ok_def)

lemma threaded_step_ok:
  assumes "threaded_step api to_json of_json srt t t'" "comparison_sort srt" "threaded_ok t"
  shows "threaded_ok t'"
  using assms(1)
proof (cases rule: threaded_step.cases)
  case (Arrive h)
  then show ?thesis using assms(3) call_guarantees by (auto simp: threaded_ok_def)
next
  case (Section xs f ys h m')
  then have "guarantees master_effect h \<and> master_effect (tm_master t) m'"
    using assms(3) by (intro guaranteesD [of master_effect f]) (auto simp: threaded_ok_def)
  then show ?thesis
    using Section assms(3) effect_ok [of "tm_master t" m'] by (auto simp: threaded_ok_def plan_ok_def)
next
  case Queue_read
  then show ?thesis using assms(3) by (simp add: threaded_ok_def queue_ok_def master_ok_def plan_ok_def)
next
  case (Nodes_read jm plan now)
  have ok: "master_ok (tm_master t)" "queue_ok (tm_master t) jm" using assms(3) Nodes_read by (simp_all add: threaded_ok_def)
  let ?m = "(tm_master t)\<lparr>fair_share_mgr := apply_decay (fair_share_mgr (tm_master t)) now\<rparr>"
  have "master_ok ?m"
    by (rule effects_ok(1) [OF _ _ _ ok(1)]) (auto intro: job_effect.Same node_effect.Same_nodes)
  moreover note queue_plan_ok [OF assms(2) ok(1) _ Nodes_read(3)]
  ultimately show ?thesis
    using Nodes_read assms(3) ok(2) by (auto simp: threaded_ok_def plan_ok_def placeable_def queue_ok_def)
next
  case (Assign i n plan now)
  let ?m = "(tm_master t)\<lparr>job_mgr := snd (update_job_status (job_mgr (tm_master t)) now i JOB_STATUS_ASSIGNED n)\<rparr>"
  have "master_effect (tm_master t) ?m" by simp
  then show ?thesis
    using Assign assms(3) effect_ok [of "tm_master t" ?m] by (auto simp: threaded_ok_def plan_ok_def)
qed

lemma threaded_reachable_ok:
  assumes "threaded_reachable api to_json of_json srt t" "comparison_sort srt"
  shows "threaded_ok t"
  using assms(1)
proof (induction rule: threaded_reachable.induct)
  case (Start config now admin jobs)
  then show ?case by (simp add: threaded_ok_def start_threaded_def start_ok) (simp add: plan_ok_def start_cluster_def)
qed (use threaded_step_ok assms(2) in blast)

lemma reachable_threaded:
  "reachable api to_json of_json srt c \<Longrightarrow>
     \<exists>t. threaded_reachable api to_json of_json srt t \<and> tm_cluster t = c \<and> tm_queue t = None"
proof (induction rule: reachable.induct)
  case (Start config now admin jobs)
  show ?case by (intro exI conjI, rule threaded_reachable.Start) (simp_all add: start_threaded_def)
next
  case (Step c c')
  then obtain t where t: "threaded_reachable api to_json of_json srt t" "tm_cluster t = c" "tm_queue t = None" by blast
  obtain t' where t': "(threaded_step api to_json of_json srt)\<^sup>*\<^sup>* t t'" "tm_cluster t' = c'" "tm_queue t' = None"
    using cluster_step_threaded [OF Step(2) t(2,3)] by blast
  have "threaded_reachable api to_json of_json srt t'"
    using t'(1) t(1) by (induction rule: rtranclp_induct) (auto intro: threaded_reachable.Step)
  with t'(2,3) show ?case by blast
qed

section \<open>Properties\<close>

text \<open>
  The handlers in one piece are runs of the threads.  Every state the master reaches in \<open>Cluster\<close>,
  where each RPC is one step, it reaches with its handlers taken apart as well; and whenever no pass is in
  between its two readings, any step of the cluster can be done by a call that arrives and is not
  interrupted, or by the scheduler, whatever other handlers are under way.
\<close>

theorem cluster_runs_threaded:
  assumes "reachable api to_json of_json srt c"
  shows "(\<exists>t. threaded_reachable api to_json of_json srt t \<and> tm_cluster t = c \<and> tm_queue t = None) \<and>
    (cluster_step api to_json of_json srt c c' \<longrightarrow> tm_cluster t = c \<longrightarrow> tm_queue t = None \<longrightarrow>
      (\<exists>t'. (threaded_step api to_json of_json srt)\<^sup>*\<^sup>* t t' \<and> tm_cluster t' = c' \<and> tm_queue t' = None))"
  using reachable_threaded [OF assms] cluster_step_threaded by blast

theorem cluster_runs_threaded_witness:
  "\<exists>t. threaded_reachable ref_api no_json no_parse std_sort t \<and> tm_cluster t = run3 \<and> tm_queue t = None"
  by (rule cluster_runs_threaded [THEN conjunct1, OF run_reachable(3)])

text \<open>
  C3: The invariant of the master needs no handler to be atomic.  At every point between two locked
  sections of any handlers and of the scheduler, the tables are well-formed, every job is in one of its
  six states and every node online; what a pass still has to assign are known jobs on known nodes, no
  job twice; and a pass whose queue was read before some RPCs and whose nodes are read after them
  sorts within the contract of \<open>std::sort\<close> and places on no node more than the node reports.
\<close>

theorem threaded_invariant:
  assumes "threaded_reachable api to_json of_json srt t" "comparison_sort srt" "m = tm_master t"
  shows "jobs_keyed (job_mgr m) \<and> registry_ok (node_reg m) \<and>
    (get_job (job_mgr m) k = Some job \<longrightarrow> job_ok job) \<and>
    (get_node (node_reg m) n = Some node \<longrightarrow> ni_status node = NODE_STATUS_ONLINE) \<and>
    distinct (map fst (cl_plan (tm_cluster t))) \<and>
    ((i, n') \<in> set (cl_plan (tm_cluster t)) \<longrightarrow> get_job (job_mgr m) i \<noteq> None \<and> get_node (node_reg m) n' \<noteq> None) \<and>
    (tm_queue t = Some jm \<longrightarrow> queue_comparable (fair_share_mgr m) jm now \<and>
      (get_node (node_reg m) n = Some node \<longrightarrow> le_amounts (demand (fst (pass_plan srt (fair_share_mgr m) jm (node_reg m) now)) n)
        (amounts_of (ni_available_resources node))))"
proof -
  have ok: "master_ok m" "plan_ok (tm_cluster t)"
    using threaded_reachable_ok [OF assms(1,2)] by (simp_all add: threaded_ok_def assms(3))
  have "le_amounts (demand (fst (pass_plan srt (fair_share_mgr m) jm (node_reg m) now)) n) (amounts_of (ni_available_resources node))"
    if "get_node (node_reg m) n = Some node"
    using ok(1) that by (intro pass_demand) (auto simp: master_ok_def)
  then show ?thesis
    using ok by (auto simp: master_ok_def plan_ok_def placeable_def assms(3) no_usage_comparable)
qed

text \<open>A pass has read its queue, and the nodes may change before it reads them.\<close>

theorem threaded_invariant_witness:
  "\<exists>t. tm_queue t = Some (job_mgr (cl_master run2)) \<and> tm_cluster t = run2 \<and>
     queue_comparable (fair_share_mgr (tm_master t)) (job_mgr (cl_master run2)) 3"
proof -
  obtain t where t: "threaded_reachable ref_api no_json no_parse std_sort t" "tm_cluster t = run2" "tm_queue t = None"
    using reachable_threaded [OF run_reachable(2)] by blast
  let ?t = "t\<lparr>tm_queue := Some (job_mgr (cl_master run2))\<rparr>"
  have "threaded_step ref_api no_json no_parse std_sort t ?t"
    using threaded_step.Queue_read [where t = t] t(2,3)
    by (simp add: run2_master get_pending_jobs_def list_jobs_def new_job_info_def)
  from threaded_invariant [OF threaded_reachable.Step [OF t(1) this] std.comparison_sort_axioms refl,
      of _ _ _ _ _ _ "job_mgr (cl_master run2)" 3]
  have "queue_comparable (fair_share_mgr (tm_master ?t)) (job_mgr (cl_master run2)) 3" by simp
  then show ?thesis using t(2) by (intro exI [of _ ?t]) simp
qed

end
