(* ===== verification/Unit_Tests.thy ===== *)
theory Unit_Tests
  imports Fair_Share Jwt
begin

text \<open>
  The unit tests of the repository (\<open>tests/test_fair_share.cpp\<close>, \<open>tests/test_jwt_manager.cpp\<close>) on the
  model, one definition per \<open>TEST\<close>: the conjunction of its expectations.  What a test reads from the clock
  is an argument, so that a theorem about it covers every time at which it is run.
\<close>

section \<open>The tests\<close>

definition InitialPriorityFactorIsOne :: "unix_time \<Rightarrow> bool" where
  "InitialPriorityFactorIsOne t \<longleftrightarrow> get_priority_factor (new_fair_share 24 t) ''user1'' = 1"

definition UsageReducesPriority :: "unix_time \<Rightarrow> bool" where
  "UsageReducesPriority t \<longleftrightarrow>
     (let mgr = add_usage (new_fair_share 24 t) ''user1'' 36000;
          factor = get_priority_factor mgr ''user1''
      in factor < 1 \<and> factor > 0)"

definition DecayRestoresPriority :: "unix_time \<Rightarrow> unix_time \<Rightarrow> bool" where
  "DecayRestoresPriority t later \<longleftrightarrow>
     (let mgr = add_usage (new_fair_share (1 / 10000) t) ''user1'' 36000;
          initial_factor = get_priority_factor mgr ''user1'';
          new_factor = get_priority_factor (apply_decay mgr later) ''user1''
      in new_factor > initial_factor)"

text \<open>\<open>is_empty\<close> is \<open>std::string::empty\<close> on the library's tokens.\<close>

definition GenerateAndValidateToken :: "'tok jwt_api \<Rightarrow> ('tok \<Rightarrow> bool) \<Rightarrow> int \<Rightarrow> int \<Rightarrow> bool" where
  "GenerateAndValidateToken api is_empty now later \<longleftrightarrow>
     (let mgr = \<lparr>secret = ''test_secret'', expiry_seconds = 3600\<rparr>;
          token = create_token api mgr now ''u123'' ''alice'' ''user''
      in \<not> is_empty token \<and>
         (case validate_token api mgr later token of
            None \<Rightarrow> False
          | Some decoded \<Rightarrow> tc_user_id decoded = ''u123'' \<and> tc_username decoded = ''alice'' \<and> tc_role decoded = ''user''))"

definition InvalidSignatureRejected :: "'tok jwt_api \<Rightarrow> int \<Rightarrow> int \<Rightarrow> bool" where
  "InvalidSignatureRejected api now later \<longleftrightarrow>
     (let server1 = \<lparr>secret = ''secret1'', expiry_seconds = 3600\<rparr>;
          server2 = \<lparr>secret = ''secret2'', expiry_seconds = 3600\<rparr>;
          token = create_token api server1 now ''u123'' ''alice'' ''user''
      in validate_token api server2 later token = None)"

definition ExpiredTokenRejected :: "'tok jwt_api \<Rightarrow> int \<Rightarrow> int \<Rightarrow> bool" where
  "ExpiredTokenRejected api now later \<longleftrightarrow>
     (let mgr = \<lparr>secret = ''test_secret'', expiry_seconds = 0\<rparr>;
          token = create_token api mgr now ''u123'' ''alice'' ''user''
      in validate_token api mgr later token = None)"

section \<open>Properties\<close>

text \<open>
  The tests of the fair-share manager pass at every time, the last one whenever the clock moved between
  its readings, which the sleep of a second ensures.
\<close>

theorem fair_share_tests_pass:
  "InitialPriorityFactorIsOne t \<and> UsageReducesPriority t \<and> (DecayRestoresPriority t later \<longleftrightarrow> t < later)"
proof (rule conj_goals(2))
  show "InitialPriorityFactorIsOne t"
    by (simp add: InitialPriorityFactorIsOne_def get_priority_factor_def new_fair_share_def)
  have fresh: "usage_of (new_fair_share h t) u = 0" for h u
    by (simp add: usage_of_def new_fair_share_def)
  show "UsageReducesPriority t"
    using factor_strict [of 36000 0] factor_range [of 36000]
    by (simp add: UsageReducesPriority_def Let_def get_priority_factor_usage fresh) (simp add: factor_of_usage_def)
  let ?mgr = "add_usage (new_fair_share (1 / 10000) t) ''user1'' 36000"
  have fields: "last_decay_time (new_fair_share h t) = t" "half_life_hours (new_fair_share (1 / 10000) t) = 1 / 10000" for h by (simp_all add: new_fair_share_def)
  have "usage_of (apply_decay ?mgr later) ''user1'' < 36000" if "t < later"
  proof -
    have "(1::real) < 2 powr ((real_of_int later * 10000 - real_of_int t * 10000) / 3600)"
      using that by (intro gr_one_powr) simp_all
    then show ?thesis using that by (simp add: usage_decay fresh fields powr_divide field_simps)
  qed
  moreover have "usage_of (apply_decay ?mgr later) ''user1'' = 36000" if "later \<le> t"
    using that by (simp add: usage_decay fresh fields)
  ultimately show "DecayRestoresPriority t later \<longleftrightarrow> t < later"
    using factor_strict [of 36000 "usage_of (apply_decay ?mgr later) ''user1''"]
    by (cases "t < later") (simp_all add: DecayRestoresPriority_def Let_def get_priority_factor_usage fresh)
qed

text \<open>
  The tests of the JWT manager pass over any library that keeps its laws and has no empty token.  The
  last one expects a token to be invalid immediately, and is so unless both readings of the clock fall on
  the same nanosecond, the first of a second: a token without a lifetime is valid at the instant at which it expires.
\<close>

theorem jwt_tests_pass:
  assumes "jwt_library api" "\<And>tok. is_empty tok \<Longrightarrow> jwt_decode api tok = None" "now \<le> later" "later \<le> now + 3599 * second"
  shows "GenerateAndValidateToken api is_empty now later \<and> InvalidSignatureRejected api now later \<and>
    (ExpiredTokenRejected api now later \<longleftrightarrow> now \<noteq> later \<or> now mod second \<noteq> 0)"
proof (rule conj_goals(2))
  note created = jwt_library.validate_created [OF assms(1)]
  have secs: "second * ((now + second * x) div second) = now + second * x - now mod second" for x
    using mult_div_mod_eq [of second now] by (simp add: algebra_simps)
  have mod: "0 \<le> now mod second" "now mod second < second" by simp_all
  have start: "second * (now div second) = now - now mod second"
    using mult_div_mod_eq [of second now] by linarith
  have "jwt_decode api (create_token api mgr now u n r) \<noteq> None" for mgr u n r
    by (simp add: create_token_def jwt_library.decode_signed [OF assms(1)])
  then have "\<not> is_empty (create_token api mgr now u n r)" for mgr u n r
    using assms(2) by blast
  then show "GenerateAndValidateToken api is_empty now later"
    using assms(3,4) by (simp add: GenerateAndValidateToken_def Let_def created secs start) (use mod in linarith)
  show "InvalidSignatureRejected api now later"
    by (simp add: InvalidSignatureRejected_def Let_def jwt_library.validate_other_secret [OF assms(1)] hmac_block_def)
  show "ExpiredTokenRejected api now later \<longleftrightarrow> now \<noteq> later \<or> now mod second \<noteq> 0"
    using assms(3) mod by (auto simp: ExpiredTokenRejected_def Let_def created start)
qed

theorem jwt_tests_pass_witness:
  "GenerateAndValidateToken ref_jwt (\<lambda>_. False) 1500 1600 \<and> InvalidSignatureRejected ref_jwt 1500 1600 \<and>
   (ExpiredTokenRejected ref_jwt 1500 1600 \<longleftrightarrow> (1500::int) \<noteq> 1600 \<or> 1500 mod second \<noteq> 0)"
  by (rule jwt_tests_pass [OF ref_jwt.jwt_library_axioms]) simp_all

end
