(* ===== verification/Spec2Isabelle.thy ===== *)
theory Spec2Isabelle
  imports Resource_Manager Scheduler Master_Service Agent_Service Cluster Config Rbac Jwt
    Auth_Interceptor Logging Job_Executor Agent_Daemon Master_Server Server_Calls Gateway
    Gateway_Cluster Http_Server System_Monitor Entry_Points Agent_Process Grid Grid_Runs Grid_Orphans
    Grid_Specs Threaded_Master Unit_Tests
begin

text \<open>
  CertOS is a small cluster manager in C++: a \<^emph>\<open>master\<close> that keeps nodes, jobs, users and public
  job requests and schedules jobs on nodes, an \<^emph>\<open>agent\<close> on every compute node that registers,
  sends heartbeats, polls for jobs and runs them, and a \<^emph>\<open>gateway\<close> that serves the web pages and
  translates REST calls to RPCs of the master.  This library is a model of its core logic with the
  theorems that say what it does.

  \<^bold>\<open>Parts and theories\<close> (paths under \<open>src/\<close>):

  \<^item> \<open>Certos_Prelude\<close>: machine integers, the \<open>std::string\<close> operations the code uses, hash maps as
    association lists, and the lemma collections \<open>table_simps\<close> and \<open>str_simps\<close>.
  \<^item> \<open>Messages\<close>: the protobuf messages and enumerations of \<open>proto/certosc/common.proto\<close>, with the
    default values an unset field has, the gRPC status, and the clock and constants of \<open>types.h\<close>.
  \<^item> \<open>Uuid\<close>: \<open>lib/common/src/uuid.cpp\<close>; the random draws are arguments.
  \<^item> \<open>Resource_Manager\<close>: \<open>master/src/resource_manager.cpp\<close>, the ledger of node capacities in 32-
    and 64-bit words, and its refinement to natural numbers.
  \<^item> \<open>State_Store\<close>: \<open>master/src/state_store.cpp\<close>, the statements the store builds by
    concatenation.  SQLite is the parameter \<open>sqlite_api\<close> (\<open>exec\<close>, \<open>query\<close>) with its documented
    answers on these statements as laws; \<open>ref_api\<close> is a concrete engine that satisfies them.
  \<^item> \<open>Job_Manager\<close>: \<open>master/src/job_manager.cpp\<close>, the table of jobs and the two-way cancellation.
  \<^item> \<open>Node_Registry\<close>: \<open>master/src/node_registry.cpp\<close>.
  \<^item> \<open>Fair_Share\<close>: \<open>master/src/scheduler/fair_share.cpp\<close>, with \<open>double\<close> read as a real.
  \<^item> \<open>Scheduler\<close>: \<open>master/src/scheduler/scheduler_engine.cpp\<close>, one pass over a snapshot of the
    queue.  \<open>std::sort\<close> is a parameter with the contract of the standard: a permutation, sorted
    where the comparator is a strict weak order on the elements.
  \<^item> \<open>Master_Service\<close>, \<open>Agent_Service\<close>: the two services of \<open>master/src/grpc_service.cpp\<close>, one
    definition per RPC; a handler takes the request and the shared components (record \<open>master\<close>)
    and returns status, response and components.  Protobuf's JSON conversion is a parameter.
  \<^item> \<open>Master_Server\<close>: construction, seeding, start and stop in \<open>master/src/master_server.cpp\<close>.
  \<^item> \<open>Server_Calls\<close>: a call of that server, the interceptor of \<open>start()\<close> before the handler.
  \<^item> \<open>Cluster\<close>: the running master as a step relation whose steps are the handlers and the single
    assignments of a scheduling pass, so that a pass interleaves with RPCs as its thread does.
  \<^item> \<open>Service_Threads\<close>, \<open>Threaded_Master\<close>: the same handlers as sequences of the sections that the mutexes
    of the components delimit, the interleavings of any number of them, and the master with its handlers
    taken apart like this and a scheduler whose pass reads the queue and the nodes at different times.
  \<^item> \<open>Config\<close>, \<open>Logging\<close>, \<open>Rbac\<close>, \<open>Jwt\<close>, \<open>Auth_Interceptor\<close>: the libraries under \<open>lib/\<close>; yaml-cpp
    and jwt-cpp are parameters with documented laws.
  \<^item> \<open>System_Monitor\<close>: \<open>lib/metrics/src/system_monitor.cpp\<close>; the texts of \<open>/proc\<close> and the answers
    of \<open>sysinfo\<close> and \<open>statvfs\<close> are the record \<open>host\<close>, formatted input from a stream is modelled.
  \<^item> \<open>Job_Executor\<close>, \<open>Agent_Daemon\<close>: \<open>agent/src/job_executor.cpp\<close>, \<open>agent_daemon.cpp\<close> and
    \<open>agent_grpc_client.cpp\<close>; what the operating system answers is the record \<open>os_run\<close>, and an execution
    thread returns, never ends (a read or a wait that blocks for ever) or ends the process (a sandbox
    directory that cannot be made).
  \<^item> \<open>Agent_Process\<close>: a running agent as threads over the shared daemon: the main thread, the two
    loops and one execution thread per job; a step is one RPC, one section under the executor's mutex
    or one answer of the operating system.  With \<open>faults\<close> any RPC or answer may be lost and the process
    may end at any time; without, every report arrives and every answer is used.
  \<^item> \<open>Json_Data\<close>, \<open>Grpc_Bridge\<close>: \<open>gateway/src/grpc_bridge.cpp\<close> over a stub, a record of one function
    per RPC; \<open>master_stub_of\<close> is the stub of the running master.  Exceptions are values of \<open>exn\<close>.
  \<^item> \<open>Rest_Routes\<close>, \<open>Gateway\<close>, \<open>Gateway_Cluster\<close>: \<open>gateway/src/rest_routes.cpp\<close>, what the gateway
    promises its clients, and the gateway in front of the running master.  The JSON parser, the
    serialiser and the file system are the record \<open>gateway_env\<close>.
  \<^item> \<open>Http_Server\<close>: \<open>gateway/src/http_server.cpp\<close>, one connection after the other, and opening,
    starting and stopping the server, and the stub \<open>websocket_handler.cpp\<close>; Beast's parser is the
    record \<open>http_library\<close>.
  \<^item> \<open>Grid\<close>, \<open>Grid_Runs\<close>, \<open>Grid_Orphans\<close>, \<open>Grid_Specs\<close>: the whole system, one master with its scheduler thread, the
    gateway's connections and any number of agent processes that start, stop and end at will.
  \<^item> \<open>Entry_Points\<close>: the three \<open>main.cpp\<close>.
  \<^item> \<open>Unit_Tests\<close>: the tests of \<open>tests/\<close>, one definition each, and that they pass.

  \<^bold>\<open>Interfaces.\<close>  \<open>sqlite_engine\<close> states what the store needs of SQLite and is interpreted on
  \<open>ref_api\<close>; \<open>kv_store\<close> is what the services need of the store, \<open>job_store\<close> and \<open>job_board\<close> what
  the services and the scheduler need of the table of jobs, \<open>comparison_sort\<close> what the scheduler
  needs of \<open>std::sort\<close>, \<open>jwt_library\<close> what the JWT manager needs of jwt-cpp, \<open>reading_stub\<close> and
  \<open>session_stub\<close> what the gateway needs of the master.  Each is interpreted on the definitions that
  provide it.

  \<^bold>\<open>What the lemmas show.\<close>  Each component theory proves its invariant (keyed tables), the effect
  of every operation on every branch, and its contract.  The scheduler theory proves that a pass
  assigns only what fits, never overcommits what the nodes reported, and leaves no job that still
  fits; that the comparator is a strict weak order while no usage is recorded, and cyclic
  otherwise.  \<open>Cluster\<close> proves by rule induction what holds in every reachable state, that an
  uninterrupted pass is exactly \<open>schedule_pass\<close>, that a cancellation between the snapshot
  and the assignment is lost and the job is handed to its node, and how long heartbeats carry one.  The agent theories prove what the master records of an execution.
  The gateway theories prove that every answer is well typed, that reading requests change nothing,
  how a session keeps its identity, that the whole server takes reachable states of the cluster to
  reachable ones, and exactly when it ends; and that requests filed through REST cannot be reviewed on
  the documented path, only on one with a character too many, that an upload is written anywhere and unchecked, and that static files are served from
  outside the web root.  \<open>System_Monitor\<close> proves that the counters are read exactly, that the
  percentages are in range while no counter falls, and that the network rates add up to the traffic.

  \<open>Service_Threads\<close> relates the handlers to their definitions in one piece, shows with a
  rely/guarantee invariant what no interleaving can break (accounts and stored requests) and which races
  the code has: a name given away twice, a lost listing, a review undone.  \<open>Threaded_Master\<close> proves that
  \<open>Cluster\<close>, where a handler is one step, is contained in the machine of threads, and that the invariant
  of \<open>Cluster\<close> holds at every point between two sections.

  The \<open>Grid\<close> theories put the parts together.  The threads of an agent, taken one step at a time,
  can follow the execution of \<open>Job_Executor\<close>, and each step of the whole system is at most a few steps of
  \<open>Cluster\<close>, so that the invariants of the master hold in it.  Its own invariant, by rule induction on
  \<open>grid_step\<close>, relates the processes to the master: one node, threads on known jobs with the specification
  that was submitted under their id, one holder of each entry.  On it rest that a job sent by a browser
  can be run to its end and a completed job be run again, both in runs without any loss (\<open>grid_step_in
  False\<close>), what a cancellation reaches, and that a job whose agent has ended stays \<open>RUNNING\<close> for ever.
  The last theorem below follows a path from an RPC of the master to the shell of an agent.

  \<^bold>\<open>Conventions.\<close>  Time is in seconds (\<open>int\<close>), far from the bounds of its 64 bits; counters and
  resources keep their width as words; a \<open>double\<close> is read as a real.  The hash maps are lists with
  distinct keys in an arbitrary order.  No recursion needs fuel: every loop of the modelled code is
  over a container, and the endless loops of the processes are sequences of events.

  \<^bold>\<open>Not modelled.\<close>  Sockets, thread primitives and sleeps, the text of log lines, the web pages and
  the installer scripts.  In a run of \<open>Grid\<close> the master is
  not restarted, and what a signal does to a child is one of the answers of the operating system, which
  are arbitrary.  The tables and the rows of SQLite are those of one process: the two databases are
  never opened by another one, and a \<open>SELECT\<close> on the key-value table does not fail.  Metadata that gRPC
  refuses to send (a token with control characters) is outside the model of the calls.
\<close>

section \<open>From a public request to the shell of an agent\<close>

text \<open>
  C20: The archive path of a request reaches a shell unchecked.  Whoever knows the id of a stored
  request may set its archive path by an \<open>UpdateJobRequest\<close>, which asks for no token; once an
  administrator approves the request, the master stores a job with that path, and the agent that
  executes the job builds its shell command with the path as it was sent, so that \<open>x; rm -rf /\<close> is
  run as a second command.
\<close>

theorem archive_reaches_shell:
  assumes engine: "sqlite_engine api kv reqs" "requests_available api" and json: "json_roundtrips to_json of_json"
    and stored: "map_of (list_requests api (admin_db m)) i = Some j" "to_json req = Some j" "jr_request_id req = i"
    and plain: "CHR 0x00 \<notin> set i" "p \<noteq> ''''"
    and update: "update_job_request api to_json of_json m (default_job_request\<lparr>jr_request_id := i,
        jr_requested_spec := default_job_spec\<lparr>spec_archive_path := p\<rparr>\<rparr>) = (st1, response1, m1)" "sr_success response1"
    and review: "admin_review_request api to_json of_json m1 uuid now
        \<lparr>rv_request_id = i, rv_approve = True, rv_comment = c\<rparr> = (st2, response2, m2)"
    and spec: "spec = (jr_requested_spec req)\<lparr>spec_archive_path := p\<rparr>"
  shows "get_job (job_mgr m2) (job_id_of_uuid uuid)
      = Some (new_job_info (job_id_of_uuid uuid) now spec ''public-user'' (jr_applicant_name req)) \<and>
    untar_cmd ex job_id spec = Some (''tar -xzf '' @ p @ '' -C '' @ sandbox_dir ex job_id spec)"
proof -
  define req1 where "req1 = req\<lparr>jr_requested_spec := spec\<rparr>"
  have parse: "j \<noteq> ''''" "of_json j = (True, req)"
    using json stored(2) by (auto simp: json_roundtrips_def)
  from update obtain j1 where j1: "to_json req1 = Some j1"
    and m1: "m1 = m\<lparr>admin_db := snd (update_request_status api (admin_db m) i (job_request_status_number (jr_status req)) j1)\<rparr>"
    using parse plain(2)
    by (auto simp: update_job_request_def target_json_map_of stored Let_def req1_def spec default_job_request_def
        default_job_spec_def default_status_response_def split: option.splits)
  have "CHR 0x00 \<notin> set j1" using json j1 by (auto simp: json_roundtrips_def)
  from stored_after_update [OF engine plain(1) this stored(1)]
  have "map_of (list_requests api (admin_db m1)) i = Some j1" by (simp add: m1)
  from review_stored [OF json this j1, of uuid now True c] review
  have "job_mgr m2 = snd (submit_job (set_kv api) (job_mgr m1) uuid now (jr_requested_spec req1) ''public-user''
      (jr_applicant_name req1))"
    by (auto simp: Let_def split: option.splits)
  then show ?thesis
    using plain(2) by (simp add: job_simps req1_def untar_cmd_def spec)
qed

text \<open>The stored request of \<open>requests_master\<close> with the archive path an attacker sends.\<close>

definition attack_path :: string where
  "attack_path = ''x; rm -rf /; echo''"

definition attack_request :: job_request where
  "attack_request = demo_request\<lparr>jr_requested_spec := (jr_requested_spec demo_request)\<lparr>spec_archive_path := attack_path\<rparr>\<rparr>"

definition attack_to_json :: "job_request \<Rightarrow> string option" where
  "attack_to_json r = (if r = demo_request then Some ''{0}'' else if r = attack_request then Some ''{1}'' else None)"

definition attack_of_json :: "string \<Rightarrow> bool \<times> job_request" where
  "attack_of_json j = (if j = ''{0}'' then (True, demo_request)
     else if j = ''{1}'' then (True, attack_request) else (False, default_job_request))"

theorem archive_reaches_shell_witness:
  "\<exists>st response m. admin_review_request ref_api attack_to_json attack_of_json
      (snd (snd (update_job_request ref_api attack_to_json attack_of_json requests_master
        (default_job_request\<lparr>jr_request_id := ''req-1'',
           jr_requested_spec := default_job_spec\<lparr>spec_archive_path := attack_path\<rparr>\<rparr>))))
      ''0123456789'' 9 \<lparr>rv_request_id = ''req-1'', rv_approve = True, rv_comment = ''''\<rparr> = (st, response, m) \<and>
    get_job (job_mgr m) ''job-01234567'' \<noteq> None \<and>
    untar_cmd (new_executor ''/work'') ''job-01234567'' ((jr_requested_spec demo_request)\<lparr>spec_archive_path := attack_path\<rparr>)
      = Some (''tar -xzf '' @ attack_path @ '' -C /work/job-01234567'')"
proof -
  let ?upd = "default_job_request\<lparr>jr_request_id := ''req-1'',
      jr_requested_spec := default_job_spec\<lparr>spec_archive_path := attack_path\<rparr>\<rparr>"
  have json: "json_roundtrips attack_to_json attack_of_json"
    by (simp add: json_roundtrips_def attack_to_json_def attack_of_json_def)
  have stored: "map_of (list_requests ref_api (admin_db requests_master)) ''req-1'' = Some ''{0}''"
    by (simp add: sqlite_engine.list_requests_map_of [OF ref.sqlite_engine_axioms]
        ref_requests_available [unfolded requests_available_def] requests_master_def)
  have req: "attack_to_json demo_request = Some ''{0}''" "jr_request_id demo_request = ''req-1''"
    by (simp_all add: attack_to_json_def demo_request_def)
  have path: "attack_path \<noteq> ''''" by (simp add: attack_path_def)
  obtain st1 r1 m1 where upd: "update_job_request ref_api attack_to_json attack_of_json requests_master ?upd = (st1, r1, m1)"
    by (metis prod_cases3)
  have "attack_to_json (demo_request\<lparr>jr_requested_spec := (jr_requested_spec demo_request)\<lparr>spec_archive_path := attack_path\<rparr>\<rparr>) \<noteq> None"
    by (simp add: attack_to_json_def attack_request_def)
  then have ok: "sr_success r1"
    using upd path by (auto simp: update_job_request_def target_json_map_of stored attack_of_json_def Let_def
        default_job_request_def default_job_spec_def split: option.splits)
  obtain st2 r2 m2 where rev: "admin_review_request ref_api attack_to_json attack_of_json m1 ''0123456789'' 9
      \<lparr>rv_request_id = ''req-1'', rv_approve = True, rv_comment = ''''\<rparr> = (st2, r2, m2)"
    by (metis prod_cases3)
  have nul: "CHR 0x00 \<notin> set ''req-1''" by simp
  have job: "job_id_of_uuid ''0123456789'' = ''job-01234567''" by (simp add: job_id_of_uuid_def)
  from archive_reaches_shell [OF ref.sqlite_engine_axioms ref_requests_available json stored req nul path
      upd ok rev refl, of "new_executor ''/work''" "''job-01234567''"] path rev
  show ?thesis unfolding upd job by (simp add: sandbox_dir_def new_executor_def)
qed

end
